(* ===== verification/JS_Prelude.thy ===== *)
theory JS_Prelude
  imports Main "HOL-Library.Word"
begin

text \<open>
  The shared part of the development: the numbers and the outcomes of JavaScript code, the
  state-and-exception monad in which the stateful components are written, the logic of invariants
  for that monad, and the list lemmas several components use.

  \<^item> \<open>jsnum\<close> is a Number without its fractions: an integer, \<open>NaN\<close> or an infinity. The code of the
    repository compares and adds lengths and water marks with it, so the special values matter and
    fractions do not.
  \<^item> \<open>('e, 'a) outcome\<close> is how a piece of code ends: it returns, it throws, or the model has no fuel
    left to follow it (\<open>Stuck\<close>, which no handler catches).
  \<^item> \<open>('s, 'e, 'a) js\<close> is code that reads and writes a state \<open>'s\<close> and ends with such an outcome. The
    state is kept when an exception is thrown, as in JavaScript.
  \<^item> \<open>pres_at I m s\<close> says that \<open>m\<close>, started in \<open>s\<close>, keeps the invariant \<open>I\<close> however it ends.
\<close>

named_theorems js_defs \<open>the primitives of the monad\<close>
named_theorems pres_intro \<open>rules that prove that code keeps an invariant\<close>

type_synonym byte = "8 word"
type_synonym bytes = "byte list"

section \<open>Numbers\<close>

datatype jsnum = Fin int | NaN | PInf | NInf

fun num_add :: "jsnum \<Rightarrow> jsnum \<Rightarrow> jsnum" where
  "num_add (Fin a) (Fin b) = Fin (a + b)"
| "num_add NaN _ = NaN"
| "num_add _ NaN = NaN"
| "num_add PInf NInf = NaN"
| "num_add NInf PInf = NaN"
| "num_add PInf _ = PInf"
| "num_add NInf _ = NInf"
| "num_add _ PInf = PInf"
| "num_add _ NInf = NInf"

fun num_neg :: "jsnum \<Rightarrow> jsnum" where
  "num_neg (Fin a) = Fin (- a)"
| "num_neg NaN = NaN"
| "num_neg PInf = NInf"
| "num_neg NInf = PInf"

definition num_sub :: "jsnum \<Rightarrow> jsnum \<Rightarrow> jsnum" where
  "num_sub a b = num_add a (num_neg b)"

text \<open>The relational operators: every comparison with \<open>NaN\<close> is false.\<close>

fun num_less :: "jsnum \<Rightarrow> jsnum \<Rightarrow> bool" where
  "num_less (Fin a) (Fin b) = (a < b)"
| "num_less NaN _ = False"
| "num_less _ NaN = False"
| "num_less NInf b = (b \<noteq> NInf)"
| "num_less _ NInf = False"
| "num_less PInf _ = False"
| "num_less (Fin _) PInf = True"

fun num_ge :: "jsnum \<Rightarrow> jsnum \<Rightarrow> bool" where
  "num_ge NaN _ = False"
| "num_ge _ NaN = False"
| "num_ge a b = (\<not> num_less a b)"

fun num_is_finite :: "jsnum \<Rightarrow> bool" where
  "num_is_finite (Fin _) = True"
| "num_is_finite _ = False"

lemma num_sub_Fin [simp]: "num_sub (Fin a) (Fin b) = Fin (a - b)"
  by (simp add: num_sub_def)

lemma num_ge_Fin [simp]: "num_ge (Fin a) (Fin b) = (b \<le> a)"
  by auto

section \<open>Decimal notation\<close>

text \<open>The decimal digits of a number, as \<open>String(n)\<close> prints an integer.\<close>

fun show_nat :: "nat \<Rightarrow> string" where
  "show_nat n = (if n < 10 then [char_of (48 + n)] else show_nat (n div 10) @ [char_of (48 + n mod 10)])"

declare show_nat.simps [simp del]

fun show_num :: "jsnum \<Rightarrow> string" where
  "show_num (Fin n) = (if n < 0 then ''-'' @ show_nat (nat (- n)) else show_nat (nat n))"
| "show_num NaN = ''NaN''"
| "show_num PInf = ''Infinity''"
| "show_num NInf = ''-Infinity''"

text \<open>\<open>Array.prototype.join\<close>.\<close>

fun join :: "'a list \<Rightarrow> 'a list list \<Rightarrow> 'a list" where
  "join sep [] = []"
| "join sep [x] = x"
| "join sep (x # xs) = x @ sep @ join sep xs"

section \<open>Code with state and exceptions\<close>

datatype ('e, 'a) outcome = Return 'a | Throw 'e | Stuck

type_synonym ('s, 'e, 'a) js = "'s \<Rightarrow> ('e, 'a) outcome \<times> 's"

definition js_ret :: "'a \<Rightarrow> ('s, 'e, 'a) js" where
  "js_ret x = (\<lambda>s. (Return x, s))"

definition js_throw :: "'e \<Rightarrow> ('s, 'e, 'a) js" where
  "js_throw e = (\<lambda>s. (Throw e, s))"

definition js_stuck :: "('s, 'e, 'a) js" where
  "js_stuck = (\<lambda>s. (Stuck, s))"

definition js_bind :: "('s, 'e, 'a) js \<Rightarrow> ('a \<Rightarrow> ('s, 'e, 'b) js) \<Rightarrow> ('s, 'e, 'b) js" where
  "js_bind m k = (\<lambda>s. case m s of
       (Return x, s') \<Rightarrow> k x s'
     | (Throw e, s') \<Rightarrow> (Throw e, s')
     | (Stuck, s') \<Rightarrow> (Stuck, s'))"

definition js_seq :: "('s, 'e, 'a) js \<Rightarrow> ('s, 'e, 'b) js \<Rightarrow> ('s, 'e, 'b) js" where
  "js_seq m n = js_bind m (\<lambda>_. n)"

definition js_catch :: "('s, 'e, 'a) js \<Rightarrow> ('e \<Rightarrow> ('s, 'e, 'a) js) \<Rightarrow> ('s, 'e, 'a) js" where
  "js_catch m h = (\<lambda>s. case m s of
       (Return x, s') \<Rightarrow> (Return x, s')
     | (Throw e, s') \<Rightarrow> h e s'
     | (Stuck, s') \<Rightarrow> (Stuck, s'))"

text \<open>Straight-line code that calls nothing: it reads the state and writes it at once.\<close>

definition js_get :: "('s \<Rightarrow> 'a) \<Rightarrow> ('s, 'e, 'a) js" where
  "js_get f = (\<lambda>s. (Return (f s), s))"

definition js_step :: "('s \<Rightarrow> 'a \<times> 's) \<Rightarrow> ('s, 'e, 'a) js" where
  "js_step f = (\<lambda>s. case f s of (x, s') \<Rightarrow> (Return x, s'))"

definition js_mod :: "('s \<Rightarrow> 's) \<Rightarrow> ('s, 'e, unit) js" where
  "js_mod f = (\<lambda>s. (Return (), f s))"

definition js_when :: "bool \<Rightarrow> ('s, 'e, unit) js \<Rightarrow> ('s, 'e, unit) js" where
  "js_when b m = (if b then m else js_ret ())"

text \<open>\<open>for (const x of xs) f(x)\<close> over an array that the body does not change.\<close>

primrec js_for :: "'a list \<Rightarrow> ('a \<Rightarrow> ('s, 'e, 'b) js) \<Rightarrow> ('s, 'e, unit) js" where
  "js_for [] f = js_ret ()"
| "js_for (x # xs) f = js_seq (f x) (js_for xs f)"

declare js_ret_def [js_defs] js_throw_def [js_defs] js_stuck_def [js_defs] js_bind_def [js_defs]
  js_seq_def [js_defs] js_catch_def [js_defs] js_get_def [js_defs] js_step_def [js_defs]
  js_mod_def [js_defs] js_when_def [js_defs]

section \<open>Invariants of such code\<close>

definition pres_at :: "('s \<Rightarrow> bool) \<Rightarrow> ('s, 'e, 'a) js \<Rightarrow> 's \<Rightarrow> bool" where
  "pres_at I m s \<longleftrightarrow> (I s \<longrightarrow> I (snd (m s)))"

definition preserves :: "('s \<Rightarrow> bool) \<Rightarrow> ('s, 'e, 'a) js \<Rightarrow> bool" where
  "preserves I m \<longleftrightarrow> (\<forall>s. pres_at I m s)"

lemma preservesI [intro?]: "(\<And>s. I s \<Longrightarrow> I (snd (m s))) \<Longrightarrow> preserves I m"
  by (simp add: preserves_def pres_at_def)

lemma preservesD: "preserves I m \<Longrightarrow> I s \<Longrightarrow> I (snd (m s))"
  by (simp add: preserves_def pres_at_def)

lemma preserves_at: "preserves I m \<Longrightarrow> pres_at I m s"
  by (simp add: preserves_def)

lemma preserves_ret [pres_intro]: "preserves I (js_ret x)"
  by (simp add: preserves_def pres_at_def js_defs)

lemma preserves_throw [pres_intro]: "preserves I (js_throw e)"
  by (simp add: preserves_def pres_at_def js_defs)

lemma preserves_stuck [pres_intro]: "preserves I js_stuck"
  by (simp add: preserves_def pres_at_def js_defs)

lemma preserves_get [pres_intro]: "preserves I (js_get f)"
  by (simp add: preserves_def pres_at_def js_defs)

lemma preserves_mod: "(\<And>s. I s \<Longrightarrow> I (f s)) \<Longrightarrow> preserves I (js_mod f)"
  by (simp add: preserves_def pres_at_def js_defs)

lemma preserves_step: "(\<And>s. I s \<Longrightarrow> I (snd (f s))) \<Longrightarrow> preserves I (js_step f)"
  by (simp add: preserves_def pres_at_def js_defs split_beta)

lemma pres_at_bind:
  assumes "pres_at I m s" and "\<And>x s'. m s = (Return x, s') \<Longrightarrow> pres_at I (k x) s'"
  shows "pres_at I (js_bind m k) s"
  using assms
  by (cases "m s"; cases "fst (m s)") (auto simp: pres_at_def js_bind_def)

lemma preserves_bind [pres_intro]:
  "preserves I m \<Longrightarrow> (\<And>x. preserves I (k x)) \<Longrightarrow> preserves I (js_bind m k)"
  unfolding preserves_def by (blast intro: pres_at_bind)

lemma preserves_seq [pres_intro]:
  "preserves I m \<Longrightarrow> preserves I n \<Longrightarrow> preserves I (js_seq m n)"
  unfolding js_seq_def by (rule preserves_bind)

lemma preserves_catch [pres_intro]:
  assumes "preserves I m" and "\<And>e. preserves I (h e)"
  shows "preserves I (js_catch m h)"
proof
  fix s assume "I s"
  with assms(1) have "I (snd (m s))" by (rule preservesD)
  then show "I (snd (js_catch m h s))"
    using assms(2) by (cases "m s"; cases "fst (m s)") (auto simp: js_catch_def dest: preservesD)
qed

lemma preserves_when [pres_intro]: "(b \<Longrightarrow> preserves I m) \<Longrightarrow> preserves I (js_when b m)"
  by (simp add: js_when_def preserves_ret)

lemma preserves_for [pres_intro]: "(\<And>x. preserves I (f x)) \<Longrightarrow> preserves I (js_for xs f)"
  by (induction xs) (simp_all add: preserves_ret preserves_seq)

lemma preserves_if [pres_intro]:
  "(b \<Longrightarrow> preserves I m) \<Longrightarrow> (\<not> b \<Longrightarrow> preserves I n) \<Longrightarrow> preserves I (if b then m else n)"
  by simp

lemma preserves_option [pres_intro]:
  "preserves I n \<Longrightarrow> (\<And>x. preserves I (k x)) \<Longrightarrow> preserves I (case v of None \<Rightarrow> n | Some x \<Rightarrow> k x)"
  by (simp split: option.split)

lemma preserves_prod [pres_intro]:
  "(\<And>x y. preserves I (k x y)) \<Longrightarrow> preserves I (case p of (x, y) \<Rightarrow> k x y)"
  by (simp split: prod.split)

lemma preserves_list [pres_intro]:
  "preserves I n \<Longrightarrow> (\<And>x xs. preserves I (k x xs)) \<Longrightarrow> preserves I (case v of [] \<Rightarrow> n | x # xs \<Rightarrow> k x xs)"
  by (simp split: list.split)

lemma pres_at_seq:
  "pres_at I m w \<Longrightarrow> (\<And>x w'. m w = (Return x, w') \<Longrightarrow> pres_at I n w') \<Longrightarrow> pres_at I (js_seq m n) w"
  unfolding js_seq_def by (rule pres_at_bind)

lemma pres_at_if:
  "(b \<Longrightarrow> pres_at I m w) \<Longrightarrow> (\<not> b \<Longrightarrow> pres_at I n w) \<Longrightarrow> pres_at I (if b then m else n) w"
  by simp

text \<open>The straight-line prefix of a handler, followed by the rest in the state it left.\<close>

lemma pres_at_bind_get [simp]: "pres_at I (js_bind (js_get f) k) s = pres_at I (k (f s)) s"
  by (simp add: pres_at_def js_defs)

lemma pres_at_bind_step:
  "(I s \<Longrightarrow> I (snd (f s)) \<and> pres_at I (k (fst (f s))) (snd (f s))) \<Longrightarrow>
   pres_at I (js_bind (js_step f) k) s"
  by (auto simp: pres_at_def js_defs split_beta)

lemma preserves_bind_get:
  "(\<And>s. pres_at I (k (f s)) s) \<Longrightarrow> preserves I (js_bind (js_get f) k)"
  by (simp add: preserves_def)

section \<open>Strings\<close>

text \<open>\<open>toLowerCase\<close> and \<open>toUpperCase\<close> on the ASCII letters, which is all the modelled code uses them for.\<close>

definition lower_char :: "char \<Rightarrow> char" where
  "lower_char c = (if 65 \<le> (of_char c :: nat) \<and> (of_char c :: nat) \<le> 90 then char_of ((of_char c :: nat) + 32) else c)"

definition upper_char :: "char \<Rightarrow> char" where
  "upper_char c = (if 97 \<le> (of_char c :: nat) \<and> (of_char c :: nat) \<le> 122 then char_of ((of_char c :: nat) - 32) else c)"

definition to_lower :: "string \<Rightarrow> string" where
  "to_lower = map lower_char"

definition to_upper :: "string \<Rightarrow> string" where
  "to_upper = map upper_char"

end
