(* ===== verification/Events.thy ===== *)
theory Events
  imports JS_Prelude
begin

text \<open>
  The event emitter of \<open>src/pkg/jsruntime/events/events.js\<close>.

  The private map \<open>_events\<close> is an association list in insertion order, because \<open>eventNames\<close> shows
  that order; a name whose last listener is removed is deleted from it. The functions are generic
  in the names \<open>'n\<close>, the registered functions \<open>'l\<close> and the values \<open>'v\<close> a program can compare them
  with: \<open>self l\<close> is the function as a value and \<open>inner l\<close> its property \<open>listener\<close>, which
  \<open>once\<close> sets on its wrapper and which is undefined on every other function.

  Proved here: the map keeps no empty list and no name twice; a registration and a removal undo each
  other; a removal takes away exactly the last matching registration and leaves the order of the
  others and all other names alone; \<open>emit\<close> calls the listeners of a snapshot, in order.
\<close>

section \<open>State and operations\<close>

record ('n, 'l) emitter =
  e_events :: "('n \<times> 'l list) list"
  e_maxListeners :: jsnum

definition emitter_new :: "('n, 'l) emitter" where
  "emitter_new = \<lparr>e_events = [], e_maxListeners = Fin 10\<rparr>"

text \<open>\<open>Map.prototype.set\<close> and \<open>delete\<close>.\<close>

fun map_set :: "'n \<Rightarrow> 'x \<Rightarrow> ('n \<times> 'x) list \<Rightarrow> ('n \<times> 'x) list" where
  "map_set k v [] = [(k, v)]"
| "map_set k v ((k', v') # m) = (if k = k' then (k, v) # m else (k', v') # map_set k v m)"

definition map_delete :: "'n \<Rightarrow> ('n \<times> 'x) list \<Rightarrow> ('n \<times> 'x) list" where
  "map_delete k m = filter (\<lambda>e. fst e \<noteq> k) m"

text \<open>\<open>this._events.get(name) || []\<close>.\<close>

definition ev_list :: "('n, 'l) emitter \<Rightarrow> 'n \<Rightarrow> 'l list" where
  "ev_list em n = (case map_of (e_events em) n of None \<Rightarrow> [] | Some ls \<Rightarrow> ls)"

definition emitter_on :: "('n, 'l) emitter \<Rightarrow> 'n \<Rightarrow> 'l \<Rightarrow> ('n, 'l) emitter" where
  "emitter_on em n l = em\<lparr>e_events := map_set n (ev_list em n @ [l]) (e_events em)\<rparr>"

definition emitter_prependListener :: "('n, 'l) emitter \<Rightarrow> 'n \<Rightarrow> 'l \<Rightarrow> ('n, 'l) emitter" where
  "emitter_prependListener em n l = em\<lparr>e_events := map_set n (l # ev_list em n) (e_events em)\<rparr>"

text \<open>The backwards loop of \<open>removeListener\<close>: the index runs from the end, the first hit is spliced
  out and the loop stops.\<close>

fun splice_last :: "('l \<Rightarrow> bool) \<Rightarrow> 'l list \<Rightarrow> nat \<Rightarrow> 'l list" where
  "splice_last hit xs 0 = xs"
| "splice_last hit xs (Suc i) = (if hit (xs ! i) then take i xs @ drop (Suc i) xs else splice_last hit xs i)"

definition emitter_removeListener ::
  "('l \<Rightarrow> 'v) \<Rightarrow> ('l \<Rightarrow> 'v) \<Rightarrow> ('n, 'l) emitter \<Rightarrow> 'n \<Rightarrow> 'v \<Rightarrow> ('n, 'l) emitter" where
  "emitter_removeListener self inner em n v =
     (case map_of (e_events em) n of
        None \<Rightarrow> em
      | Some ls \<Rightarrow>
          let ls' = splice_last (\<lambda>l. self l = v \<or> inner l = v) ls (length ls)
          in if ls' = [] then em\<lparr>e_events := map_delete n (e_events em)\<rparr>
             else em\<lparr>e_events := map_set n ls' (e_events em)\<rparr>)"

text \<open>\<open>removeAllListeners()\<close> and \<open>removeAllListeners(name)\<close>.\<close>

definition emitter_removeAllListeners :: "('n, 'l) emitter \<Rightarrow> 'n option \<Rightarrow> ('n, 'l) emitter" where
  "emitter_removeAllListeners em n =
     (case n of None \<Rightarrow> em\<lparr>e_events := []\<rparr>
      | Some k \<Rightarrow> em\<lparr>e_events := map_delete k (e_events em)\<rparr>)"

text \<open>\<open>listeners\<close> shows the function inside a wrapper when there is one (\<open>truthy\<close> is JavaScript's
  test of a value), \<open>rawListeners\<close> the wrapper itself.\<close>

definition emitter_listeners ::
  "('v \<Rightarrow> bool) \<Rightarrow> ('l \<Rightarrow> 'v) \<Rightarrow> ('l \<Rightarrow> 'v) \<Rightarrow> ('n, 'l) emitter \<Rightarrow> 'n \<Rightarrow> 'v list" where
  "emitter_listeners truthy self inner em n =
     map (\<lambda>l. if truthy (inner l) then inner l else self l) (ev_list em n)"

definition emitter_rawListeners :: "('n, 'l) emitter \<Rightarrow> 'n \<Rightarrow> 'l list" where
  "emitter_rawListeners em n = ev_list em n"

definition emitter_listenerCount ::
  "('v \<Rightarrow> bool) \<Rightarrow> ('l \<Rightarrow> 'v) \<Rightarrow> ('l \<Rightarrow> 'v) \<Rightarrow> ('n, 'l) emitter \<Rightarrow> 'n \<Rightarrow> 'v option \<Rightarrow> nat" where
  "emitter_listenerCount truthy self inner em n v =
     (let ls = emitter_listeners truthy self inner em n
      in case v of None \<Rightarrow> length ls | Some x \<Rightarrow> length (filter (\<lambda>y. y = x) ls))"

definition emitter_eventNames :: "('n, 'l) emitter \<Rightarrow> 'n list" where
  "emitter_eventNames em = map fst (e_events em)"

text \<open>\<open>None\<close> is the \<open>RangeError\<close>.\<close>

definition emitter_setMaxListeners :: "('n, 'l) emitter \<Rightarrow> jsnum \<Rightarrow> ('n, 'l) emitter option" where
  "emitter_setMaxListeners em v =
     (if \<not> num_is_finite v \<or> num_less v (Fin 0) then None else Some (em\<lparr>e_maxListeners := v\<rparr>))"

text \<open>
  \<open>emit(name, ...args)\<close>: the listeners of the moment of the call are run in order, each with the
  state the one before left; \<open>view\<close> finds the emitter in the state, \<open>run\<close> calls a listener, and
  \<open>unheard\<close> is what is thrown when the event is an error event nobody listens to (\<open>None\<close> for
  every other event).
\<close>

definition emitter_emit ::
  "('s \<Rightarrow> ('n, 'l) emitter) \<Rightarrow> ('l \<Rightarrow> ('s, 'e, 'r) js) \<Rightarrow> 'e option \<Rightarrow> 'n \<Rightarrow> ('s, 'e, bool) js" where
  "emitter_emit view run unheard n =
     js_bind (js_get (\<lambda>s. ev_list (view s) n)) (\<lambda>ls.
       case (unheard, ls) of
         (Some e, []) \<Rightarrow> js_throw e
       | _ \<Rightarrow> js_seq (js_for ls run) (js_ret (ls \<noteq> [])))"

section \<open>The map of listeners\<close>

definition emitter_ok :: "('n, 'l) emitter \<Rightarrow> bool" where
  "emitter_ok em \<longleftrightarrow> distinct (map fst (e_events em)) \<and> (\<forall>e \<in> set (e_events em). snd e \<noteq> [])"

lemma map_of_map_set [simp]: "map_of (map_set k v m) = (map_of m)(k \<mapsto> v)"
  by (induction m) (auto simp: fun_eq_iff)

lemma map_of_map_delete [simp]: "map_of (map_delete k m) = (map_of m)(k := None)"
  by (induction m) (auto simp: map_delete_def fun_eq_iff)

lemma keys_map_set: "set (map fst (map_set k v m)) = insert k (set (map fst m))"
  by (induction k v m rule: map_set.induct) auto

lemma distinct_map_set: "distinct (map fst m) \<Longrightarrow> distinct (map fst (map_set k v m))"
proof (induction k v m rule: map_set.induct)
  case (2 k v k' v' m)
  then show ?case using keys_map_set [of k v m] by auto
qed simp

lemma set_map_set: "set (map_set k v m) \<subseteq> insert (k, v) (set m)"
  by (induction k v m rule: map_set.induct) auto

lemma distinct_map_delete: "distinct (map fst m) \<Longrightarrow> distinct (map fst (map_delete k m))"
  by (induction m) (auto simp: map_delete_def)

lemma map_set_same: "map_of m k = Some v \<Longrightarrow> map_set k v m = m"
  by (induction m) (auto split: if_splits)

lemma map_set_twice [simp]: "map_set k v (map_set k v' m) = map_set k v m"
  by (induction m) auto

lemma map_delete_set_fresh:
  "map_of m k = None \<Longrightarrow> map_delete k (map_set k v m) = m"
proof (induction m)
  case Nil
  then show ?case by (simp add: map_delete_def)
next
  case (Cons e m)
  then show ?case by (cases e) (auto simp: map_delete_def split: if_splits)
qed

lemma emitter_ok_empty_list: "emitter_ok em \<Longrightarrow> map_of (e_events em) n \<noteq> Some []"
  by (auto simp: emitter_ok_def dest!: map_of_SomeD)

section \<open>The backwards search\<close>

text \<open>What \<open>splice_last\<close> computes: nothing changes when no listener matches, and otherwise the last
  one is cut out.\<close>

lemma splice_last_none:
  "i \<le> length xs \<Longrightarrow> \<not> list_ex hit (take i xs) \<Longrightarrow> splice_last hit xs i = xs"
  by (induction i) (auto simp: take_Suc_conv_app_nth list_ex_iff)

lemma splice_last_last:
  assumes "hit x" and "\<not> list_ex hit ys"
  shows "splice_last hit (xs @ x # ys) (length xs + Suc (length ys)) = xs @ ys"
proof -
  have "j \<le> length ys \<Longrightarrow> splice_last hit (xs @ x # ys) (length xs + Suc j) = xs @ ys" for j
  proof (induction j)
    case 0
    with assms(1) show ?case by simp
  next
    case (Suc j)
    then have "(xs @ x # ys) ! (length xs + Suc j) = ys ! j" by (simp add: nth_append)
    moreover have "\<not> hit (ys ! j)"
      using assms(2) Suc.prems by (auto simp: list_ex_iff)
    ultimately show ?case using Suc by simp
  qed
  then show ?thesis by blast
qed

lemma splice_last_snoc: "hit x \<Longrightarrow> splice_last hit (xs @ [x]) (length (xs @ [x])) = xs"
  using splice_last_last [of hit x "[]" xs] by simp

lemma ev_list_on [simp]:
  "ev_list (emitter_on em n l) m = (if m = n then ev_list em n @ [l] else ev_list em m)"
  by (simp add: ev_list_def emitter_on_def)

lemma ev_list_prepend [simp]:
  "ev_list (emitter_prependListener em n l) m = (if m = n then l # ev_list em n else ev_list em m)"
  by (simp add: ev_list_def emitter_prependListener_def)

lemma ev_list_remove:
  "ev_list (emitter_removeListener self inner em n v) m =
     (if m = n then splice_last (\<lambda>l. self l = v \<or> inner l = v) (ev_list em n) (length (ev_list em n))
      else ev_list em m)"
  by (simp add: ev_list_def emitter_removeListener_def Let_def split: option.split)

lemma emitter_ok_map_set:
  assumes "emitter_ok em" and "ls \<noteq> []"
  shows "emitter_ok (em\<lparr>e_events := map_set n ls (e_events em)\<rparr>)"
proof -
  have "\<forall>e \<in> set (map_set n ls (e_events em)). snd e \<noteq> []"
    using assms set_map_set [of n ls "e_events em"] by (auto simp: emitter_ok_def)
  with assms(1) show ?thesis by (simp add: emitter_ok_def distinct_map_set)
qed

lemma emitter_ok_map_delete:
  "emitter_ok em \<Longrightarrow> emitter_ok (em\<lparr>e_events := map_delete n (e_events em)\<rparr>)"
  by (auto simp: emitter_ok_def distinct_map_delete) (auto simp: map_delete_def)

section \<open>Properties\<close>

text \<open>Every operation of the emitter that changes its map keeps it well formed: no event name is
  registered twice in the map and no name is left with an empty list of listeners. The empty emitter
  is well formed.
\<close>

theorem emitter_wellformed:
  "emitter_ok emitter_new
   \<and> (emitter_ok em \<longrightarrow>
        emitter_ok (emitter_on em n l)
      \<and> emitter_ok (emitter_prependListener em n l)
      \<and> emitter_ok (emitter_removeListener self inner em n v)
      \<and> emitter_ok (emitter_removeAllListeners em k)
      \<and> (\<forall>em'. emitter_setMaxListeners em x = Some em' \<longrightarrow> emitter_ok em'))"
proof -
  have "emitter_ok (emitter_new :: ('a, 'b) emitter)"
    by (simp add: emitter_new_def emitter_ok_def)
  moreover have "emitter_ok (emitter_removeAllListeners em k)" if "emitter_ok em"
    using that emitter_ok_map_delete [OF that]
    by (auto simp: emitter_removeAllListeners_def emitter_ok_def split: option.split)
  moreover have "emitter_ok (emitter_removeListener self inner em n v)" if "emitter_ok em"
    using that
    by (auto simp: emitter_removeListener_def Let_def split: option.split
        intro: emitter_ok_map_set emitter_ok_map_delete)
  moreover have "emitter_ok em'" if "emitter_ok em" "emitter_setMaxListeners em x = Some em'" for em'
    using that by (auto simp: emitter_setMaxListeners_def emitter_ok_def split: if_splits)
  ultimately show ?thesis
    by (simp add: emitter_on_def emitter_prependListener_def emitter_ok_map_set)
qed

text \<open>A small emitter: functions are numbers, the wrapper of \<open>once\<close> around \<open>f\<close> is \<open>100 + f\<close>.\<close>

definition example_inner :: "nat \<Rightarrow> nat" where
  "example_inner l = (if 100 \<le> l then l - 100 else 0)"

theorem emitter_wellformed_witness:
  "emitter_ok (emitter_removeListener id example_inner
     (emitter_on emitter_new ''data'' (107::nat)) ''data'' 7)"
proof -
  have "emitter_ok (emitter_on emitter_new ''data'' (107::nat))"
    by (simp add: emitter_ok_def emitter_on_def emitter_new_def)
  then show ?thesis by (rule emitter_wellformed [THEN conjunct2, rule_format, THEN conjunct2, THEN conjunct2, THEN conjunct1])
qed

text \<open>Registering a function with \<open>on\<close> and then removing it gives back the emitter exactly as it
  was, whatever else was registered before, also under the same name and also the same function.
\<close>

theorem on_removeListener_roundtrip:
  assumes "emitter_ok em" and "self l = v \<or> inner l = v"
  shows "emitter_removeListener self inner (emitter_on em n l) n v = em"
proof (cases "map_of (e_events em) n")
  case None
  then have "ev_list em n = []" by (simp add: ev_list_def)
  with None assms(2) show ?thesis
    by (simp add: emitter_removeListener_def emitter_on_def Let_def map_delete_set_fresh)
next
  case (Some ls)
  then have ls: "ev_list em n = ls" "ls \<noteq> []"
    using emitter_ok_empty_list [OF assms(1), of n] by (auto simp: ev_list_def)
  have "splice_last (\<lambda>l. self l = v \<or> inner l = v) (ls @ [l]) (length (ls @ [l])) = ls"
    using assms(2) by (rule splice_last_snoc)
  with Some ls show ?thesis
    by (simp add: emitter_removeListener_def emitter_on_def Let_def map_set_same)
qed

theorem on_removeListener_roundtrip_witness:
  "emitter_removeListener id example_inner
     (emitter_on (emitter_on emitter_new ''data'' 7) ''data'' (107::nat)) ''data'' 7
   = emitter_on emitter_new ''data'' 7"
  by (rule on_removeListener_roundtrip)
    (simp_all add: emitter_ok_def emitter_on_def emitter_new_def example_inner_def)

text \<open>\<open>removeListener\<close> removes one registration at most, and that is the last one whose function, or
  whose wrapped function, is the given one: the others keep their order. Without a match it changes
  no list, and it never touches another event name.
\<close>

theorem removeListener_last_match:
  "(ev_list em n = xs @ x # ys \<and> (self x = v \<or> inner x = v) \<and>
      (\<forall>y \<in> set ys. self y \<noteq> v \<and> inner y \<noteq> v) \<longrightarrow>
      ev_list (emitter_removeListener self inner em n v) n = xs @ ys)
   \<and> ((\<forall>y \<in> set (ev_list em n). self y \<noteq> v \<and> inner y \<noteq> v) \<longrightarrow>
      ev_list (emitter_removeListener self inner em n v) n = ev_list em n)
   \<and> (m \<noteq> n \<longrightarrow> ev_list (emitter_removeListener self inner em n v) m = ev_list em m)"
proof (intro conjI impI)
  let ?hit = "\<lambda>l. self l = v \<or> inner l = v"
  show "ev_list (emitter_removeListener self inner em n v) n = xs @ ys"
    if "ev_list em n = xs @ x # ys \<and> ?hit x \<and> (\<forall>y \<in> set ys. self y \<noteq> v \<and> inner y \<noteq> v)"
    using that splice_last_last [of ?hit x ys xs] by (simp add: ev_list_remove list_ex_iff)
  show "ev_list (emitter_removeListener self inner em n v) n = ev_list em n"
    if "\<forall>y \<in> set (ev_list em n). self y \<noteq> v \<and> inner y \<noteq> v"
    using that splice_last_none [of "length (ev_list em n)" "ev_list em n" ?hit]
    by (simp add: ev_list_remove list_ex_iff)
qed (simp add: ev_list_remove)

theorem removeListener_last_match_witness:
  "ev_list (emitter_removeListener id example_inner
      (emitter_on (emitter_on (emitter_on emitter_new ''data'' 7) ''data'' 107) ''data'' (9::nat)) ''data'' 7) ''data''
   = [7] @ [9]"
  using removeListener_last_match [of "emitter_on (emitter_on (emitter_on emitter_new ''data'' 7) ''data'' 107) ''data'' (9::nat)"
    "''data''" "[7]" 107 "[9]" id 7 example_inner "''data''"]
  by (simp add: ev_list_def emitter_on_def emitter_new_def example_inner_def)

end
