(* ===== verification/Stream_State.thy ===== *)
theory Stream_State
  imports Events
begin

text \<open>
  The values, the objects and the world of the stream module \<open>src/pkg/jsruntime/stream/stream.js\<close>.

  JavaScript functions are defunctionalised: every function the module creates is a constructor of
  \<open>closure\<close>, with the variables it captures that do not change; \<open>User n\<close> is a function of the
  program that uses the module. The variables a closure captures and changes (\<open>finished\<close> of the
  completion callback of a write, \<open>called\<close> of the others) are kept in the stream object, in the fields
  after \<open>hooks\<close>. The operations call functions through the record \<open>rt\<close>, so that they can be written
  one after the other; \<open>Stream_Run\<close> ties the knot.

  \<open>history\<close> records what a stream accepted and what it handed on, in order. No operation reads it;
  the properties are stated with it.

  Simplifications: strings are lists of characters; a byte array is its contents, because the module
  never writes into one; a Number has no fraction; a function declares no parameters, so its
  \<open>length\<close> is 0; a length is not reduced modulo \<open>2 ^ 32\<close> by \<open>>>> 0\<close>, because a buffer holds
  at most \<open>kMaxLength\<close> \<open>= 2 ^ 31 - 1\<close> bytes.
\<close>

section \<open>Values and functions\<close>

datatype errclass = Error | TypeError | RangeError

datatype evname = EvData | EvEnd | EvError | EvClose | EvDrain | EvFinish | EvPipe | EvUnpipe
  | EvReadable | EvOther string

datatype pipe_handler = OnData | OnEnd | OnError | OnDrain | OnDestError | OnDestClose

text \<open>\<open>VBuf\<close> is a Buffer, \<open>VU8\<close> a plain Uint8Array, \<open>VView\<close> any other view of an ArrayBuffer, \<open>VObj\<close> an
  object with no \<open>length\<close>, \<open>VStream\<close> one of the module's own objects.\<close>

datatype val = VUndef | VNull | VBool bool | VNum jsnum | VStr string
  | VBuf bytes | VU8 bytes | VView bytes | VArr "val list" | VErr errclass string
  | VObj nat | VStream nat | VFun closure
and closure =
    User nat
  | OnceW nat evname nat val
  | PipeH pipe_handler nat nat nat bool
  | DefRead | DefWrite | DefFinal | DefDestroy | DefTransform | DefFlush
  | TransformWrite | TransformFinal | PassTransform
  | OnWrite nat nat | DestroyDone nat | FinalDone nat nat | TransformDone nat nat | FlushDone nat val
  | HalfOpenEnd nat | HalfOpenFinish nat
  | TickFlow nat | TickReadable nat | TickMaybeRead nat | TickAutoDestroy nat | TickRethrow val
  | TickCallback val val | TickErrored val nat
  | FlowLoop nat | FailLoop nat nat val | UnpipeLoop nat nat nat

fun truthy :: "val \<Rightarrow> bool" where
  "truthy VUndef = False"
| "truthy VNull = False"
| "truthy (VBool b) = b"
| "truthy (VNum n) = (n \<noteq> NaN \<and> n \<noteq> Fin 0)"
| "truthy (VStr s) = (s \<noteq> [])"
| "truthy _ = True"

definition nullish :: "val \<Rightarrow> bool" where
  "nullish v \<longleftrightarrow> v = VUndef \<or> v = VNull"

definition is_function :: "val \<Rightarrow> bool" where
  "is_function v = (case v of VFun _ \<Rightarrow> True | _ \<Rightarrow> False)"

text \<open>\<open>v instanceof Buffer || v instanceof Uint8Array\<close>.\<close>

definition is_bytes :: "val \<Rightarrow> bool" where
  "is_bytes v = (case v of VBuf _ \<Rightarrow> True | VU8 _ \<Rightarrow> True | _ \<Rightarrow> False)"

text \<open>\<open>typeof v === "object"\<close>.\<close>

definition typeof_object :: "val \<Rightarrow> bool" where
  "typeof_object v = (case v of VUndef \<Rightarrow> False | VBool _ \<Rightarrow> False | VNum _ \<Rightarrow> False | VStr _ \<Rightarrow> False
     | VFun _ \<Rightarrow> False | _ \<Rightarrow> True)"

definition typeof_number :: "val \<Rightarrow> bool" where
  "typeof_number v = (case v of VNum _ \<Rightarrow> True | _ \<Rightarrow> False)"

text \<open>The bytes of a chunk, and \<open>v.length\<close>: \<open>None\<close> where it is undefined.\<close>

fun bytes_of :: "val \<Rightarrow> bytes" where
  "bytes_of (VBuf b) = b"
| "bytes_of (VU8 b) = b"
| "bytes_of _ = []"

fun val_len :: "val \<Rightarrow> int option" where
  "val_len (VStr s) = Some (int (length s))"
| "val_len (VBuf b) = Some (int (length b))"
| "val_len (VU8 b) = Some (int (length b))"
| "val_len (VArr vs) = Some (int (length vs))"
| "val_len (VFun _) = Some 0"
| "val_len _ = None"

text \<open>\<open>String(v)\<close>.\<close>

fun js_string :: "val \<Rightarrow> string" where
  "js_string VUndef = ''undefined''"
| "js_string VNull = ''null''"
| "js_string (VBool b) = (if b then ''true'' else ''false'')"
| "js_string (VNum n) = show_num n"
| "js_string (VStr s) = s"
| "js_string (VErr c m) = (case c of Error \<Rightarrow> ''Error'' | TypeError \<Rightarrow> ''TypeError'' | RangeError \<Rightarrow> ''RangeError'') @ '': '' @ m"
| "js_string (VFun _) = ''function''"
| "js_string (VU8 b) = join '','' (map (\<lambda>x. show_nat (unat x)) b)"
| "js_string _ = ''[object Object]''"

definition defaultHighWaterMark :: "bool \<Rightarrow> jsnum" where
  "defaultHighWaterMark objectMode = (if objectMode then Fin 16 else Fin 65536)"

definition chunkLength :: "val \<Rightarrow> bool \<Rightarrow> int" where
  "chunkLength chunk objectMode =
     (if objectMode then 1
      else case chunk of VView b \<Rightarrow> int (length b) | _ \<Rightarrow> (case val_len chunk of Some n \<Rightarrow> n | None \<Rightarrow> 0))"

text \<open>The \<open>n\<close>-th argument of a call.\<close>

definition arg :: "nat \<Rightarrow> val list \<Rightarrow> val" where
  "arg i vs = (if i < length vs then vs ! i else VUndef)"

section \<open>Stream objects\<close>

type_synonym item = "val \<times> val \<times> val" \<comment> \<open>chunk, encoding, callback\<close>
type_synonym pipe = "nat \<times> nat \<times> bool" \<comment> \<open>identity, destination, end\<close>

record rstate =
  r_objectMode :: bool
  r_highWaterMark :: jsnum
  r_buffer :: "val list"
  r_length :: jsnum
  r_ended :: bool
  r_endEmitted :: bool
  r_flowing :: "bool option"
  r_reading :: bool
  r_needReadable :: bool
  r_destroyed :: bool
  r_errored :: val
  r_encoding :: val
  r_pipes :: "pipe list"
  r_readable :: bool
  r_disturbed :: bool
  r_emitReadableScheduled :: bool
  r_flowScheduled :: bool
  r_autoDestroy :: bool

record wstate =
  w_objectMode :: bool
  w_highWaterMark :: jsnum
  w_pending :: "item list"
  w_corkedBuffer :: "item list"
  w_length :: int
  w_writing :: bool
  w_ended :: bool
  w_ending :: bool
  w_finished :: bool
  w_corked :: int
  w_needDrain :: bool
  w_destroyed :: bool
  w_errored :: val
  w_defaultEncoding :: val
  w_writable :: bool
  w_autoDestroy :: bool

record tstate =
  t_transforming :: bool
  t_writechunk :: val
  t_writeencoding :: val
  t_writecb :: val
  t_pending :: "item list"

record hooks =
  h_read :: closure
  h_write :: closure
  h_final :: closure
  h_destroy :: closure
  h_transform :: closure
  h_flush :: closure

text \<open>What a stream took in (\<open>Pushed\<close>, \<open>Unshifted\<close>, \<open>Accepted\<close>), what it handed on (\<open>Delivered\<close>: taken
  out of the buffer for a reader; \<open>Started\<close>: passed to \<open>_write\<close>; \<open>Wrote\<close>: the completion callback of that
  call came), and the points where it emits \<open>end\<close>, \<open>finish\<close> and, after
  its destruction completed with an error or with null, \<open>error\<close> and \<open>close\<close>.\<close>

datatype obs = Pushed val | Unshifted val | Delivered val | Accepted val | Started val | Wrote val
  | EmitEnd | EmitFinish | Completed val

text \<open>
  A stream. \<open>has_r\<close> and \<open>has_w\<close> say which of the two state objects it has. The captured variables:
  \<open>wframe\<close> is the write in progress with its number, so \<open>finished\<close> of the completion callback number
  \<open>k\<close> is \<open>wframe \<noteq> Some (k, _)\<close>; \<open>dcalled\<close> and \<open>derr\<close> belong to \<open>complete\<close> of \<open>destroy\<close>; the
  callback of the \<open>k\<close>-th call of \<open>_final\<close> was called when \<open>k \<in> set fcalled\<close>; \<open>tframe\<close> is the number of
  the transform in progress.
\<close>

record stream =
  emitter :: "(evname, closure) emitter"
  has_r :: bool
  has_w :: bool
  rstate :: rstate
  wstate :: wstate
  tstate :: tstate
  hooks :: hooks
  wframe :: "(nat \<times> item) option"
  wcount :: nat
  dcalled :: bool
  derr :: val
  fcount :: nat
  fcalled :: "nat list"
  tframe :: "nat option"
  tcount :: nat
  history :: "obs list"

record world =
  heap :: "nat \<Rightarrow> stream"
  next_stream :: nat
  next_id :: nat
  ticks :: "closure list"
  vars :: "nat \<Rightarrow> val"
  uncaught :: "val list"

type_synonym 'a code = "(world, val, 'a) js"

record rt =
  rt_call :: "closure \<Rightarrow> val \<Rightarrow> val list \<Rightarrow> val code"
  rt_decode :: "string \<Rightarrow> string \<Rightarrow> bytes"
  rt_encode :: "bytes \<Rightarrow> string \<Rightarrow> string"

section \<open>Options and initial states\<close>

record options =
  o_objectMode :: bool
  o_highWaterMark :: "jsnum option"
  o_readableHighWaterMark :: "jsnum option"
  o_writableHighWaterMark :: "jsnum option"
  o_readable :: bool
  o_writable :: bool
  o_autoDestroy :: bool
  o_allowHalfOpen :: "bool option"
  o_read :: "closure option"
  o_write :: "closure option"
  o_final :: "closure option"
  o_destroy :: "closure option"
  o_transform :: "closure option"
  o_flush :: "closure option"

definition no_options :: options where
  "no_options = \<lparr>o_objectMode = False, o_highWaterMark = None, o_readableHighWaterMark = None,
     o_writableHighWaterMark = None, o_readable = True, o_writable = True, o_autoDestroy = True,
     o_allowHalfOpen = None, o_read = None, o_write = None, o_final = None, o_destroy = None,
     o_transform = None, o_flush = None\<rparr>"

definition pick_hwm :: "jsnum option \<Rightarrow> jsnum option \<Rightarrow> bool \<Rightarrow> jsnum" where
  "pick_hwm a b objectMode =
     (case a of Some n \<Rightarrow> n | None \<Rightarrow> (case b of Some n \<Rightarrow> n | None \<Rightarrow> defaultHighWaterMark objectMode))"

definition initReadableState :: "options \<Rightarrow> rstate" where
  "initReadableState opts = \<lparr>r_objectMode = o_objectMode opts,
     r_highWaterMark = pick_hwm (o_highWaterMark opts) (o_readableHighWaterMark opts) (o_objectMode opts),
     r_buffer = [], r_length = Fin 0, r_ended = False, r_endEmitted = False, r_flowing = None,
     r_reading = False, r_needReadable = False, r_destroyed = False, r_errored = VNull,
     r_encoding = VNull, r_pipes = [], r_readable = o_readable opts, r_disturbed = False,
     r_emitReadableScheduled = False, r_flowScheduled = False, r_autoDestroy = o_autoDestroy opts\<rparr>"

definition initWritableState :: "options \<Rightarrow> wstate" where
  "initWritableState opts = \<lparr>w_objectMode = o_objectMode opts,
     w_highWaterMark = pick_hwm (o_highWaterMark opts) (o_writableHighWaterMark opts) (o_objectMode opts),
     w_pending = [], w_corkedBuffer = [], w_length = 0, w_writing = False, w_ended = False,
     w_ending = False, w_finished = False, w_corked = 0, w_needDrain = False, w_destroyed = False,
     w_errored = VNull, w_defaultEncoding = VStr ''utf8'', w_writable = o_writable opts,
     w_autoDestroy = o_autoDestroy opts\<rparr>"

definition init_tstate :: tstate where
  "init_tstate = \<lparr>t_transforming = False, t_writechunk = VNull, t_writeencoding = VNull,
     t_writecb = VNull, t_pending = []\<rparr>"

definition pick_hook :: "closure option \<Rightarrow> closure \<Rightarrow> closure" where
  "pick_hook h d = (case h of Some c \<Rightarrow> c | None \<Rightarrow> d)"

text \<open>An object with the given state objects and hooks: \<open>new Stream()\<close>, \<open>new Readable(options)\<close> and
  \<open>new Writable(options)\<close>.\<close>

definition bare_stream :: stream where
  "bare_stream = \<lparr>emitter = emitter_new, has_r = False, has_w = False,
     rstate = initReadableState no_options, wstate = initWritableState no_options, tstate = init_tstate,
     hooks = \<lparr>h_read = DefRead, h_write = DefWrite, h_final = DefFinal, h_destroy = DefDestroy,
       h_transform = DefTransform, h_flush = DefFlush\<rparr>,
     wframe = None, wcount = 0, dcalled = False, derr = VUndef, fcount = 0, fcalled = [],
     tframe = None, tcount = 0, history = []\<rparr>"

definition new_Readable :: "options \<Rightarrow> stream" where
  "new_Readable opts = bare_stream\<lparr>has_r := True, rstate := initReadableState opts,
     hooks := (hooks bare_stream)\<lparr>h_read := pick_hook (o_read opts) DefRead,
       h_destroy := pick_hook (o_destroy opts) DefDestroy\<rparr>\<rparr>"

definition new_Writable :: "options \<Rightarrow> stream" where
  "new_Writable opts = bare_stream\<lparr>has_w := True, wstate := initWritableState opts,
     hooks := (hooks bare_stream)\<lparr>h_write := pick_hook (o_write opts) DefWrite,
       h_final := pick_hook (o_final opts) DefFinal,
       h_destroy := pick_hook (o_destroy opts) DefDestroy\<rparr>\<rparr>"

section \<open>Access to the world\<close>

definition get_obj :: "nat \<Rightarrow> (stream \<Rightarrow> 'a) \<Rightarrow> 'a code" where
  "get_obj s f = js_get (\<lambda>w. f (heap w s))"

definition step_obj :: "nat \<Rightarrow> (stream \<Rightarrow> 'a \<times> stream) \<Rightarrow> 'a code" where
  "step_obj s f = js_step (\<lambda>w. (fst (f (heap w s)), w\<lparr>heap := (heap w)(s := snd (f (heap w s)))\<rparr>))"

definition mod_obj :: "nat \<Rightarrow> (stream \<Rightarrow> stream) \<Rightarrow> unit code" where
  "mod_obj s f = js_mod (\<lambda>w. w\<lparr>heap := (heap w)(s := f (heap w s))\<rparr>)"

definition mod_r :: "nat \<Rightarrow> (rstate \<Rightarrow> rstate) \<Rightarrow> unit code" where
  "mod_r s f = mod_obj s (\<lambda>ob. ob\<lparr>rstate := f (rstate ob)\<rparr>)"

definition mod_w :: "nat \<Rightarrow> (wstate \<Rightarrow> wstate) \<Rightarrow> unit code" where
  "mod_w s f = mod_obj s (\<lambda>ob. ob\<lparr>wstate := f (wstate ob)\<rparr>)"

text \<open>A new identity for a function object.\<close>

definition fresh_id :: "nat code" where
  "fresh_id = js_step (\<lambda>w. (next_id w, w\<lparr>next_id := Suc (next_id w)\<rparr>))"

text \<open>\<open>schedule\<close>: \<open>process.nextTick\<close>, a queue.\<close>

definition schedule :: "closure \<Rightarrow> unit code" where
  "schedule c = js_mod (\<lambda>w. w\<lparr>ticks := ticks w @ [c]\<rparr>)"

text \<open>A value used as a function.\<close>

definition call_val :: "rt \<Rightarrow> val \<Rightarrow> val list \<Rightarrow> val code" where
  "call_val R f args = (case f of VFun c \<Rightarrow> rt_call R c VUndef args
     | _ \<Rightarrow> js_throw (VErr TypeError ''not a function''))"

section \<open>Buffers as the streams use them\<close>

text \<open>The check of an encoding name in \<open>buffer.js\<close>, then the native coder of the runtime.\<close>

definition encodings :: "string list" where
  "encodings = [''utf8'', ''utf-8'', ''hex'', ''base64'', ''base64url'', ''ascii'', ''latin1'', ''binary'',
     ''ucs2'', ''ucs-2'', ''utf16le'', ''utf-16le'']"

definition encoding :: "val \<Rightarrow> string code" where
  "encoding e = (let n = (if e = VUndef then ''utf8'' else to_lower (js_string e))
     in if n \<in> set encodings then js_ret n else js_throw (VErr TypeError (''Unknown encoding: '' @ n)))"

definition toBuffer :: "rt \<Rightarrow> val \<Rightarrow> val \<Rightarrow> val code" where
  "toBuffer R chunk enc = (case chunk of
       VView b \<Rightarrow> js_ret (VBuf b)
     | VStr s \<Rightarrow> js_bind (encoding (if truthy enc then enc else VStr ''utf8'')) (\<lambda>e. js_ret (VBuf (rt_decode R s e)))
     | _ \<Rightarrow> js_ret chunk)"

text \<open>\<open>chunk.toString(encoding)\<close>; only a Buffer decodes.\<close>

definition chunk_toString :: "rt \<Rightarrow> val \<Rightarrow> val \<Rightarrow> val code" where
  "chunk_toString R chunk enc = (case chunk of
       VBuf b \<Rightarrow> js_bind (encoding enc) (\<lambda>e. js_ret (VStr (rt_encode R b e)))
     | VUndef \<Rightarrow> js_throw (VErr TypeError ''cannot read property'')
     | VNull \<Rightarrow> js_throw (VErr TypeError ''cannot read property'')
     | _ \<Rightarrow> js_ret (VStr (js_string chunk)))"

text \<open>\<open>concatBuffers\<close> fills a new Buffer with \<open>result.set(part, offset)\<close>, which takes the bytes of a byte
  array and the elements of any other array-like object.\<close>

fun element_byte :: "val \<Rightarrow> byte" where
  "element_byte (VNum (Fin n)) = word_of_int n"
| "element_byte (VBool b) = (if b then 1 else 0)"
| "element_byte _ = 0"

definition set_bytes :: "val \<Rightarrow> bytes" where
  "set_bytes v = (case v of VArr vs \<Rightarrow> map element_byte vs | _ \<Rightarrow> bytes_of v)"

definition concatBuffers :: "val list \<Rightarrow> val + val" where
  "concatBuffers parts =
     (if \<exists>p\<in>set parts. val_len p = None then Inl (VErr RangeError ''Invalid buffer size'')
      else Inr (VBuf (concat (map set_bytes parts))))"

section \<open>Events of a stream\<close>

text \<open>The property \<open>listener\<close> of a function: only the wrapper of \<open>once\<close> has one.\<close>

definition inner_listener :: "closure \<Rightarrow> val" where
  "inner_listener c = (case c of OnceW _ _ _ v \<Rightarrow> v | _ \<Rightarrow> VUndef)"

text \<open>What \<open>emit("error", ...)\<close> throws when nobody listens.\<close>

definition unheard_error :: "val list \<Rightarrow> val" where
  "unheard_error args = (case arg 0 args of VErr c m \<Rightarrow> VErr c m | v \<Rightarrow> VErr Error (js_string v))"

definition emit :: "rt \<Rightarrow> nat \<Rightarrow> evname \<Rightarrow> val list \<Rightarrow> bool code" where
  "emit R s n args =
     emitter_emit (\<lambda>w. emitter (heap w s)) (\<lambda>l. rt_call R l (VStream s) args)
       (if n = EvError then Some (unheard_error args) else None) n"

definition base_on :: "nat \<Rightarrow> evname \<Rightarrow> val \<Rightarrow> unit code" where
  "base_on s n l = (case l of
       VFun c \<Rightarrow> mod_obj s (\<lambda>ob. ob\<lparr>emitter := emitter_on (emitter ob) n c\<rparr>)
     | _ \<Rightarrow> js_throw (VErr TypeError ''listener must be a function''))"

definition base_removeListener :: "nat \<Rightarrow> evname \<Rightarrow> val \<Rightarrow> unit code" where
  "base_removeListener s n v =
     mod_obj s (\<lambda>ob. ob\<lparr>emitter := emitter_removeListener VFun inner_listener (emitter ob) n v\<rparr>)"

end
