(* ===== verification/Stream_Base.thy ===== *)
theory Stream_Base
  imports Stream_State
begin

text \<open>
  The class \<open>Stream\<close> of \<open>src/pkg/jsruntime/stream/stream.js\<close> without its pipes: \<open>destroy\<close>, the
  automatic destruction after the end, and the methods of \<open>Readable\<close> that only change flags and
  listeners (\<open>pause\<close>, \<open>resume\<close>, \<open>on\<close>, \<open>once\<close>, \<open>removeListener\<close>), which the pipes need.

  Straight-line code that calls nothing is one function on the stream object (\<open>destroy_begin\<close>,
  \<open>complete_begin\<close>); what follows it calls listeners and callbacks through \<open>rt\<close>.
\<close>

section \<open>Destruction\<close>

text \<open>The getter \<open>destroyed\<close>; \<open>Duplex\<close> has the one of \<open>Writable\<close>.\<close>

definition is_destroyed :: "stream \<Rightarrow> bool" where
  "is_destroyed ob = (if has_w ob then w_destroyed (wstate ob) else has_r ob \<and> r_destroyed (rstate ob))"

definition already_destroyed :: "stream \<Rightarrow> bool" where
  "already_destroyed ob \<longleftrightarrow> has_r ob \<and> r_destroyed (rstate ob) \<or> has_w ob \<and> w_destroyed (wstate ob)"

definition destroy_r :: "val \<Rightarrow> rstate \<Rightarrow> rstate" where
  "destroy_r err r = r\<lparr>r_destroyed := True, r_ended := True,
     r_errored := (if truthy err then err else r_errored r)\<rparr>"

definition destroy_w :: "val \<Rightarrow> wstate \<Rightarrow> wstate" where
  "destroy_w err st = st\<lparr>w_destroyed := True, w_ended := True, w_ending := True,
     w_errored := (if truthy err then err else w_errored st)\<rparr>"

text \<open>The first lines of \<open>destroy\<close>; the result says whether there is nothing to do.\<close>

definition destroy_begin :: "val \<Rightarrow> stream \<Rightarrow> bool \<times> stream" where
  "destroy_begin err ob =
     (if already_destroyed ob then (True, ob)
      else (False, ob\<lparr>rstate := (if has_r ob then destroy_r err (rstate ob) else rstate ob),
                      wstate := (if has_w ob then destroy_w err (wstate ob) else wstate ob),
                      derr := err\<rparr>))"

definition destroy_clear :: "stream \<Rightarrow> stream" where
  "destroy_clear ob = ob\<lparr>wstate := (wstate ob)\<lparr>w_pending := [], w_corkedBuffer := [], w_length := 0\<rparr>\<rparr>"

text \<open>\<open>if (typeof item[2] === "function") item[2](err || new Error("stream destroyed"))\<close>.\<close>

definition fail_item :: "rt \<Rightarrow> val \<Rightarrow> item \<Rightarrow> unit code" where
  "fail_item R err i = (case i of (_, _, cb) \<Rightarrow>
     js_when (is_function cb)
       (js_seq (call_val R cb [if truthy err then err else VErr Error ''stream destroyed'']) (js_ret ())))"

text \<open>\<open>fail(wstate.pending)\<close> walks a live array: a callback may add to it while the loop runs.\<close>

definition fail_pending :: "rt \<Rightarrow> nat \<Rightarrow> nat \<Rightarrow> val \<Rightarrow> unit code" where
  "fail_pending R s i err =
     js_bind (get_obj s (\<lambda>ob. w_pending (wstate ob))) (\<lambda>items.
       if i < length items
       then js_seq (fail_item R err (items ! i)) (js_seq (rt_call R (FailLoop s (Suc i) err) VUndef []) (js_ret ()))
       else js_ret ())"

text \<open>The callback \<open>complete\<close>, which exists once \<open>destroy\<close> has begun. Its straight-line part returns the
  error it reports, null for none; nothing when it was called before.\<close>

definition set_errored :: "val \<Rightarrow> stream \<Rightarrow> stream" where
  "set_errored e ob = ob\<lparr>
     rstate := (if has_r ob \<and> \<not> truthy (r_errored (rstate ob)) then (rstate ob)\<lparr>r_errored := e\<rparr> else rstate ob),
     wstate := (if has_w ob \<and> \<not> truthy (w_errored (wstate ob)) then (wstate ob)\<lparr>w_errored := e\<rparr> else wstate ob)\<rparr>"

definition complete_begin :: "val \<Rightarrow> stream \<Rightarrow> val option \<times> stream" where
  "complete_begin callbackError ob =
     (if dcalled ob \<or> \<not> already_destroyed ob then (None, ob)
      else
        let error = (if truthy callbackError then callbackError
                     else if truthy (derr ob) then derr ob else VNull);
            ob' = (if truthy error then set_errored error ob else ob)
        in (Some error, ob'\<lparr>dcalled := True, history := history ob @ [Completed error]\<rparr>))"

definition complete_destroy :: "rt \<Rightarrow> nat \<Rightarrow> val \<Rightarrow> unit code" where
  "complete_destroy R s callbackError =
     js_bind (step_obj s (complete_begin callbackError)) (\<lambda>fin.
       case fin of
         None \<Rightarrow> js_ret ()
       | Some error \<Rightarrow>
           js_seq (js_when (truthy error) (js_seq (emit R s EvError [error]) (js_ret ())))
           (js_seq (emit R s EvClose []) (js_ret ())))"

text \<open>The pending and the corked writes are failed, then both queues are emptied.\<close>

definition fail_writes :: "rt \<Rightarrow> nat \<Rightarrow> val \<Rightarrow> unit code" where
  "fail_writes R s err =
     js_seq (js_seq (fail_pending R s 0 err)
       (js_bind (get_obj s (\<lambda>ob. w_corkedBuffer (wstate ob))) (\<lambda>items. js_for items (fail_item R err))))
     (mod_obj s destroy_clear)"

definition call_destroy_hook :: "rt \<Rightarrow> nat \<Rightarrow> val \<Rightarrow> unit code" where
  "call_destroy_hook R s err =
     js_bind (get_obj s (\<lambda>ob. h_destroy (hooks ob))) (\<lambda>hook.
       if hook \<noteq> DefDestroy
       then js_catch
           (js_seq (rt_call R hook (VStream s) [if truthy err then err else VNull, VFun (DestroyDone s)]) (js_ret ()))
           (\<lambda>e. complete_destroy R s e)
       else complete_destroy R s (if truthy err then err else VNull))"

definition destroy :: "rt \<Rightarrow> nat \<Rightarrow> val \<Rightarrow> unit code" where
  "destroy R s err =
     js_bind (step_obj s (destroy_begin err)) (\<lambda>already.
       if already then js_ret ()
       else
         js_seq (js_bind (get_obj s has_w) (\<lambda>w. js_when w (fail_writes R s err)))
         (call_destroy_hook R s err))"

text \<open>\<open>_autoDestroy\<close> and the task it schedules.\<close>

definition autoDestroy :: "nat \<Rightarrow> unit code" where
  "autoDestroy s =
     js_bind (get_obj s (\<lambda>ob. has_r ob \<and> \<not> r_endEmitted (rstate ob) \<or> has_w ob \<and> \<not> w_finished (wstate ob)))
       (\<lambda>wait. if wait then js_ret () else schedule (TickAutoDestroy s))"

definition tick_autoDestroy :: "rt \<Rightarrow> nat \<Rightarrow> unit code" where
  "tick_autoDestroy R s =
     js_bind (get_obj s is_destroyed) (\<lambda>d.
       if d then js_ret () else js_catch (destroy R s VUndef) (\<lambda>e. schedule (TickRethrow e)))"

section \<open>Flow control and listeners\<close>

definition scheduleFlow :: "nat \<Rightarrow> unit code" where
  "scheduleFlow s =
     js_bind (get_obj s (\<lambda>ob. r_flowScheduled (rstate ob) \<or> r_destroyed (rstate ob))) (\<lambda>skip.
       if skip then js_ret ()
       else js_seq (mod_r s (\<lambda>r. r\<lparr>r_flowScheduled := True\<rparr>)) (schedule (TickFlow s)))"

text \<open>\<open>Readable.prototype.pause\<close>, \<open>resume\<close> and \<open>isPaused\<close>; on a stream with no readable side they
  are the methods of \<open>Stream\<close>, which do nothing.\<close>

definition pause :: "nat \<Rightarrow> unit code" where
  "pause s = js_bind (get_obj s has_r) (\<lambda>r. js_when r (mod_r s (\<lambda>r. r\<lparr>r_flowing := Some False\<rparr>)))"

definition resume :: "nat \<Rightarrow> unit code" where
  "resume s =
     js_bind (get_obj s (\<lambda>ob. \<not> has_r ob \<or> \<not> r_readable (rstate ob) \<or> r_flowing (rstate ob) = Some True)) (\<lambda>skip.
       if skip then js_ret ()
       else js_seq (mod_r s (\<lambda>r. r\<lparr>r_flowing := Some True, r_disturbed := True\<rparr>)) (scheduleFlow s))"

definition isPaused :: "stream \<Rightarrow> bool" where
  "isPaused ob \<longleftrightarrow> has_r ob \<and> r_flowing (rstate ob) \<noteq> Some True"

text \<open>The part \<open>Readable\<close> adds to \<open>on\<close> and \<open>once\<close>.\<close>

definition listener_added :: "nat \<Rightarrow> evname \<Rightarrow> unit code" where
  "listener_added s n =
     js_bind (get_obj s has_r) (\<lambda>r.
       if r \<and> n = EvData then resume s
       else if r \<and> n = EvReadable then js_seq (pause s) (schedule (TickMaybeRead s))
       else js_ret ())"

definition stream_on :: "nat \<Rightarrow> evname \<Rightarrow> val \<Rightarrow> unit code" where
  "stream_on s n l = js_seq (base_on s n l) (listener_added s n)"

text \<open>\<open>once\<close> wraps the listener and calls \<open>on\<close>; \<open>Readable\<close> then does its own part a second time.\<close>

definition stream_once :: "nat \<Rightarrow> evname \<Rightarrow> val \<Rightarrow> unit code" where
  "stream_once s n l =
     js_bind fresh_id (\<lambda>u. js_seq (stream_on s n (VFun (OnceW s n u l))) (listener_added s n))"

definition stream_removeListener :: "nat \<Rightarrow> evname \<Rightarrow> val \<Rightarrow> unit code" where
  "stream_removeListener s n v =
     js_seq (base_removeListener s n v)
       (js_bind (get_obj s (\<lambda>ob. has_r ob \<and> n = EvData \<and> ev_list (emitter ob) EvData = []
            \<and> r_flowing (rstate ob) = Some True)) (\<lambda>stop. js_when stop (pause s)))"

text \<open>The wrapper of \<open>once\<close>.\<close>

definition run_once_wrapper :: "rt \<Rightarrow> nat \<Rightarrow> evname \<Rightarrow> nat \<Rightarrow> val \<Rightarrow> val list \<Rightarrow> val code" where
  "run_once_wrapper R s n u l args =
     js_seq (stream_removeListener s n (VFun (OnceW s n u l)))
       (case l of VFun c \<Rightarrow> rt_call R c (VStream s) args
        | _ \<Rightarrow> js_throw (VErr TypeError ''not a function''))"

end
