(* ===== verification/Readable.thy ===== *)
theory Readable
  imports Stream_Base
begin

text \<open>
  The class \<open>Readable\<close> of \<open>src/pkg/jsruntime/stream/stream.js\<close>: \<open>push\<close>, \<open>unshift\<close>, \<open>read\<close> and the
  flowing mode.
\<close>

section \<open>Ends and reads\<close>

definition emitEnd_begin :: "stream \<Rightarrow> bool \<times> stream" where
  "emitEnd_begin ob =
     (if r_endEmitted (rstate ob) \<or> r_destroyed (rstate ob) then (False, ob)
      else (True, ob\<lparr>rstate := (rstate ob)\<lparr>r_endEmitted := True\<rparr>, history := history ob @ [EmitEnd]\<rparr>))"

definition emitEnd :: "rt \<Rightarrow> nat \<Rightarrow> unit code" where
  "emitEnd R s =
     js_bind (step_obj s emitEnd_begin) (\<lambda>go.
       if \<not> go then js_ret () else js_seq (emit R s EvEnd []) (autoDestroy s))"

definition maybeRead :: "rt \<Rightarrow> nat \<Rightarrow> unit code" where
  "maybeRead R s =
     js_bind (get_obj s rstate) (\<lambda>r.
       if r_reading r \<or> r_ended r \<or> r_destroyed r then js_ret ()
       else if num_ge (r_length r) (r_highWaterMark r) then js_ret ()
       else
         js_seq (mod_r s (\<lambda>r. r\<lparr>r_reading := True\<rparr>))
         (js_bind (get_obj s (\<lambda>ob. h_read (hooks ob))) (\<lambda>hook.
           js_catch (js_seq (rt_call R hook (VStream s) [VNum (num_sub (r_highWaterMark r) (r_length r))]) (js_ret ()))
             (\<lambda>e. js_seq (mod_r s (\<lambda>r. r\<lparr>r_reading := False\<rparr>)) (destroy R s e)))))"

section \<open>Pushing\<close>

definition push_end :: "rstate \<Rightarrow> rstate" where
  "push_end r = r\<lparr>r_ended := True, r_reading := False\<rparr>"

definition push_chunk :: "val \<Rightarrow> stream \<Rightarrow> stream" where
  "push_chunk chunk ob = (let r = rstate ob in
     ob\<lparr>rstate := r\<lparr>r_reading := False, r_disturbed := True, r_buffer := r_buffer r @ [chunk],
          r_length := num_add (r_length r) (Fin (chunkLength chunk (r_objectMode r)))\<rparr>,
        history := history ob @ [Pushed chunk]\<rparr>)"

definition emitReadable :: "nat \<Rightarrow> unit code" where
  "emitReadable s =
     js_bind (get_obj s (\<lambda>ob. r_emitReadableScheduled (rstate ob) \<or> r_destroyed (rstate ob) \<or> r_ended (rstate ob)))
       (\<lambda>skip. if skip then js_ret ()
         else js_seq (mod_r s (\<lambda>r. r\<lparr>r_emitReadableScheduled := True\<rparr>)) (schedule (TickReadable s)))"

definition tick_readable :: "rt \<Rightarrow> nat \<Rightarrow> unit code" where
  "tick_readable R s =
     js_seq (mod_r s (\<lambda>r. r\<lparr>r_emitReadableScheduled := False\<rparr>))
       (js_bind (get_obj s rstate) (\<lambda>r.
          if r_destroyed r \<or> r_endEmitted r then js_ret ()
          else js_when (r_buffer r \<noteq> []) (js_seq (emit R s EvReadable []) (js_ret ()))))"

text \<open>The check of a chunk in byte mode: \<open>push\<close> converts it and refuses numbers and other objects.\<close>

definition byte_chunk :: "rt \<Rightarrow> val \<Rightarrow> val \<Rightarrow> bool \<Rightarrow> val code" where
  "byte_chunk R chunk enc objectMode =
     (if objectMode then js_ret chunk
      else js_bind (toBuffer R chunk enc) (\<lambda>c.
        if typeof_number c \<or> typeof_object c \<and> \<not> is_bytes c
        then js_throw (VErr TypeError ''Invalid non-string/buffer chunk'') else js_ret c))"

definition push :: "rt \<Rightarrow> nat \<Rightarrow> val \<Rightarrow> val \<Rightarrow> bool code" where
  "push R s chunk enc =
     js_bind (get_obj s rstate) (\<lambda>r.
       if \<not> r_readable r then js_throw (VErr TypeError ''Cannot push to a stream that is not readable'')
       else if r_destroyed r then js_ret False
       else if chunk = VNull then
         js_seq (mod_r s push_end)
         (js_seq (js_when (\<not> r_endEmitted r \<and> r_length r = Fin 0) (emitEnd R s))
         (js_ret False))
       else
         js_bind (byte_chunk R chunk enc (r_objectMode r)) (\<lambda>c.
           if c = VUndef \<or> val_len c = Some 0
           then js_seq (mod_r s (\<lambda>r. r\<lparr>r_reading := False\<rparr>)) (js_ret True)
           else
             js_seq (mod_obj s (push_chunk c))
             (js_seq (if r_flowing r = Some True then scheduleFlow s
                else js_when (\<not> r_emitReadableScheduled r \<and> \<not> r_ended r) (emitReadable s))
             (get_obj s (\<lambda>ob. num_less (r_length (rstate ob)) (r_highWaterMark (rstate ob)))))))"

definition unshift_chunk :: "val \<Rightarrow> stream \<Rightarrow> stream" where
  "unshift_chunk chunk ob = (let r = rstate ob in
     ob\<lparr>rstate := r\<lparr>r_disturbed := True, r_buffer := chunk # r_buffer r,
          r_length := num_add (r_length r) (Fin (chunkLength chunk (r_objectMode r)))\<rparr>,
        history := history ob @ [Unshifted chunk]\<rparr>)"

definition unshift :: "rt \<Rightarrow> nat \<Rightarrow> val \<Rightarrow> val \<Rightarrow> unit code" where
  "unshift R s chunk enc =
     js_bind (get_obj s rstate) (\<lambda>r.
       if r_flowing r = Some True then js_throw (VErr Error ''stream.unshift() is only valid in paused mode'')
       else if chunk = VNull then js_seq (push R s VNull VUndef) (js_ret ())
       else js_bind (if r_objectMode r then js_ret chunk else toBuffer R chunk enc) (\<lambda>c.
         mod_obj s (unshift_chunk c)))"

section \<open>Reading\<close>

text \<open>
  The loop that collects parts until \<open>wanted\<close> bytes are there. \<open>total += next.length\<close> makes \<open>total\<close>
  \<open>NaN\<close> when a chunk has no length, which ends the loop, and throws when the chunk is undefined or
  null. The result is the parts, the total, the rest of the buffer, and whether it threw.
\<close>

fun take_parts :: "val list \<Rightarrow> val list \<Rightarrow> jsnum \<Rightarrow> int \<Rightarrow> val list \<times> jsnum \<times> val list \<times> bool" where
  "take_parts [] parts tot wanted = (parts, tot, [], False)"
| "take_parts (next # rest) parts tot wanted =
     (if \<not> num_less tot (Fin wanted) then (parts, tot, next # rest, False)
      else if nullish next then (parts @ [next], tot, rest, True)
      else take_parts rest (parts @ [next])
             (num_add tot (case val_len next of Some n \<Rightarrow> Fin n | None \<Rightarrow> NaN)) wanted)"

text \<open>Splitting the last part when there is too much: \<open>last.subarray\<close>.\<close>

fun sub_bytes :: "val \<Rightarrow> nat \<Rightarrow> val \<times> val" where
  "sub_bytes (VBuf b) n = (VBuf (take n b), VBuf (drop n b))"
| "sub_bytes (VU8 b) n = (VU8 (take n b), VU8 (drop n b))"
| "sub_bytes v n = (v, v)"

text \<open>
  When there is too much the last part is cut and its rest goes back to the front of the buffer:
  \<open>None\<close> when it is no byte array and \<open>last.subarray\<close> throws.
\<close>

definition cut_parts :: "val list \<Rightarrow> jsnum \<Rightarrow> val list \<Rightarrow> int \<Rightarrow> (val list \<times> jsnum \<times> val list) option" where
  "cut_parts parts tot left wanted = (case tot of
       Fin t \<Rightarrow>
         if wanted < t then
           (let lst = last parts; excess = t - wanted;
                (take_lst, keep) = sub_bytes lst (nat (int (length (bytes_of lst)) - excess))
            in if is_bytes lst then Some (butlast parts @ [take_lst], Fin wanted, keep # left) else None)
         else Some (parts, tot, left)
     | _ \<Rightarrow> Some (parts, tot, left))"

definition join_parts :: "val list \<Rightarrow> val + val" where
  "join_parts parts = (if length parts = 1 then Inr (hd parts) else concatBuffers parts)"

text \<open>The branch of \<open>read(size)\<close> for a size in byte mode.\<close>

definition read_bytes :: "int \<Rightarrow> stream \<Rightarrow> (val + val) \<times> stream" where
  "read_bytes wanted ob = (let r = rstate ob in
     case take_parts (r_buffer r) [] (Fin 0) wanted of (parts, tot, left, thrown) \<Rightarrow>
       if thrown then (Inl (VErr TypeError ''cannot read property''), ob\<lparr>rstate := r\<lparr>r_buffer := left\<rparr>\<rparr>)
       else case cut_parts parts tot left wanted of
         None \<Rightarrow> (Inl (VErr TypeError ''not a function''), ob\<lparr>rstate := r\<lparr>r_buffer := left\<rparr>\<rparr>)
       | Some (parts', tot', left') \<Rightarrow>
           (join_parts parts', ob\<lparr>
              rstate := r\<lparr>r_buffer := left', r_length := num_sub (r_length r) tot'\<rparr>,
              history := history ob @ (case join_parts parts' of Inl _ \<Rightarrow> [] | Inr c \<Rightarrow> [Delivered c])\<rparr>))"

text \<open>What \<open>read(size)\<close> takes out of the buffer: \<open>sz\<close> is \<open>None\<close> for a call with no size.\<close>

definition read_take :: "int option \<Rightarrow> stream \<Rightarrow> (val + val) \<times> stream" where
  "read_take sz ob = (let r = rstate ob in
     case (sz, r_buffer r) of
       (_, []) \<Rightarrow> (Inr VUndef, ob)
     | (None, c # rest) \<Rightarrow>
         (Inr c, ob\<lparr>rstate := r\<lparr>r_buffer := rest,
             r_length := num_sub (r_length r) (Fin (chunkLength c (r_objectMode r)))\<rparr>,
           history := history ob @ [Delivered c]\<rparr>)
     | (Some wanted, c # rest) \<Rightarrow>
         if r_objectMode r then
           (Inr c, ob\<lparr>rstate := r\<lparr>r_buffer := rest, r_length := num_sub (r_length r) (Fin 1)\<rparr>,
             history := history ob @ [Delivered c]\<rparr>)
         else read_bytes wanted ob)"

definition read_size_bad :: "val \<Rightarrow> bool" where
  "read_size_bad sz \<longleftrightarrow> \<not> nullish sz \<and> sz \<noteq> VNum (Fin 0) \<and>
     (case sz of VNum n \<Rightarrow> \<not> num_is_finite n \<or> num_less n (Fin 0) | _ \<Rightarrow> True)"

definition size_arg :: "val \<Rightarrow> int option" where
  "size_arg sz = (case sz of VNum (Fin n) \<Rightarrow> Some n | _ \<Rightarrow> None)"

text \<open>The branch of \<open>read\<close> for an empty buffer.\<close>

definition read_nothing :: "rt \<Rightarrow> nat \<Rightarrow> bool \<Rightarrow> val code" where
  "read_nothing R s ended =
     (if ended then js_seq (emitEnd R s) (js_ret VNull)
      else js_seq (mod_r s (\<lambda>r. r\<lparr>r_needReadable := True\<rparr>)) (js_seq (maybeRead R s) (js_ret VNull)))"

text \<open>The branch for a buffer with chunks: take, decode, ask for more, end.\<close>

definition read_chunk :: "rt \<Rightarrow> nat \<Rightarrow> val \<Rightarrow> val code" where
  "read_chunk R s sz =
     js_bind (step_obj s (read_take (size_arg sz))) (\<lambda>taken.
     js_bind (get_obj s rstate) (\<lambda>r.
     js_bind (case taken of Inl e \<Rightarrow> js_throw e
        | Inr c \<Rightarrow> (if truthy (r_encoding r) \<and> \<not> r_objectMode r
            then chunk_toString R c (r_encoding r) else js_ret c)) (\<lambda>chunk.
     js_seq (js_when (r_buffer r = [] \<and> \<not> r_ended r)
       (js_seq (mod_r s (\<lambda>r. r\<lparr>r_needReadable := True\<rparr>)) (maybeRead R s)))
     (js_bind (get_obj s rstate) (\<lambda>r.
     js_seq (js_when (r_ended r \<and> r_buffer r = [] \<and> \<not> r_endEmitted r) (emitEnd R s))
     (js_ret chunk))))))"

definition read_buffer :: "rt \<Rightarrow> nat \<Rightarrow> val \<Rightarrow> val code" where
  "read_buffer R s sz = js_bind (get_obj s rstate) (\<lambda>r.
     if r_buffer r = [] then read_nothing R s (r_ended r) else read_chunk R s sz)"

definition read :: "rt \<Rightarrow> nat \<Rightarrow> val \<Rightarrow> val code" where
  "read R s sz =
     js_bind (get_obj s rstate) (\<lambda>r.
       if \<not> r_readable r then js_throw (VErr TypeError ''Cannot read from a stream that is not readable'')
       else if read_size_bad sz then js_throw (VErr RangeError ''read() size must be a non-negative integer'')
       else if sz = VNum (Fin 0) then js_ret VNull
       else
         js_seq (mod_r s (\<lambda>r. r\<lparr>r_disturbed := True\<rparr>)) (read_buffer R s sz))"

definition setEncoding :: "nat \<Rightarrow> val \<Rightarrow> unit code" where
  "setEncoding s e = mod_r s (\<lambda>r. r\<lparr>r_encoding := e\<rparr>)"

section \<open>Flowing\<close>

definition flow_shift :: "stream \<Rightarrow> val \<times> stream" where
  "flow_shift ob = (let r = rstate ob in
     case r_buffer r of
       [] \<Rightarrow> (VUndef, ob)
     | c # rest \<Rightarrow>
         (c, ob\<lparr>rstate := r\<lparr>r_buffer := rest,
             r_length := num_sub (r_length r) (Fin (chunkLength c (r_objectMode r))), r_needReadable := False\<rparr>,
           history := history ob @ [Delivered c]\<rparr>))"

text \<open>One round of the loop of \<open>_flow\<close>; the next round is the closure \<open>FlowLoop\<close>.\<close>

definition flow :: "rt \<Rightarrow> nat \<Rightarrow> unit code" where
  "flow R s =
     js_bind (get_obj s rstate) (\<lambda>r.
       if r_flowing r = Some True \<and> \<not> r_destroyed r then
         (if r_buffer r \<noteq> [] then
            js_bind (step_obj s flow_shift) (\<lambda>c.
            js_bind (if truthy (r_encoding r) \<and> \<not> r_objectMode r then chunk_toString R c (r_encoding r) else js_ret c) (\<lambda>v.
            js_seq (emit R s EvData [v])
            (js_seq (rt_call R (FlowLoop s) VUndef []) (js_ret ()))))
          else if r_ended r then emitEnd R s
          else
            js_seq (maybeRead R s)
            (js_bind (get_obj s rstate) (\<lambda>r.
              if r_buffer r = [] \<and> \<not> r_ended r then js_ret ()
              else js_seq (rt_call R (FlowLoop s) VUndef []) (js_ret ()))))
       else js_ret ())"

definition tick_flow :: "rt \<Rightarrow> nat \<Rightarrow> unit code" where
  "tick_flow R s = js_seq (mod_r s (\<lambda>r. r\<lparr>r_flowScheduled := False\<rparr>)) (flow R s)"

end
