(* ===== verification/Writable.thy ===== *)
theory Writable
  imports Stream_Base
begin

text \<open>
  The class \<open>Writable\<close> of \<open>src/pkg/jsruntime/stream/stream.js\<close>: \<open>write\<close>, \<open>end\<close>, the queue of pending
  writes with its completion callback, \<open>cork\<close> and \<open>uncork\<close>, and the finish.
\<close>

section \<open>Finishing\<close>

definition finish_begin :: "stream \<Rightarrow> bool \<times> stream" where
  "finish_begin ob =
     (if w_finished (wstate ob) \<or> w_destroyed (wstate ob) then (False, ob)
      else (True, ob\<lparr>wstate := (wstate ob)\<lparr>w_finished := True\<rparr>, history := history ob @ [EmitFinish]\<rparr>))"

text \<open>The function \<open>complete\<close> inside \<open>_maybeFinish\<close>.\<close>

definition complete_finish :: "rt \<Rightarrow> nat \<Rightarrow> unit code" where
  "complete_finish R s =
     js_bind (step_obj s finish_begin) (\<lambda>go.
       if \<not> go then js_ret ()
       else
         js_seq (emit R s EvFinish [])
         (js_bind (get_obj s (\<lambda>ob. w_autoDestroy (wstate ob))) (\<lambda>a. js_when a (autoDestroy s))))"

text \<open>Whether \<open>_maybeFinish\<close> goes past its two checks, and the number of the call of \<open>_final\<close> it makes.\<close>

definition may_finish :: "wstate \<Rightarrow> bool" where
  "may_finish st \<longleftrightarrow> w_ending st \<and> \<not> w_finished st \<and> \<not> w_destroyed st \<and>
     \<not> w_writing st \<and> w_pending st = [] \<and> w_corkedBuffer st = []"

definition final_begin :: "stream \<Rightarrow> nat \<times> stream" where
  "final_begin ob = (fcount ob, ob\<lparr>fcount := Suc (fcount ob)\<rparr>)"

definition maybeFinish :: "rt \<Rightarrow> nat \<Rightarrow> unit code" where
  "maybeFinish R s =
     js_bind (get_obj s (\<lambda>ob. (may_finish (wstate ob), h_final (hooks ob)))) (\<lambda>(go, hook).
       if \<not> go then js_ret ()
       else if hook \<noteq> DefFinal then
         js_bind (step_obj s final_begin) (\<lambda>k.
           js_catch (js_seq (rt_call R hook (VStream s) [VFun (FinalDone s k)]) (js_ret ()))
             (\<lambda>e. destroy R s e))
       else complete_finish R s)"

text \<open>The callback of \<open>_final\<close>, number \<open>k\<close>.\<close>

definition final_called :: "nat \<Rightarrow> stream \<Rightarrow> bool \<times> stream" where
  "final_called k ob = (if k \<in> set (fcalled ob) \<or> fcount ob \<le> k then (False, ob)
     else (True, ob\<lparr>fcalled := k # fcalled ob\<rparr>))"

definition finalDone :: "rt \<Rightarrow> nat \<Rightarrow> nat \<Rightarrow> val \<Rightarrow> unit code" where
  "finalDone R s k err =
     js_bind (step_obj s (final_called k)) (\<lambda>go.
       if \<not> go then js_ret ()
       else if truthy err then destroy R s err
       else complete_finish R s)"

section \<open>The queue of writes\<close>

definition doWrite_begin :: "stream \<Rightarrow> (nat \<times> item) option \<times> stream" where
  "doWrite_begin ob = (let st = wstate ob in
     if w_destroyed st \<or> w_writing st then (None, ob)
     else case w_pending st of
       [] \<Rightarrow> (None, ob)
     | i # rest \<Rightarrow>
         (Some (wcount ob, i),
          ob\<lparr>wstate := st\<lparr>w_pending := rest, w_writing := True\<rparr>, wframe := Some (wcount ob, i),
             wcount := Suc (wcount ob), history := history ob @ [Started (fst i)]\<rparr>))"

definition doWrite :: "rt \<Rightarrow> nat \<Rightarrow> unit code" where
  "doWrite R s =
     js_bind (step_obj s doWrite_begin) (\<lambda>started.
       case started of
         None \<Rightarrow> js_ret ()
       | Some (k, chunk, enc, cb) \<Rightarrow>
           js_bind (get_obj s (\<lambda>ob. h_write (hooks ob))) (\<lambda>hook.
             js_catch (js_seq (rt_call R hook (VStream s) [chunk, enc, VFun (OnWrite s k)]) (js_ret ()))
               (\<lambda>e. js_seq (rt_call R (OnWrite s k) VUndef [e]) (js_ret ()))))"

text \<open>The completion callback \<open>onwrite\<close> of the write number \<open>k\<close>.\<close>

definition onwrite_begin :: "nat \<Rightarrow> stream \<Rightarrow> item option \<times> stream" where
  "onwrite_begin k ob = (case wframe ob of
       Some (k', i) \<Rightarrow>
         if k' = k then
           (Some i, ob\<lparr>history := history ob @ [Wrote (fst i)], wframe := None, wstate := (wstate ob)\<lparr>w_writing := False,
              w_length := max 0 (w_length (wstate ob) - chunkLength (fst i) (w_objectMode (wstate ob)))\<rparr>\<rparr>)
         else (None, ob)
     | None \<Rightarrow> (None, ob))"

definition drain_begin :: "stream \<Rightarrow> bool \<times> stream" where
  "drain_begin ob = (let st = wstate ob in
     if w_needDrain st \<and> num_less (Fin (w_length st)) (w_highWaterMark st)
     then (True, ob\<lparr>wstate := st\<lparr>w_needDrain := False\<rparr>\<rparr>) else (False, ob))"

definition onwrite :: "rt \<Rightarrow> nat \<Rightarrow> nat \<Rightarrow> val \<Rightarrow> unit code" where
  "onwrite R s k err =
     js_bind (step_obj s (onwrite_begin k)) (\<lambda>done.
       case done of
         None \<Rightarrow> js_ret ()
       | Some (chunk, enc, cb) \<Rightarrow>
           if truthy err then
             js_seq (js_when (truthy cb) (js_seq (call_val R cb [err]) (js_ret ()))) (destroy R s err)
           else
             js_seq (js_when (truthy cb) (js_seq (call_val R cb []) (js_ret ())))
             (js_bind (get_obj s wstate) (\<lambda>st.
               if w_destroyed st then js_ret ()
               else if w_pending st \<noteq> [] then doWrite R s
               else
                 js_seq (js_bind (step_obj s drain_begin) (\<lambda>d. js_when d (js_seq (emit R s EvDrain []) (js_ret ()))))
                 (maybeFinish R s))))"

section \<open>Writing\<close>

text \<open>The chunk is counted and queued, in the corked buffer while the stream is corked; the result is
  whether it is.\<close>

definition accept_item :: "item \<Rightarrow> stream \<Rightarrow> bool \<times> stream" where
  "accept_item i ob = (let st = wstate ob;
       st' = st\<lparr>w_length := w_length st + chunkLength (fst i) (w_objectMode st)\<rparr>
     in (0 < w_corked st,
         ob\<lparr>wstate := (if 0 < w_corked st then st'\<lparr>w_corkedBuffer := w_corkedBuffer st @ [i]\<rparr>
                       else st'\<lparr>w_pending := w_pending st @ [i]\<rparr>),
            history := history ob @ [Accepted (fst i)]\<rparr>))"

definition write_result :: "stream \<Rightarrow> bool \<times> stream" where
  "write_result ob = (let st = wstate ob; ok = num_less (Fin (w_length st)) (w_highWaterMark st)
     in (ok, if ok then ob else ob\<lparr>wstate := st\<lparr>w_needDrain := True\<rparr>\<rparr>))"

text \<open>The conversion and the check of a chunk: as in \<open>push\<close>, but null passes and becomes an empty
  Buffer.\<close>

definition write_chunk :: "rt \<Rightarrow> val \<Rightarrow> val \<Rightarrow> bool \<Rightarrow> val code" where
  "write_chunk R chunk enc objectMode =
     js_bind (if objectMode then js_ret chunk
        else js_bind (toBuffer R chunk enc) (\<lambda>c.
          if typeof_number c \<or> typeof_object c \<and> c \<noteq> VNull \<and> \<not> is_bytes c
          then js_throw (VErr TypeError ''Invalid non-string/buffer chunk'') else js_ret c))
       (\<lambda>c. js_ret (if nullish c then VBuf [] else c))"

text \<open>The last part of \<open>write\<close>.\<close>

definition queue_item :: "rt \<Rightarrow> nat \<Rightarrow> item \<Rightarrow> bool code" where
  "queue_item R s i =
     js_bind (step_obj s (accept_item i)) (\<lambda>corked.
       if corked then js_ret True else js_seq (doWrite R s) (step_obj s write_result))"

definition write_stream :: "rt \<Rightarrow> nat \<Rightarrow> val \<Rightarrow> val \<Rightarrow> val \<Rightarrow> bool code" where
  "write_stream R s chunk enc0 cb0 =
     js_bind (get_obj s wstate) (\<lambda>st.
       if \<not> w_writable st then js_throw (VErr TypeError ''stream is not writable'')
       else
         let cb = (if is_function enc0 then enc0 else cb0);
             enc = (if is_function enc0 then VNull else enc0)
         in if w_destroyed st then
              js_seq (js_when (is_function cb) (schedule (TickErrored cb s))) (js_ret False)
            else if w_ended st then
              (let e = VErr Error ''write after end''
               in js_seq (js_when (is_function cb) (schedule (TickCallback cb e)))
                  (js_seq (destroy R s e) (js_ret False)))
            else
              js_bind (write_chunk R chunk (if truthy enc then enc else w_defaultEncoding st) (w_objectMode st)) (\<lambda>c.
                queue_item R s (c, enc, cb)))"

text \<open>The task that reports a write to a destroyed stream: \<open>callback(state.errored || new Error(...))\<close>.\<close>

definition tick_errored :: "rt \<Rightarrow> val \<Rightarrow> nat \<Rightarrow> val code" where
  "tick_errored R cb s =
     js_bind (get_obj s (\<lambda>ob. w_errored (wstate ob))) (\<lambda>e.
       call_val R cb [if truthy e then e else VErr Error ''stream destroyed''])"

definition set_ended :: "stream \<Rightarrow> stream" where
  "set_ended ob = ob\<lparr>wstate := (wstate ob)\<lparr>w_ended := True, w_ending := True\<rparr>\<rparr>"

text \<open>The last part of \<open>end\<close>.\<close>

definition end_now :: "rt \<Rightarrow> nat \<Rightarrow> unit code" where
  "end_now R s =
     js_bind (get_obj s (\<lambda>ob. w_ended (wstate ob))) (\<lambda>ended.
       if ended then js_ret () else js_seq (mod_obj s set_ended) (maybeFinish R s))"

definition end_writing :: "rt \<Rightarrow> nat \<Rightarrow> val \<Rightarrow> val \<Rightarrow> val \<Rightarrow> unit code" where
  "end_writing R s chunk0 enc0 cb0 =
     js_bind (get_obj s wstate) (\<lambda>st.
       if \<not> w_writable st then js_throw (VErr TypeError ''stream is not writable'')
       else
         let (chunk, enc, cb) =
               (if is_function chunk0 then (VNull, VNull, chunk0)
                else if is_function enc0 then (chunk0, VNull, enc0)
                else (chunk0, enc0, cb0))
         in if w_destroyed st then js_when (is_function cb) (schedule (TickErrored cb s))
            else
              js_seq (if \<not> nullish chunk \<and> chunk \<noteq> VStr [] then js_seq (write_stream R s chunk enc cb) (js_ret ())
                 else js_when (is_function cb) (stream_once s EvFinish cb))
              (end_now R s))"

definition cork :: "nat \<Rightarrow> unit code" where
  "cork s = mod_w s (\<lambda>st. st\<lparr>w_corked := w_corked st + 1\<rparr>)"

definition uncork_begin :: "stream \<Rightarrow> bool \<times> stream" where
  "uncork_begin ob = (let st = wstate ob in
     if w_corked st \<le> 0 then (False, ob)
     else let st' = st\<lparr>w_corked := w_corked st - 1\<rparr> in
       if 0 < w_corked st' then (False, ob\<lparr>wstate := st'\<rparr>)
       else if w_corkedBuffer st' = [] then (False, ob\<lparr>wstate := st'\<rparr>)
       else (True, ob\<lparr>wstate := st'\<lparr>w_corkedBuffer := [], w_pending := w_pending st @ w_corkedBuffer st\<rparr>\<rparr>))"

definition uncork :: "rt \<Rightarrow> nat \<Rightarrow> unit code" where
  "uncork R s = js_bind (step_obj s uncork_begin) (\<lambda>go. js_when go (doWrite R s))"

definition setDefaultEncoding :: "nat \<Rightarrow> val \<Rightarrow> unit code" where
  "setDefaultEncoding s e = mod_w s (\<lambda>st. st\<lparr>w_defaultEncoding := e\<rparr>)"

end
