(* ===== verification/Transform.thy ===== *)
theory Transform
  imports Readable Writable
begin

text \<open>
  The classes \<open>Duplex\<close>, \<open>Transform\<close> and \<open>PassThrough\<close> of \<open>src/pkg/jsruntime/stream/stream.js\<close>.
\<close>

section \<open>Duplex\<close>

definition new_duplex_object :: "options \<Rightarrow> stream" where
  "new_duplex_object opts = (new_Readable opts)\<lparr>has_w := True, wstate := initWritableState opts,
     hooks := (hooks (new_Readable opts))\<lparr>h_write := pick_hook (o_write opts) DefWrite,
       h_final := pick_hook (o_final opts) DefFinal\<rparr>\<rparr>"

text \<open>The two listeners of a duplex stream that does not stay half open.\<close>

definition halfOpenEnd :: "rt \<Rightarrow> nat \<Rightarrow> unit code" where
  "halfOpenEnd R s =
     js_bind (get_obj s wstate) (\<lambda>st.
       js_when (\<not> w_ended st \<and> \<not> w_destroyed st) (end_writing R s VUndef VUndef VUndef))"

definition halfOpenFinish :: "rt \<Rightarrow> nat \<Rightarrow> unit code" where
  "halfOpenFinish R s =
     js_bind (get_obj s rstate) (\<lambda>r.
       js_when (\<not> r_ended r \<and> \<not> r_destroyed r) (js_seq (push R s VNull VUndef) (js_ret ())))"

text \<open>The object of a new stream: the next free place of the heap.\<close>

definition alloc :: "stream \<Rightarrow> nat code" where
  "alloc ob = js_step (\<lambda>w. (next_stream w,
     w\<lparr>heap := (heap w)(next_stream w := ob), next_stream := Suc (next_stream w)\<rparr>))"

definition close_half :: "nat \<Rightarrow> bool \<Rightarrow> unit code" where
  "close_half s allowHalfOpen = js_when (\<not> allowHalfOpen)
     (js_seq (stream_on s EvEnd (VFun (HalfOpenEnd s))) (stream_on s EvFinish (VFun (HalfOpenFinish s))))"

definition new_Duplex :: "options \<Rightarrow> nat code" where
  "new_Duplex opts = js_bind (alloc (new_duplex_object opts)) (\<lambda>s.
     js_seq (close_half s (o_allowHalfOpen opts \<noteq> Some False)) (js_ret s))"

section \<open>Transform\<close>

text \<open>A transform is a duplex stream whose \<open>_write\<close> and \<open>_final\<close> are the methods below, unless the
  options bring their own, and which stays half open only when the options say so.\<close>

definition new_transform_object :: "options \<Rightarrow> closure \<Rightarrow> stream" where
  "new_transform_object opts tr = (new_duplex_object opts)\<lparr>tstate := init_tstate,
     hooks := (hooks (new_duplex_object opts))\<lparr>
       h_write := pick_hook (o_write opts) TransformWrite,
       h_final := pick_hook (o_final opts) TransformFinal,
       h_transform := pick_hook (o_transform opts) tr,
       h_flush := pick_hook (o_flush opts) DefFlush\<rparr>\<rparr>"

definition new_Transform :: "options \<Rightarrow> nat code" where
  "new_Transform opts = js_bind (alloc (new_transform_object opts DefTransform)) (\<lambda>s.
     js_seq (close_half s (o_allowHalfOpen opts = Some True)) (js_ret s))"

definition new_PassThrough :: "options \<Rightarrow> nat code" where
  "new_PassThrough opts = js_bind (alloc (new_transform_object opts PassTransform)) (\<lambda>s.
     js_seq (close_half s (o_allowHalfOpen opts = Some True)) (js_ret s))"

definition doTransform_begin :: "stream \<Rightarrow> (nat \<times> val \<times> val) option \<times> stream" where
  "doTransform_begin ob = (let t = tstate ob in
     if t_transforming t \<or> nullish (t_writechunk t) then (None, ob)
     else (Some (tcount ob, t_writechunk t, t_writeencoding t),
           ob\<lparr>tstate := t\<lparr>t_transforming := True\<rparr>, tframe := Some (tcount ob), tcount := Suc (tcount ob)\<rparr>))"

definition doTransform :: "rt \<Rightarrow> nat \<Rightarrow> unit code" where
  "doTransform R s =
     js_bind (step_obj s doTransform_begin) (\<lambda>started.
       case started of
         None \<Rightarrow> js_ret ()
       | Some (k, chunk, enc) \<Rightarrow>
           js_bind (get_obj s (\<lambda>ob. h_transform (hooks ob))) (\<lambda>hook.
             js_catch (js_seq (rt_call R hook (VStream s) [chunk, enc, VFun (TransformDone s k)]) (js_ret ()))
               (\<lambda>e. js_seq (rt_call R (TransformDone s k) VUndef [e]) (js_ret ()))))"

text \<open>\<open>Transform.prototype._write\<close>.\<close>

definition transform_write_begin :: "val \<Rightarrow> val \<Rightarrow> val \<Rightarrow> stream \<Rightarrow> bool \<times> stream" where
  "transform_write_begin chunk enc cb ob = (let t = tstate ob in
     if \<not> nullish (t_writechunk t) then (False, ob\<lparr>tstate := t\<lparr>t_pending := t_pending t @ [(chunk, enc, cb)]\<rparr>\<rparr>)
     else (True, ob\<lparr>tstate := t\<lparr>t_writechunk := chunk, t_writeencoding := enc, t_writecb := cb\<rparr>\<rparr>))"

definition transformWrite :: "rt \<Rightarrow> nat \<Rightarrow> val \<Rightarrow> val \<Rightarrow> val \<Rightarrow> unit code" where
  "transformWrite R s chunk enc cb =
     js_bind (step_obj s (transform_write_begin chunk enc cb)) (\<lambda>go. js_when go (doTransform R s))"

text \<open>The callback \<open>done\<close> of the transform number \<open>k\<close>; it returns the callback of the write.\<close>

definition transform_done_begin :: "nat \<Rightarrow> stream \<Rightarrow> val option \<times> stream" where
  "transform_done_begin k ob =
     (if tframe ob \<noteq> Some k then (None, ob)
      else (Some (t_writecb (tstate ob)),
            ob\<lparr>tframe := None, tstate := (tstate ob)\<lparr>t_transforming := False, t_writechunk := VNull,
               t_writeencoding := VNull, t_writecb := VNull\<rparr>\<rparr>))"

definition transformDone :: "rt \<Rightarrow> nat \<Rightarrow> nat \<Rightarrow> val \<Rightarrow> val \<Rightarrow> unit code" where
  "transformDone R s k err data =
     js_bind (step_obj s (transform_done_begin k)) (\<lambda>fin.
       case fin of
         None \<Rightarrow> js_ret ()
       | Some cb \<Rightarrow>
           js_bind (if \<not> nullish data \<and> data \<noteq> VStr []
               then js_catch (js_seq (push R s data VUndef) (js_ret err))
                      (\<lambda>pushError. js_ret (if truthy err then err else pushError))
               else js_ret err) (\<lambda>error.
             if truthy error then
               js_seq (js_when (truthy cb) (js_seq (call_val R cb [error]) (js_ret ()))) (destroy R s error)
             else js_when (truthy cb) (js_seq (call_val R cb []) (js_ret ()))))"

text \<open>\<open>Transform.prototype._final\<close> and the callback it gives to \<open>_flush\<close>.\<close>

definition transformFinal :: "rt \<Rightarrow> nat \<Rightarrow> val \<Rightarrow> unit code" where
  "transformFinal R s cb =
     js_bind (get_obj s (\<lambda>ob. h_flush (hooks ob))) (\<lambda>hook.
       js_seq (rt_call R hook (VStream s) [VFun (FlushDone s cb)]) (js_ret ()))"

definition flushDone :: "rt \<Rightarrow> nat \<Rightarrow> val \<Rightarrow> val \<Rightarrow> unit code" where
  "flushDone R s cb err =
     (if truthy err then js_seq (call_val R cb [err]) (js_ret ())
      else js_seq (push R s VNull VUndef) (js_seq (call_val R cb []) (js_ret ())))"

end
