(* ===== verification/Pipe.thy ===== *)
theory Pipe
  imports Transform
begin

text \<open>
  \<open>pipe\<close>, \<open>unpipe\<close> and the handlers of a pipe (\<open>Stream\<close> in \<open>src/pkg/jsruntime/stream/stream.js\<close>).
  A pipe is its identity, its destination and the option \<open>end\<close>; its six handlers are the closures
  \<open>PipeH\<close> with that identity.
\<close>

definition unpipeOne :: "rt \<Rightarrow> nat \<Rightarrow> pipe \<Rightarrow> unit code" where
  "unpipeOne R src p = (case p of (pid, dest, end) \<Rightarrow>
     js_bind (get_obj src has_r) (\<lambda>r.
       if \<not> r then js_ret ()
       else
         js_seq (stream_removeListener src EvData (VFun (PipeH OnData src pid dest end)))
         (js_seq (stream_removeListener src EvEnd (VFun (PipeH OnEnd src pid dest end)))
         (js_seq (stream_removeListener src EvError (VFun (PipeH OnError src pid dest end)))
         (js_seq (stream_removeListener dest EvDrain (VFun (PipeH OnDrain src pid dest end)))
         (js_seq (stream_removeListener dest EvError (VFun (PipeH OnDestError src pid dest end)))
         (js_seq (stream_removeListener dest EvClose (VFun (PipeH OnDestClose src pid dest end)))
         (js_seq (mod_r src (\<lambda>r. r\<lparr>r_pipes := filter (\<lambda>q. fst q \<noteq> pid) (r_pipes r)\<rparr>))
         (js_seq (emit R dest EvUnpipe [VStream src]) (js_ret ()))))))))))"

text \<open>The loop of \<open>unpipe(dest)\<close> reads the live array from the end; the index is \<open>i - 1\<close>.\<close>

definition unpipe_loop :: "rt \<Rightarrow> nat \<Rightarrow> nat \<Rightarrow> nat \<Rightarrow> unit code" where
  "unpipe_loop R src i dest =
     (if i = 0 then js_ret ()
      else
        js_bind (get_obj src (\<lambda>ob. r_pipes (rstate ob))) (\<lambda>ps.
          if length ps < i then js_throw (VErr TypeError ''cannot read property'')
          else
            js_seq (let p = ps ! (i - 1) in js_when (fst (snd p) = dest) (unpipeOne R src p))
            (js_seq (rt_call R (UnpipeLoop src (i - 1) dest) VUndef []) (js_ret ()))))"

definition unpipe :: "rt \<Rightarrow> nat \<Rightarrow> nat option \<Rightarrow> unit code" where
  "unpipe R src dest =
     js_bind (get_obj src (\<lambda>ob. (has_r ob, r_pipes (rstate ob)))) (\<lambda>(r, ps).
       if \<not> r then js_ret ()
       else case dest of
         None \<Rightarrow> js_for ps (unpipeOne R src)
       | Some d \<Rightarrow> unpipe_loop R src (length ps) d)"

definition pipe_to :: "rt \<Rightarrow> nat \<Rightarrow> val \<Rightarrow> bool \<Rightarrow> val code" where
  "pipe_to R src dest end =
     js_bind (get_obj src has_r) (\<lambda>r.
       if \<not> r then js_throw (VErr TypeError ''pipe() is only valid on readable streams'')
       else case dest of
         VStream d \<Rightarrow>
           js_bind (get_obj d has_w) (\<lambda>ok.
             if \<not> ok then js_throw (VErr TypeError ''pipe() destination must be a writable stream'')
             else
               js_bind fresh_id (\<lambda>pid.
               js_seq (stream_on src EvData (VFun (PipeH OnData src pid d end)))
               (js_seq (stream_on src EvEnd (VFun (PipeH OnEnd src pid d end)))
               (js_seq (stream_on src EvError (VFun (PipeH OnError src pid d end)))
               (js_seq (stream_on d EvDrain (VFun (PipeH OnDrain src pid d end)))
               (js_seq (stream_on d EvError (VFun (PipeH OnDestError src pid d end)))
               (js_seq (stream_on d EvClose (VFun (PipeH OnDestClose src pid d end)))
               (js_seq (mod_r src (\<lambda>r. r\<lparr>r_pipes := r_pipes r @ [(pid, d, end)]\<rparr>))
               (js_seq (emit R d EvPipe [VStream src])
               (js_seq (resume src) (js_ret dest)))))))))))
       | _ \<Rightarrow> js_throw (VErr TypeError ''pipe() destination must be a writable stream''))"

text \<open>The handlers.\<close>

definition pipe_ondata :: "rt \<Rightarrow> nat \<Rightarrow> nat \<Rightarrow> val \<Rightarrow> unit code" where
  "pipe_ondata R src dest chunk =
     js_bind (get_obj dest is_destroyed) (\<lambda>d.
       if d then unpipe R src (Some dest)
       else js_bind (write_stream R dest chunk VUndef VUndef) (\<lambda>ok. js_when (\<not> ok) (pause src)))"

definition pipe_onend :: "rt \<Rightarrow> nat \<Rightarrow> bool \<Rightarrow> unit code" where
  "pipe_onend R dest end =
     js_bind (get_obj dest (\<lambda>ob. end \<and> \<not> is_destroyed ob \<and> has_w ob \<and> w_writable (wstate ob))) (\<lambda>go.
       js_when go (end_writing R dest VUndef VUndef VUndef))"

definition pipe_ondrain :: "nat \<Rightarrow> unit code" where
  "pipe_ondrain src =
     js_bind (get_obj src (\<lambda>ob. isPaused ob \<and> \<not> r_ended (rstate ob) \<and> \<not> r_destroyed (rstate ob))) (\<lambda>go.
       js_when go (resume src))"

definition pipe_handle :: "rt \<Rightarrow> pipe_handler \<Rightarrow> nat \<Rightarrow> nat \<Rightarrow> bool \<Rightarrow> val list \<Rightarrow> unit code" where
  "pipe_handle R h src dest end args = (case h of
       OnData \<Rightarrow> pipe_ondata R src dest (arg 0 args)
     | OnEnd \<Rightarrow> pipe_onend R dest end
     | OnError \<Rightarrow> unpipe R src (Some dest)
     | OnDrain \<Rightarrow> pipe_ondrain src
     | OnDestError \<Rightarrow> unpipe R src (Some dest)
     | OnDestClose \<Rightarrow> unpipe R src (Some dest))"

end
