(* ===== verification/Stream_Run.thy ===== *)
theory Stream_Run
  imports Pipe
begin

text \<open>
  Programs that use the streams, and how they run.

  A program is a tree: it calls an operation of the module and goes on with what the call returned or
  threw. It may store values in variables, call any function value and schedule tasks, so callbacks
  can keep state and can re-enter the module at any point. \<open>dispatch\<close> says what each function does;
  \<open>call_fuel\<close> runs a function with a bound on the depth of nested calls, and \<open>Stuck\<close> is the outcome
  when the bound is too small. An execution is a sequence of program parts (the event loop entering
  the program) and ticks (the queue of \<open>process.nextTick\<close>).
\<close>

section \<open>Programs\<close>

datatype api =
    NewReadable options | NewWritable options | NewDuplex options | NewTransform options | NewPassThrough options
  | Push nat val val | Unshift nat val val | Read nat val | SetEncoding nat val | Pause nat | Resume nat
  | Write nat val val val | End nat val val val | Cork nat | Uncork nat | SetDefaultEncoding nat val
  | Destroy nat val | PipeTo nat val bool | Unpipe nat "nat option"
  | On nat evname val | Once nat evname val | RemoveListener nat evname val | Emit nat evname "val list"
  | Call closure val "val list" | NextTick closure | GetVar nat | SetVar nat val
  | Query nat "stream \<Rightarrow> val" \<comment> \<open>a getter of a stream\<close>

datatype program = Finish val | Raise val | Do api "val \<Rightarrow> program" "val \<Rightarrow> program"

definition js_val :: "'a code \<Rightarrow> ('a \<Rightarrow> val) \<Rightarrow> val code" where
  "js_val m f = js_bind m (\<lambda>x. js_ret (f x))"

abbreviation js_void :: "'a code \<Rightarrow> val code" where
  "js_void m \<equiv> js_val m (\<lambda>_. VUndef)"

text \<open>A method that only one of the classes has: calling it on an object of another throws.\<close>

definition method_of :: "(stream \<Rightarrow> bool) \<Rightarrow> nat \<Rightarrow> 'a code \<Rightarrow> 'a code" where
  "method_of has s m = js_bind (get_obj s has) (\<lambda>ok. if ok then m else js_throw (VErr TypeError ''not a function''))"

fun run_api :: "rt \<Rightarrow> api \<Rightarrow> val code" where
  "run_api R (NewReadable opts) = js_val (alloc (new_Readable opts)) VStream"
| "run_api R (NewWritable opts) = js_val (alloc (new_Writable opts)) VStream"
| "run_api R (NewDuplex opts) = js_val (new_Duplex opts) VStream"
| "run_api R (NewTransform opts) = js_val (new_Transform opts) VStream"
| "run_api R (NewPassThrough opts) = js_val (new_PassThrough opts) VStream"
| "run_api R (Push s c e) = method_of has_r s (js_val (push R s c e) VBool)"
| "run_api R (Unshift s c e) = method_of has_r s (js_void (unshift R s c e))"
| "run_api R (Read s n) = method_of has_r s (read R s n)"
| "run_api R (SetEncoding s e) = method_of has_r s (js_void (setEncoding s e))"
| "run_api R (Pause s) = js_void (pause s)"
| "run_api R (Resume s) = js_void (resume s)"
| "run_api R (Write s c e cb) = method_of has_w s (js_val (write_stream R s c e cb) VBool)"
| "run_api R (End s c e cb) = method_of has_w s (js_void (end_writing R s c e cb))"
| "run_api R (Cork s) = method_of has_w s (js_void (cork s))"
| "run_api R (Uncork s) = method_of has_w s (js_void (uncork R s))"
| "run_api R (SetDefaultEncoding s e) = method_of has_w s (js_void (setDefaultEncoding s e))"
| "run_api R (Destroy s e) = js_void (destroy R s e)"
| "run_api R (PipeTo s d e) = pipe_to R s d e"
| "run_api R (Unpipe s d) = js_void (unpipe R s d)"
| "run_api R (On s n l) = js_void (stream_on s n l)"
| "run_api R (Once s n l) = js_void (stream_once s n l)"
| "run_api R (RemoveListener s n l) = js_void (stream_removeListener s n l)"
| "run_api R (Emit s n args) = js_val (emit R s n args) VBool"
| "run_api R (Call c t args) = rt_call R c t args"
| "run_api R (NextTick c) = js_void (schedule c)"
| "run_api R (GetVar i) = js_get (\<lambda>w. vars w i)"
| "run_api R (Query s f) = get_obj s f"
| "run_api R (SetVar i v) = js_void (js_mod (\<lambda>w. w\<lparr>vars := (vars w)(i := v)\<rparr>))"

primrec run_program :: "rt \<Rightarrow> program \<Rightarrow> val code" where
  "run_program R (Finish v) = js_ret v"
| "run_program R (Raise v) = js_throw v"
| "run_program R (Do a k h) = (\<lambda>w. case run_api R a w of
       (Return v, w') \<Rightarrow> run_program R (k v) w'
     | (Throw e, w') \<Rightarrow> run_program R (h e) w'
     | (Stuck, w') \<Rightarrow> (Stuck, w'))"

section \<open>Function calls\<close>

text \<open>The stream a method is called on.\<close>

definition on_this :: "val \<Rightarrow> (nat \<Rightarrow> 'a code) \<Rightarrow> 'a code" where
  "on_this t f = (case t of VStream s \<Rightarrow> f s | _ \<Rightarrow> js_throw (VErr TypeError ''not a stream''))"

fun dispatch :: "(nat \<Rightarrow> val list \<Rightarrow> program) \<Rightarrow> rt \<Rightarrow> closure \<Rightarrow> val \<Rightarrow> val list \<Rightarrow> val code" where
  "dispatch user R (User n) t args = run_program R (user n (t # args))"
| "dispatch user R (OnceW s n u l) t args = run_once_wrapper R s n u l args"
| "dispatch user R (PipeH h src pid dest e) t args = js_void (pipe_handle R h src dest e args)"
| "dispatch user R DefRead t args = js_ret VUndef"
| "dispatch user R DefWrite t args =
     call_val R (arg 2 args) [VErr Error ''Writable._write() is not implemented'']"
| "dispatch user R DefFinal t args = call_val R (arg 0 args) []"
| "dispatch user R DefDestroy t args = call_val R (arg 1 args) [arg 0 args]"
| "dispatch user R DefTransform t args =
     call_val R (arg 2 args) [VErr Error ''Transform._transform() is not implemented'']"
| "dispatch user R DefFlush t args = call_val R (arg 0 args) []"
| "dispatch user R TransformWrite t args =
     on_this t (\<lambda>s. js_void (transformWrite R s (arg 0 args) (arg 1 args) (arg 2 args)))"
| "dispatch user R TransformFinal t args = on_this t (\<lambda>s. js_void (transformFinal R s (arg 0 args)))"
| "dispatch user R PassTransform t args = call_val R (arg 2 args) [VNull, arg 0 args]"
| "dispatch user R (OnWrite s k) t args = js_void (onwrite R s k (arg 0 args))"
| "dispatch user R (DestroyDone s) t args = js_void (complete_destroy R s (arg 0 args))"
| "dispatch user R (FinalDone s k) t args = js_void (finalDone R s k (arg 0 args))"
| "dispatch user R (TransformDone s k) t args = js_void (transformDone R s k (arg 0 args) (arg 1 args))"
| "dispatch user R (FlushDone s cb) t args = js_void (flushDone R s cb (arg 0 args))"
| "dispatch user R (HalfOpenEnd s) t args = js_void (halfOpenEnd R s)"
| "dispatch user R (HalfOpenFinish s) t args = js_void (halfOpenFinish R s)"
| "dispatch user R (TickFlow s) t args = js_void (tick_flow R s)"
| "dispatch user R (TickReadable s) t args = js_void (tick_readable R s)"
| "dispatch user R (TickMaybeRead s) t args = js_void (maybeRead R s)"
| "dispatch user R (TickAutoDestroy s) t args = js_void (tick_autoDestroy R s)"
| "dispatch user R (TickRethrow e) t args = js_throw e"
| "dispatch user R (TickCallback cb e) t args = call_val R cb [e]"
| "dispatch user R (TickErrored cb s) t args = tick_errored R cb s"
| "dispatch user R (FlowLoop s) t args = js_void (flow R s)"
| "dispatch user R (FailLoop s i e) t args = js_void (fail_pending R s i e)"
| "dispatch user R (UnpipeLoop s i d) t args = js_void (unpipe_loop R s i d)"

text \<open>The code outside the module: the program's functions and the native coders of the runtime.\<close>

record outside =
  user :: "nat \<Rightarrow> val list \<Rightarrow> program"
  decode :: "string \<Rightarrow> string \<Rightarrow> bytes"
  encode :: "bytes \<Rightarrow> string \<Rightarrow> string"

definition make_rt :: "outside \<Rightarrow> (closure \<Rightarrow> val \<Rightarrow> val list \<Rightarrow> val code) \<Rightarrow> rt" where
  "make_rt U call = \<lparr>rt_call = call, rt_decode = decode U, rt_encode = encode U\<rparr>"

fun call_fuel :: "outside \<Rightarrow> nat \<Rightarrow> closure \<Rightarrow> val \<Rightarrow> val list \<Rightarrow> val code" where
  "call_fuel U 0 c t args = js_stuck"
| "call_fuel U (Suc n) c t args = dispatch (user U) (make_rt U (call_fuel U n)) c t args"

definition rt_fuel :: "outside \<Rightarrow> nat \<Rightarrow> rt" where
  "rt_fuel U n = make_rt U (call_fuel U n)"

section \<open>Executions\<close>

definition start_world :: world where
  "start_world = \<lparr>heap = (\<lambda>_. bare_stream), next_stream = 0, next_id = 0, ticks = [],
     vars = (\<lambda>_. VUndef), uncaught = []\<rparr>"

text \<open>A task at the head of the queue runs; what it throws is reported to the host.\<close>

definition report :: "('a code) \<Rightarrow> world \<Rightarrow> world" where
  "report m w = (case m w of
       (Throw e, w') \<Rightarrow> w'\<lparr>uncaught := uncaught w' @ [e]\<rparr>
     | (_, w') \<Rightarrow> w')"

definition run_tick :: "outside \<Rightarrow> nat \<Rightarrow> world \<Rightarrow> world" where
  "run_tick U n w = (case ticks w of
       [] \<Rightarrow> w
     | c # rest \<Rightarrow> report (call_fuel U n c VUndef []) (w\<lparr>ticks := rest\<rparr>))"

inductive step :: "outside \<Rightarrow> world \<Rightarrow> world \<Rightarrow> bool" for U where
  enter: "step U w (report (run_program (rt_fuel U n) p) w)"
| tick: "step U w (run_tick U n w)"

inductive reachable :: "outside \<Rightarrow> world \<Rightarrow> bool" for U where
  start: "reachable U start_world"
| next_step: "reachable U w \<Longrightarrow> step U w w' \<Longrightarrow> reachable U w'"

inductive_cases stepE: "step U w w'"

text \<open>The same, to evaluate a scenario: a program is entered and then the queue is emptied, at most
  \<open>k\<close> tasks.\<close>

fun run_ticks :: "outside \<Rightarrow> nat \<Rightarrow> nat \<Rightarrow> world \<Rightarrow> world" where
  "run_ticks U n 0 w = w"
| "run_ticks U n (Suc k) w = (if ticks w = [] then w else run_ticks U n k (run_tick U n w))"

definition run_main :: "outside \<Rightarrow> nat \<Rightarrow> nat \<Rightarrow> program \<Rightarrow> world \<Rightarrow> world" where
  "run_main U n k p w = run_ticks U n k (report (run_program (rt_fuel U n) p) w)"

end
