(* ===== verification/Stream_Laws.thy ===== *)
theory Stream_Laws
  imports Stream_Run
begin

text \<open>
  Invariants of stream objects. A property of single objects that every straight-line step keeps is
  kept by every operation, whatever the callbacks do, and so holds in every reachable world.

  The locale \<open>stream_laws\<close> is the interface: its laws are about pure functions on one object, with
  what the calling code has checked as premises. The locale \<open>stream_client\<close> proves the operations
  correct for any such property, given that calls of functions are; the theorem
  \<open>reachable_invariant\<close> closes the circle by induction on the depth of the calls.
\<close>

section \<open>The laws\<close>

text \<open>The objects agree on everything but listeners, hooks, flow flags and errors.\<close>

definition same_core :: "stream \<Rightarrow> stream \<Rightarrow> bool" where
  "same_core a b \<longleftrightarrow>
     has_r a = has_r b \<and> has_w a = has_w b \<and>
     r_objectMode (rstate a) = r_objectMode (rstate b) \<and> r_buffer (rstate a) = r_buffer (rstate b) \<and>
     r_length (rstate a) = r_length (rstate b) \<and> r_ended (rstate a) = r_ended (rstate b) \<and>
     r_endEmitted (rstate a) = r_endEmitted (rstate b) \<and> r_destroyed (rstate a) = r_destroyed (rstate b) \<and>
     w_objectMode (wstate a) = w_objectMode (wstate b) \<and> w_pending (wstate a) = w_pending (wstate b) \<and>
     w_corkedBuffer (wstate a) = w_corkedBuffer (wstate b) \<and> w_length (wstate a) = w_length (wstate b) \<and>
     w_writing (wstate a) = w_writing (wstate b) \<and> w_ended (wstate a) = w_ended (wstate b) \<and>
     w_ending (wstate a) = w_ending (wstate b) \<and> w_finished (wstate a) = w_finished (wstate b) \<and>
     w_corked (wstate a) = w_corked (wstate b) \<and> w_destroyed (wstate a) = w_destroyed (wstate b) \<and>
     wframe a = wframe b \<and> wcount a = wcount b \<and> dcalled a = dcalled b \<and>
     fcount a = fcount b \<and> fcalled a = fcalled b \<and> history a = history b"

text \<open>Nothing is left to read: what the callers of \<open>_emitEnd\<close> check.\<close>

definition drained :: "rstate \<Rightarrow> bool" where
  "drained r \<longleftrightarrow> r_buffer r = [] \<or> r_length r = Fin 0"

text \<open>What \<open>read\<close> has checked of its argument.\<close>

definition positive_size :: "int option \<Rightarrow> bool" where
  "positive_size n = (case n of None \<Rightarrow> True | Some k \<Rightarrow> 0 < k)"

locale stream_laws =
  fixes SI :: "nat \<Rightarrow> stream \<Rightarrow> bool"
  assumes frame: "SI t ob \<Longrightarrow> same_core ob ob' \<Longrightarrow> SI t ob'"
    and new_readable: "SI t ob \<Longrightarrow> \<not> has_r ob \<Longrightarrow> \<not> has_w ob \<Longrightarrow> SI t (new_Readable opts)"
    and new_writable: "SI t ob \<Longrightarrow> \<not> has_r ob \<Longrightarrow> \<not> has_w ob \<Longrightarrow> SI t (new_Writable opts)"
    and new_duplex: "SI t ob \<Longrightarrow> \<not> has_r ob \<Longrightarrow> \<not> has_w ob \<Longrightarrow> SI t (new_duplex_object opts)"
    and begin_destroy: "SI t ob \<Longrightarrow> SI t (snd (destroy_begin e ob))"
    and clear_destroy: "SI t ob \<Longrightarrow> has_w ob \<Longrightarrow> w_destroyed (wstate ob) \<Longrightarrow> SI t (destroy_clear ob)"
    and begin_complete: "SI t ob \<Longrightarrow> SI t (snd (complete_begin e ob))"
    and begin_emitEnd: "SI t ob \<Longrightarrow> r_ended (rstate ob) \<Longrightarrow> drained (rstate ob) \<Longrightarrow> SI t (snd (emitEnd_begin ob))"
    and end_push: "SI t ob \<Longrightarrow> SI t (ob\<lparr>rstate := push_end (rstate ob)\<rparr>)"
    and chunk_push: "SI t ob \<Longrightarrow> \<not> r_destroyed (rstate ob) \<Longrightarrow> SI t (push_chunk c ob)"
    and chunk_unshift: "SI t ob \<Longrightarrow> SI t (unshift_chunk c ob)"
    and take_read: "SI t ob \<Longrightarrow> positive_size n \<Longrightarrow> SI t (snd (read_take n ob))"
    and shift_flow: "SI t ob \<Longrightarrow> SI t (snd (flow_shift ob))"
    and begin_finish: "SI t ob \<Longrightarrow> may_finish (wstate ob) \<or> 0 < fcount ob \<Longrightarrow> SI t (snd (finish_begin ob))"
    and begin_final: "SI t ob \<Longrightarrow> may_finish (wstate ob) \<Longrightarrow> SI t (snd (final_begin ob))"
    and called_final: "SI t ob \<Longrightarrow> SI t (snd (final_called k ob))"
    and begin_doWrite: "SI t ob \<Longrightarrow> SI t (snd (doWrite_begin ob))"
    and begin_onwrite: "SI t ob \<Longrightarrow> SI t (snd (onwrite_begin k ob))"
    and item_accept: "SI t ob \<Longrightarrow> \<not> w_destroyed (wstate ob) \<Longrightarrow> \<not> w_ended (wstate ob) \<Longrightarrow> SI t (snd (accept_item i ob))"
    and ended_set: "SI t ob \<Longrightarrow> \<not> w_ended (wstate ob) \<Longrightarrow> SI t (set_ended ob)"
    and cork_inc: "SI t ob \<Longrightarrow> SI t (ob\<lparr>wstate := (wstate ob)\<lparr>w_corked := w_corked (wstate ob) + 1\<rparr>\<rparr>)"
    and begin_uncork: "SI t ob \<Longrightarrow> SI t (snd (uncork_begin ob))"

text \<open>The invariant of a world: every object has the property, and the objects not yet allocated
  have no state.\<close>

definition wi :: "(nat \<Rightarrow> stream \<Rightarrow> bool) \<Rightarrow> world \<Rightarrow> bool" where
  "wi SI w \<longleftrightarrow> (\<forall>t. SI t (heap w t)) \<and> (\<forall>t \<ge> next_stream w. \<not> has_r (heap w t) \<and> \<not> has_w (heap w t))"

definition calls_respect :: "rt \<Rightarrow> bool" where
  "calls_respect R \<longleftrightarrow> (\<forall>SI. stream_laws SI \<longrightarrow> (\<forall>c t a. preserves (wi SI) (rt_call R c t a)))"

text \<open>A write-side object that is destroyed stays so: the property can be added to any other.\<close>

definition also_destroyed :: "(nat \<Rightarrow> stream \<Rightarrow> bool) \<Rightarrow> nat \<Rightarrow> nat \<Rightarrow> stream \<Rightarrow> bool" where
  "also_destroyed SI s t ob \<longleftrightarrow> SI t ob \<and> (t = s \<longrightarrow> has_w ob \<and> w_destroyed (wstate ob))"

lemmas step_defs = destroy_begin_def destroy_r_def destroy_w_def destroy_clear_def complete_begin_def
  set_errored_def emitEnd_begin_def push_end_def push_chunk_def unshift_chunk_def flow_shift_def
  finish_begin_def final_begin_def final_called_def doWrite_begin_def onwrite_begin_def accept_item_def
  set_ended_def uncork_begin_def

text \<open>No step changes which sides an object has, and none revives a destroyed one.\<close>

lemma read_take_others [simp]:
  "has_w (snd (read_take n ob)) = has_w ob" "has_r (snd (read_take n ob)) = has_r ob"
  "wstate (snd (read_take n ob)) = wstate ob"
  by (auto simp: read_take_def read_bytes_def Let_def split: option.splits list.splits prod.splits)

lemma step_has_w [simp]:
  "has_w (snd (destroy_begin e ob)) = has_w ob"
  "has_w (destroy_clear ob) = has_w ob"
  "has_w (snd (complete_begin e ob)) = has_w ob"
  "has_w (snd (emitEnd_begin ob)) = has_w ob"
  "has_w (push_chunk c ob) = has_w ob"
  "has_w (unshift_chunk c ob) = has_w ob"
  "has_w (snd (flow_shift ob)) = has_w ob"
  "has_w (snd (finish_begin ob)) = has_w ob"
  "has_w (snd (final_begin ob)) = has_w ob"
  "has_w (snd (final_called k ob)) = has_w ob"
  "has_w (snd (doWrite_begin ob)) = has_w ob"
  "has_w (snd (onwrite_begin k ob)) = has_w ob"
  "has_w (snd (accept_item i ob)) = has_w ob"
  "has_w (set_ended ob) = has_w ob"
  "has_w (snd (uncork_begin ob)) = has_w ob"
  by (auto simp: step_defs Let_def split: list.splits option.splits prod.splits)

lemma step_has_r [simp]:
  "has_r (snd (destroy_begin e ob)) = has_r ob"
  "has_r (destroy_clear ob) = has_r ob"
  "has_r (snd (complete_begin e ob)) = has_r ob"
  "has_r (snd (emitEnd_begin ob)) = has_r ob"
  "has_r (push_chunk c ob) = has_r ob"
  "has_r (unshift_chunk c ob) = has_r ob"
  "has_r (snd (flow_shift ob)) = has_r ob"
  "has_r (snd (finish_begin ob)) = has_r ob"
  "has_r (snd (final_begin ob)) = has_r ob"
  "has_r (snd (final_called k ob)) = has_r ob"
  "has_r (snd (doWrite_begin ob)) = has_r ob"
  "has_r (snd (onwrite_begin k ob)) = has_r ob"
  "has_r (snd (accept_item i ob)) = has_r ob"
  "has_r (set_ended ob) = has_r ob"
  "has_r (snd (uncork_begin ob)) = has_r ob"
  by (auto simp: step_defs Let_def split: list.splits option.splits prod.splits)

lemma step_stays_destroyed:
  "w_destroyed (wstate ob) \<Longrightarrow> w_destroyed (wstate (snd (destroy_begin e ob)))"
  "w_destroyed (wstate ob) \<Longrightarrow> w_destroyed (wstate (destroy_clear ob))"
  "w_destroyed (wstate ob) \<Longrightarrow> w_destroyed (wstate (snd (complete_begin e ob)))"
  "w_destroyed (wstate ob) \<Longrightarrow> w_destroyed (wstate (snd (emitEnd_begin ob)))"
  "w_destroyed (wstate ob) \<Longrightarrow> w_destroyed (wstate (push_chunk c ob))"
  "w_destroyed (wstate ob) \<Longrightarrow> w_destroyed (wstate (unshift_chunk c ob))"
  "w_destroyed (wstate ob) \<Longrightarrow> w_destroyed (wstate (snd (read_take n ob)))"
  "w_destroyed (wstate ob) \<Longrightarrow> w_destroyed (wstate (snd (flow_shift ob)))"
  "w_destroyed (wstate ob) \<Longrightarrow> w_destroyed (wstate (snd (finish_begin ob)))"
  "w_destroyed (wstate ob) \<Longrightarrow> w_destroyed (wstate (snd (final_begin ob)))"
  "w_destroyed (wstate ob) \<Longrightarrow> w_destroyed (wstate (snd (final_called k ob)))"
  "w_destroyed (wstate ob) \<Longrightarrow> w_destroyed (wstate (snd (doWrite_begin ob)))"
  "w_destroyed (wstate ob) \<Longrightarrow> w_destroyed (wstate (snd (onwrite_begin k ob)))"
  "w_destroyed (wstate ob) \<Longrightarrow> w_destroyed (wstate (snd (accept_item i ob)))"
  "w_destroyed (wstate ob) \<Longrightarrow> w_destroyed (wstate (set_ended ob))"
  "w_destroyed (wstate ob) \<Longrightarrow> w_destroyed (wstate (snd (uncork_begin ob)))"
  by (auto simp: step_defs Let_def split: list.splits option.splits prod.splits)

lemma same_core_sides: "same_core ob ob' \<Longrightarrow> has_r ob' = has_r ob \<and> has_w ob' = has_w ob"
  by (simp add: same_core_def)

lemma same_core_destroyed: "same_core ob ob' \<Longrightarrow> w_destroyed (wstate ob') = w_destroyed (wstate ob)"
  by (simp add: same_core_def)

context stream_laws
begin

lemma also_destroyed_laws: "stream_laws (also_destroyed SI s)"
proof
qed (auto simp: also_destroyed_def same_core_destroyed
    dest: same_core_sides
    intro: frame new_readable new_writable new_duplex begin_destroy clear_destroy begin_complete
     begin_emitEnd end_push chunk_push chunk_unshift take_read shift_flow begin_finish begin_final
     called_final begin_doWrite begin_onwrite item_accept ended_set cork_inc begin_uncork
     step_stays_destroyed)

end

section \<open>The operations keep the invariant\<close>

lemma wi_upd:
  "wi SI w \<Longrightarrow> SI s ob' \<Longrightarrow> has_r ob' = has_r (heap w s) \<Longrightarrow> has_w ob' = has_w (heap w s) \<Longrightarrow>
   wi SI (w\<lparr>heap := (heap w)(s := ob')\<rparr>)"
  by (auto simp: wi_def)

lemma preserves_get_obj [pres_intro]: "preserves (wi SI) (get_obj s f)"
  unfolding get_obj_def by (rule preserves_get)

lemma preserves_step_obj:
  "(\<And>ob. SI s ob \<Longrightarrow> SI s (snd (f ob))) \<Longrightarrow> (\<And>ob. has_r (snd (f ob)) = has_r ob) \<Longrightarrow>
   (\<And>ob. has_w (snd (f ob)) = has_w ob) \<Longrightarrow> preserves (wi SI) (step_obj s f)"
  unfolding step_obj_def by (rule preserves_step) (auto intro!: wi_upd simp: wi_def)

lemma preserves_mod_obj:
  "(\<And>ob. SI s ob \<Longrightarrow> SI s (f ob)) \<Longrightarrow> (\<And>ob. has_r (f ob) = has_r ob) \<Longrightarrow>
   (\<And>ob. has_w (f ob) = has_w ob) \<Longrightarrow> preserves (wi SI) (mod_obj s f)"
  unfolding mod_obj_def by (rule preserves_mod) (auto intro!: wi_upd simp: wi_def)

lemma preserves_schedule [pres_intro]: "preserves (wi SI) (schedule c)"
  unfolding schedule_def by (rule preserves_mod) (simp add: wi_def)

lemma preserves_fresh_id [pres_intro]: "preserves (wi SI) fresh_id"
  unfolding fresh_id_def by (rule preserves_step) (simp add: wi_def)

text \<open>Conversions of chunks change nothing.\<close>

lemma preserves_encoding [pres_intro]: "preserves I (encoding e)"
  by (simp add: encoding_def Let_def preserves_ret preserves_throw)

lemma preserves_toBuffer [pres_intro]: "preserves I (toBuffer R c e)"
  unfolding toBuffer_def by (cases c) (auto intro!: pres_intro)

lemma preserves_chunk_toString [pres_intro]: "preserves I (chunk_toString R c e)"
  unfolding chunk_toString_def by (cases c) (auto intro!: pres_intro)

lemma preserves_byte_chunk [pres_intro]: "preserves I (byte_chunk R c e b)"
  unfolding byte_chunk_def by (intro pres_intro)

lemma preserves_write_chunk [pres_intro]: "preserves I (write_chunk R c e b)"
  unfolding write_chunk_def by (intro pres_intro)

context stream_laws
begin

lemma frame_mod_obj:
  "(\<And>ob. same_core ob (f ob)) \<Longrightarrow> preserves (wi SI) (mod_obj s f)"
  by (rule preserves_mod_obj) (auto intro: frame dest: same_core_sides)

lemma frame_step_obj:
  "(\<And>ob. same_core ob (snd (f ob))) \<Longrightarrow> preserves (wi SI) (step_obj s f)"
  by (rule preserves_step_obj) (auto intro: frame dest: same_core_sides)

lemma frame_mod_r:
  "(\<And>ob. same_core ob (ob\<lparr>rstate := f (rstate ob)\<rparr>)) \<Longrightarrow> preserves (wi SI) (mod_r s f)"
  unfolding mod_r_def by (rule frame_mod_obj)

lemma frame_mod_w:
  "(\<And>ob. same_core ob (ob\<lparr>wstate := f (wstate ob)\<rparr>)) \<Longrightarrow> preserves (wi SI) (mod_w s f)"
  unfolding mod_w_def by (rule frame_mod_obj)

lemma pres_flags [pres_intro]:
  "preserves (wi SI) (mod_r s (\<lambda>r. r\<lparr>r_flowScheduled := b\<rparr>))"
  "preserves (wi SI) (mod_r s (\<lambda>r. r\<lparr>r_flowing := fl\<rparr>))"
  "preserves (wi SI) (mod_r s (\<lambda>r. r\<lparr>r_flowing := fl, r_disturbed := b\<rparr>))"
  "preserves (wi SI) (mod_r s (\<lambda>r. r\<lparr>r_reading := b\<rparr>))"
  "preserves (wi SI) (mod_r s (\<lambda>r. r\<lparr>r_disturbed := b\<rparr>))"
  "preserves (wi SI) (mod_r s (\<lambda>r. r\<lparr>r_needReadable := b\<rparr>))"
  "preserves (wi SI) (mod_r s (\<lambda>r. r\<lparr>r_emitReadableScheduled := b\<rparr>))"
  "preserves (wi SI) (mod_r s (\<lambda>r. r\<lparr>r_encoding := v\<rparr>))"
  "preserves (wi SI) (mod_r s (\<lambda>r. r\<lparr>r_pipes := g (r_pipes r)\<rparr>))"
  "preserves (wi SI) (mod_w s (\<lambda>st. st\<lparr>w_defaultEncoding := v\<rparr>))"
  by (rule frame_mod_r frame_mod_w, simp add: same_core_def)+

lemma pres_steps [pres_intro]:
  "preserves (wi SI) (step_obj s (destroy_begin e))"
  "preserves (wi SI) (step_obj s (complete_begin e))"
  "preserves (wi SI) (mod_obj s (unshift_chunk c))"
  "preserves (wi SI) (step_obj s flow_shift)"
  "preserves (wi SI) (step_obj s (final_called k))"
  "preserves (wi SI) (step_obj s doWrite_begin)"
  "preserves (wi SI) (step_obj s (onwrite_begin k))"
  "preserves (wi SI) (step_obj s uncork_begin)"
  by (rule preserves_step_obj preserves_mod_obj,
      auto intro: begin_destroy begin_complete chunk_unshift shift_flow
        called_final begin_doWrite begin_onwrite begin_uncork)+

lemma pres_frame_steps [pres_intro]:
  "preserves (wi SI) (step_obj s drain_begin)"
  "preserves (wi SI) (step_obj s write_result)"
  "preserves (wi SI) (step_obj s doTransform_begin)"
  "preserves (wi SI) (step_obj s (transform_write_begin c e cb))"
  "preserves (wi SI) (step_obj s (transform_done_begin k))"
  by (rule frame_step_obj, simp add: same_core_def drain_begin_def write_result_def doTransform_begin_def
      transform_write_begin_def transform_done_begin_def Let_def)+

lemma pres_push_end [pres_intro]: "preserves (wi SI) (mod_r s push_end)"
  unfolding mod_r_def by (rule preserves_mod_obj) (auto intro: end_push)

lemma pres_cork [pres_intro]: "preserves (wi SI) (cork s)"
  unfolding cork_def mod_w_def by (rule preserves_mod_obj) (auto intro: cork_inc)

lemma pres_base_on [pres_intro]: "preserves (wi SI) (base_on s n l)"
  unfolding base_on_def
  by (cases l) (auto intro!: preserves_throw frame_mod_obj simp: same_core_def)

lemma pres_base_remove [pres_intro]: "preserves (wi SI) (base_removeListener s n v)"
  unfolding base_removeListener_def by (rule frame_mod_obj) (simp add: same_core_def)

lemma pres_flow_control [pres_intro]:
  "preserves (wi SI) (scheduleFlow s)"
  "preserves (wi SI) (pause s)"
  "preserves (wi SI) (setEncoding s v)"
  "preserves (wi SI) (setDefaultEncoding s v)"
  "preserves (wi SI) (autoDestroy s)"
  unfolding scheduleFlow_def pause_def setEncoding_def setDefaultEncoding_def autoDestroy_def
  by (intro pres_intro)+

lemma pres_resume [pres_intro]: "preserves (wi SI) (resume s)"
  unfolding resume_def by (intro pres_intro)

lemma pres_listeners [pres_intro]:
  "preserves (wi SI) (listener_added s n)"
  "preserves (wi SI) (stream_removeListener s n v)"
  "preserves (wi SI) (emitReadable s)"
  unfolding listener_added_def stream_removeListener_def emitReadable_def by (intro pres_intro)+

lemma pres_on [pres_intro]: "preserves (wi SI) (stream_on s n l)"
  unfolding stream_on_def by (intro pres_intro)

lemma pres_once [pres_intro]: "preserves (wi SI) (stream_once s n l)"
  unfolding stream_once_def by (intro pres_intro)

lemma pres_alloc:
  assumes "\<And>t ob. SI t ob \<Longrightarrow> \<not> has_r ob \<Longrightarrow> \<not> has_w ob \<Longrightarrow> SI t ob'"
  shows "preserves (wi SI) (alloc ob')"
  unfolding alloc_def using assms by (intro preserves_step) (fastforce simp: wi_def)

lemma transform_same_core: "same_core (new_duplex_object opts) (new_transform_object opts tr)"
  by (simp add: same_core_def new_transform_object_def)

lemma pres_new [pres_intro]:
  "preserves (wi SI) (alloc (new_Readable opts))"
  "preserves (wi SI) (alloc (new_Writable opts))"
  "preserves (wi SI) (alloc (new_duplex_object opts))"
  "preserves (wi SI) (alloc (new_transform_object opts tr))"
  by (rule pres_alloc, blast intro: new_readable new_writable new_duplex frame [OF _ transform_same_core])+

lemma pres_new_code [pres_intro]:
  "preserves (wi SI) (new_Duplex opts)"
  "preserves (wi SI) (new_Transform opts)"
  "preserves (wi SI) (new_PassThrough opts)"
  unfolding new_Duplex_def new_Transform_def new_PassThrough_def close_half_def by (intro pres_intro)+

end

end
