(* ===== verification/Stream_Client.thy ===== *)
theory Stream_Client
  imports Stream_Laws
begin

text \<open>
  The operations that call functions keep every property with the laws of \<open>stream_laws\<close>, as long as
  the calls do; then the calls do, by induction on their depth, and the property holds in every
  reachable world.
\<close>

section \<open>Rules for code that has just checked something\<close>

lemma pres_at_bind_get_obj [simp]:
  "pres_at I (js_bind (get_obj s f) k) w = pres_at I (k (f (heap w s))) w"
  by (simp add: get_obj_def)

lemma preserves_bind_get_obj:
  "(\<And>w. pres_at I (k (f (heap w s))) w) \<Longrightarrow> preserves I (js_bind (get_obj s f) k)"
  unfolding get_obj_def by (rule preserves_bind_get)

lemma pres_at_bind_step_obj:
  assumes "wi SI w \<Longrightarrow> SI s (snd (f (heap w s)))"
    and "\<And>ob. has_r (snd (f ob)) = has_r ob" and "\<And>ob. has_w (snd (f ob)) = has_w ob"
    and "pres_at (wi SI) (k (fst (f (heap w s)))) (w\<lparr>heap := (heap w)(s := snd (f (heap w s)))\<rparr>)"
  shows "pres_at (wi SI) (js_bind (step_obj s f) k) w"
  unfolding step_obj_def
  by (rule pres_at_bind_step) (use assms in \<open>auto intro!: wi_upd simp: pres_at_def\<close>)

lemma pres_at_mod_obj:
  "SI s (f (heap w s)) \<Longrightarrow> has_r (f (heap w s)) = has_r (heap w s) \<Longrightarrow>
   has_w (f (heap w s)) = has_w (heap w s) \<Longrightarrow> pres_at (wi SI) (mod_obj s f) w"
  by (auto simp: pres_at_def mod_obj_def js_mod_def intro!: wi_upd)

text \<open>Code that first keeps a stronger invariant, and then uses it.\<close>

lemma seq_via:
  assumes "preserves I' m" and "I' w" and "\<And>w'. I' w' \<Longrightarrow> I w' \<and> I (snd (n w'))"
  shows "I (snd (js_seq m n w))"
proof -
  have "I' (snd (m w))" using assms(1,2) by (rule preservesD)
  with assms(3) show ?thesis
    by (cases "m w"; cases "fst (m w)") (auto simp: js_seq_def js_bind_def)
qed

lemma wiD: "wi SI w \<Longrightarrow> SI t (heap w t)"
  by (simp add: wi_def)

section \<open>The client of the laws\<close>

locale stream_client = stream_laws SI for SI +
  fixes R :: rt
  assumes calls: "calls_respect R"
begin

lemma pres_call [pres_intro]: "preserves (wi SI) (rt_call R c t a)"
  using calls stream_laws_axioms by (simp add: calls_respect_def)

lemma pres_call_val [pres_intro]: "preserves (wi SI) (call_val R f a)"
  unfolding call_val_def by (cases f) (auto intro: pres_call preserves_throw)

lemma pres_emit [pres_intro]: "preserves (wi SI) (emit R s n args)"
  unfolding emit_def emitter_emit_def by (intro pres_intro)

lemma pres_fail_item [pres_intro]: "preserves (wi SI) (fail_item R e i)"
  unfolding fail_item_def by (intro pres_intro)

lemma pres_fail_pending [pres_intro]: "preserves (wi SI) (fail_pending R s i e)"
  unfolding fail_pending_def by (intro pres_intro)

lemma pres_complete_destroy [pres_intro]: "preserves (wi SI) (complete_destroy R s e)"
  unfolding complete_destroy_def by (intro pres_intro)

text \<open>The callbacks that \<open>destroy\<close> calls before it clears the queues: they leave the object destroyed.\<close>

lemma pres_fail_both:
  "preserves (wi SI) (js_seq (fail_pending R s 0 e)
     (js_bind (get_obj s (\<lambda>ob. w_corkedBuffer (wstate ob))) (\<lambda>items. js_for items (fail_item R e))))"
  by (intro pres_intro)

end

context stream_client
begin

lemma clear_after_failing:
  assumes "has_w (heap w s)" and "w_destroyed (wstate (heap w s))"
  shows "pres_at (wi SI) (fail_writes R s e) w"
  unfolding pres_at_def fail_writes_def
proof (rule impI, rule seq_via [where I' = "wi (also_destroyed SI s)"])
  have "stream_client (also_destroyed SI s) R"
    by (intro stream_client.intro also_destroyed_laws) (simp add: stream_client_axioms_def calls)
  then show "preserves (wi (also_destroyed SI s)) (js_seq (fail_pending R s 0 e)
     (js_bind (get_obj s (\<lambda>ob. w_corkedBuffer (wstate ob))) (\<lambda>items. js_for items (fail_item R e))))"
    by (rule stream_client.pres_fail_both)
  show "wi (also_destroyed SI s) w" if "wi SI w"
    using that assms by (auto simp: wi_def also_destroyed_def)
  show "wi SI w' \<and> wi SI (snd (mod_obj s destroy_clear w'))" if "wi (also_destroyed SI s) w'" for w'
  proof -
    have w': "wi SI w'" and d: "has_w (heap w' s)" "w_destroyed (wstate (heap w' s))"
      using that by (auto simp: wi_def also_destroyed_def)
    then have "SI s (destroy_clear (heap w' s))" by (blast intro: clear_destroy dest: wiD)
    with w' show ?thesis by (auto simp: mod_obj_def js_mod_def intro!: wi_upd)
  qed
qed

lemma pres_call_destroy_hook [pres_intro]: "preserves (wi SI) (call_destroy_hook R s e)"
  unfolding call_destroy_hook_def by (intro pres_intro)

lemma destroy_begin_False:
  "\<not> fst (destroy_begin e ob) \<Longrightarrow> has_w ob \<Longrightarrow> w_destroyed (wstate (snd (destroy_begin e ob)))"
  by (auto simp: destroy_begin_def destroy_w_def split: if_splits)

lemma pres_destroy [pres_intro]: "preserves (wi SI) (destroy R s e)"
  unfolding destroy_def preserves_def
proof (intro allI pres_at_bind_step_obj)
  fix w :: world
  define w1 where "w1 = w\<lparr>heap := (heap w)(s := snd (destroy_begin e (heap w s)))\<rparr>"
  have "pres_at (wi SI) (js_when (has_w (heap w1 s)) (fail_writes R s e)) w1"
    if "\<not> fst (destroy_begin e (heap w s))"
    using destroy_begin_False [OF that]
    by (auto simp: js_when_def preserves_at preserves_ret w1_def intro!: clear_after_failing)
  then show "pres_at (wi SI) (if fst (destroy_begin e (heap w s)) then js_ret ()
      else js_seq (js_bind (get_obj s has_w) (\<lambda>b. js_when b (fail_writes R s e))) (call_destroy_hook R s e))
      (w\<lparr>heap := (heap w)(s := snd (destroy_begin e (heap w s)))\<rparr>)"
    unfolding w1_def [symmetric]
    by (auto simp: preserves_at preserves_ret intro!: pres_at_seq preserves_at [OF pres_call_destroy_hook])
qed (auto intro: begin_destroy dest: wiD)

lemma pres_tick_autoDestroy [pres_intro]: "preserves (wi SI) (tick_autoDestroy R s)"
  unfolding tick_autoDestroy_def by (intro pres_intro)

lemma pres_once_wrapper [pres_intro]: "preserves (wi SI) (run_once_wrapper R s n u l a)"
  unfolding run_once_wrapper_def by (intro pres_intro; cases l) (auto intro: pres_call preserves_throw)

subsection \<open>Readable\<close>

lemma emitEnd_at:
  "r_ended (rstate (heap w s)) \<Longrightarrow> drained (rstate (heap w s)) \<Longrightarrow> pres_at (wi SI) (emitEnd R s) w"
  unfolding emitEnd_def
  by (rule pres_at_bind_step_obj)
    (auto intro: begin_emitEnd dest: wiD intro!: preserves_at pres_intro)

lemma pres_maybeRead [pres_intro]: "preserves (wi SI) (maybeRead R s)"
  unfolding maybeRead_def by (intro pres_intro)

lemma pres_tick_readable [pres_intro]: "preserves (wi SI) (tick_readable R s)"
  unfolding tick_readable_def by (intro pres_intro)

lemma push_end_at:
  fixes w :: world and s :: nat
  defines "r \<equiv> rstate (heap w s)"
  shows "pres_at (wi SI) (js_seq (mod_r s push_end)
    (js_seq (js_when (\<not> r_endEmitted r \<and> r_length r = Fin 0) (emitEnd R s)) (js_ret x))) w"
proof (intro pres_at_seq)
  fix y w' assume "mod_r s push_end w = (Return y, w')"
  then have "r_ended (rstate (heap w' s))" "r_length (rstate (heap w' s)) = r_length r"
    by (auto simp: mod_r_def mod_obj_def js_mod_def push_end_def r_def)
  then show "pres_at (wi SI) (js_when (\<not> r_endEmitted r \<and> r_length r = Fin 0) (emitEnd R s)) w'"
    by (simp add: js_when_def emitEnd_at drained_def preserves_at preserves_ret)
qed (auto intro!: preserves_at pres_intro)

text \<open>The conversions of a chunk leave the world as it is.\<close>

lemma write_chunk_state: "write_chunk R c e b w = (r, w') \<Longrightarrow> w' = w"
  using preservesD [OF preserves_write_chunk [where I = "\<lambda>v. v = w"], of w R c e b] by simp

lemma byte_chunk_state: "byte_chunk R c e b w = (r, w') \<Longrightarrow> w' = w"
  using preservesD [OF preserves_byte_chunk [where I = "\<lambda>v. v = w"], of w R c e b] by simp

lemma push_chunk_at:
  assumes "\<not> r_destroyed (rstate (heap w s))" and "preserves (wi SI) n"
  shows "pres_at (wi SI) (js_seq (mod_obj s (push_chunk c)) n) w"
proof (rule pres_at_seq)
  show "pres_at (wi SI) (mod_obj s (push_chunk c)) w"
    using assms(1) by (auto simp: pres_at_def mod_obj_def js_mod_def intro!: wi_upd chunk_push dest: wiD)
qed (rule preserves_at, rule assms(2))

lemma bind_byte_chunk_at:
  "(\<And>x. pres_at (wi SI) (k x) w) \<Longrightarrow> pres_at (wi SI) (js_bind (byte_chunk R c e b) k) w"
  by (rule pres_at_bind) (auto dest: byte_chunk_state intro: preserves_at [OF preserves_byte_chunk])

lemma pres_push [pres_intro]: "preserves (wi SI) (push R s c e)"
  unfolding push_def
  by (rule preserves_bind_get_obj, intro pres_at_if push_end_at bind_byte_chunk_at push_chunk_at)
    (assumption | rule preserves_at | rule pres_intro)+

lemma pres_unshift [pres_intro]: "preserves (wi SI) (unshift R s c e)"
  unfolding unshift_def by (intro pres_intro)

text \<open>The end of \<open>read\<close>, and its branch for an empty buffer.\<close>

lemma emitEnd_if_ended:
  "preserves (wi SI) (js_bind (get_obj s rstate) (\<lambda>r.
     js_seq (js_when (r_ended r \<and> r_buffer r = [] \<and> p r) (emitEnd R s)) (js_ret x)))"
  by (rule preserves_bind_get_obj)
    (auto simp: js_when_def preserves_at preserves_ret drained_def intro!: pres_at_seq emitEnd_at)

lemma read_nothing_at:
  assumes "r_buffer (rstate (heap w s)) = []"
  shows "pres_at (wi SI) (read_nothing R s (r_ended (rstate (heap w s)))) w"
  unfolding read_nothing_def
proof (rule pres_at_if)
  assume "r_ended (rstate (heap w s))"
  then have "pres_at (wi SI) (emitEnd R s) w" using assms by (simp add: emitEnd_at drained_def)
  then show "pres_at (wi SI) (js_seq (emitEnd R s) (js_ret VNull)) w"
    by (rule pres_at_seq) (rule preserves_at, rule preserves_ret)
qed (rule preserves_at, intro pres_intro)

lemma pres_read_take:
  "positive_size n \<Longrightarrow> preserves (wi SI) (step_obj s (read_take n))"
  by (rule preserves_step_obj) (auto intro: take_read)

lemma pres_read_chunk: "positive_size (size_arg n) \<Longrightarrow> preserves (wi SI) (read_chunk R s n)"
  unfolding read_chunk_def
  by (intro pres_read_take pres_intro emitEnd_if_ended) (auto split: sum.split intro!: pres_intro)

lemma pres_read_buffer: "positive_size (size_arg n) \<Longrightarrow> preserves (wi SI) (read_buffer R s n)"
  unfolding read_buffer_def
  by (rule preserves_bind_get_obj) (auto intro: read_nothing_at preserves_at [OF pres_read_chunk])

lemma size_arg_positive: "\<not> read_size_bad n \<Longrightarrow> n \<noteq> VNum (Fin 0) \<Longrightarrow> positive_size (size_arg n)"
  by (cases n) (auto simp: read_size_bad_def nullish_def positive_size_def size_arg_def split: jsnum.splits)

lemma pres_read [pres_intro]: "preserves (wi SI) (read R s n)"
  unfolding read_def by (intro pres_intro pres_read_buffer size_arg_positive)

lemma pres_flow [pres_intro]: "preserves (wi SI) (flow R s)"
  unfolding flow_def
proof (rule preserves_bind_get_obj, intro pres_at_if)
  show "pres_at (wi SI) (emitEnd R s) w"
    if "r_ended (rstate (heap w s))" and "\<not> r_buffer (rstate (heap w s)) \<noteq> []" for w
    using that by (simp add: emitEnd_at drained_def)
qed (rule preserves_at, intro pres_intro)+

lemma pres_tick_flow [pres_intro]: "preserves (wi SI) (tick_flow R s)"
  unfolding tick_flow_def by (intro pres_intro)

subsection \<open>Writable\<close>

lemma complete_finish_at:
  "may_finish (wstate (heap w s)) \<or> 0 < fcount (heap w s) \<Longrightarrow> pres_at (wi SI) (complete_finish R s) w"
  unfolding complete_finish_def
  by (rule pres_at_bind_step_obj)
    (auto intro: begin_finish dest: wiD intro!: preserves_at pres_intro)

lemma final_call_at:
  assumes "may_finish (wstate (heap w s))"
  shows "pres_at (wi SI) (js_bind (step_obj s final_begin) (\<lambda>k.
           js_catch (js_seq (rt_call R hook (VStream s) [VFun (FinalDone s k)]) (js_ret ()))
             (\<lambda>e. destroy R s e))) w"
  using assms
  by (intro pres_at_bind_step_obj)
    (auto intro: begin_final dest: wiD intro!: preserves_at pres_intro)

lemma pres_maybeFinish [pres_intro]: "preserves (wi SI) (maybeFinish R s)"
  unfolding maybeFinish_def
  by (rule preserves_bind_get_obj)
    (auto intro: final_call_at complete_finish_at preserves_at [OF preserves_ret])

lemma pres_finalDone [pres_intro]: "preserves (wi SI) (finalDone R s k e)"
  unfolding finalDone_def preserves_def
proof (intro allI pres_at_bind_step_obj pres_at_if)
  fix w :: world
  assume "\<not> \<not> fst (final_called k (heap w s))"
  then have "0 < fcount (snd (final_called k (heap w s)))"
    by (auto simp: final_called_def split: if_splits)
  then show "pres_at (wi SI) (complete_finish R s) (w\<lparr>heap := (heap w)(s := snd (final_called k (heap w s)))\<rparr>)"
    by (intro complete_finish_at) simp
qed (auto intro: called_final preserves_at [OF preserves_ret] preserves_at [OF pres_destroy] dest: wiD)

lemma pres_doWrite [pres_intro]: "preserves (wi SI) (doWrite R s)"
  unfolding doWrite_def by (intro pres_intro)

lemma pres_onwrite [pres_intro]: "preserves (wi SI) (onwrite R s k e)"
  unfolding onwrite_def by (intro pres_intro)

lemma queue_item_at:
  assumes "\<not> w_destroyed (wstate (heap w s))" and "\<not> w_ended (wstate (heap w s))"
  shows "pres_at (wi SI) (queue_item R s i) w"
  unfolding queue_item_def using assms
  by (intro pres_at_bind_step_obj) (auto intro: item_accept dest: wiD intro!: preserves_at pres_intro)

lemma pres_write [pres_intro]: "preserves (wi SI) (write_stream R s c e cb)"
  unfolding write_stream_def Let_def
proof (rule preserves_bind_get_obj, intro pres_at_if)
  fix w :: world
  assume "\<not> w_destroyed (wstate (heap w s))" and "\<not> w_ended (wstate (heap w s))"
  then show "pres_at (wi SI) (js_bind (write_chunk R c v b) (\<lambda>c. queue_item R s (c, e', cb'))) w" for v b e' cb'
    by (intro pres_at_bind) (auto intro: preserves_at [OF preserves_write_chunk] queue_item_at dest: write_chunk_state)
qed (rule preserves_at, intro pres_intro)+

lemma set_ended_at:
  assumes "\<not> w_ended (wstate (heap w s))"
  shows "pres_at (wi SI) (js_seq (mod_obj s set_ended) (maybeFinish R s)) w"
proof (rule pres_at_seq)
  show "pres_at (wi SI) (mod_obj s set_ended) w"
    using assms by (auto simp: pres_at_def mod_obj_def js_mod_def intro!: wi_upd ended_set dest: wiD)
qed (rule preserves_at, rule pres_maybeFinish)

lemma pres_end_now [pres_intro]: "preserves (wi SI) (end_now R s)"
  unfolding end_now_def
  by (rule preserves_bind_get_obj) (auto intro: set_ended_at preserves_at [OF preserves_ret])

lemma pres_end [pres_intro]: "preserves (wi SI) (end_writing R s c e cb)"
  unfolding end_writing_def Let_def by (intro pres_intro)

lemma pres_uncork [pres_intro]: "preserves (wi SI) (uncork R s)"
  unfolding uncork_def by (intro pres_intro)

lemma pres_tick_errored [pres_intro]: "preserves (wi SI) (tick_errored R cb s)"
  unfolding tick_errored_def by (intro pres_intro)

subsection \<open>Duplex, Transform and pipes\<close>

lemma pres_half_open [pres_intro]:
  "preserves (wi SI) (halfOpenEnd R s)"
  "preserves (wi SI) (halfOpenFinish R s)"
  unfolding halfOpenEnd_def halfOpenFinish_def by (intro pres_intro)+

lemma pres_doTransform [pres_intro]: "preserves (wi SI) (doTransform R s)"
  unfolding doTransform_def by (intro pres_intro)

lemma pres_transform [pres_intro]:
  "preserves (wi SI) (transformWrite R s c e cb)"
  "preserves (wi SI) (transformDone R s k e d)"
  "preserves (wi SI) (transformFinal R s cb)"
  "preserves (wi SI) (flushDone R s cb e)"
  unfolding transformWrite_def transformDone_def transformFinal_def flushDone_def by (intro pres_intro)+

lemma pres_unpipeOne [pres_intro]: "preserves (wi SI) (unpipeOne R s p)"
  unfolding unpipeOne_def by (intro pres_intro)

lemma pres_unpipe_loop [pres_intro]: "preserves (wi SI) (unpipe_loop R s i d)"
  unfolding unpipe_loop_def Let_def by (intro pres_intro)

lemma pres_unpipe [pres_intro]: "preserves (wi SI) (unpipe R s d)"
  unfolding unpipe_def by (intro pres_intro)

lemma pres_pipe_to [pres_intro]: "preserves (wi SI) (pipe_to R s d e)"
  unfolding pipe_to_def by (rule preserves_bind_get_obj) (cases d; auto intro!: preserves_at pres_intro)

lemma pres_pipe_handlers [pres_intro]:
  "preserves (wi SI) (pipe_ondata R s d c)"
  "preserves (wi SI) (pipe_onend R d e)"
  "preserves (wi SI) (pipe_ondrain s)"
  unfolding pipe_ondata_def pipe_onend_def pipe_ondrain_def by (intro pres_intro)+

lemma pres_pipe_handle [pres_intro]: "preserves (wi SI) (pipe_handle R h s d e a)"
  unfolding pipe_handle_def by (cases h) (simp_all add: pres_pipe_handlers pres_unpipe)

subsection \<open>Programs and calls\<close>

lemma pres_js_val [pres_intro]: "preserves (wi SI) m \<Longrightarrow> preserves (wi SI) (js_val m f)"
  unfolding js_val_def by (intro pres_intro)

lemma pres_method [pres_intro]: "preserves (wi SI) m \<Longrightarrow> preserves (wi SI) (method_of p s m)"
  unfolding method_of_def by (intro pres_intro)

lemma pres_run_api: "preserves (wi SI) (run_api R a)"
proof (cases a)
  case (SetVar i v)
  have "preserves (wi SI) (js_mod (\<lambda>w. w\<lparr>vars := (vars w)(i := v)\<rparr>) :: unit code)"
    by (rule preserves_mod) (simp add: wi_def)
  with SetVar show ?thesis by (simp add: pres_js_val)
qed (simp_all, (intro pres_intro)+)

lemma pres_run_program: "preserves (wi SI) (run_program R p)"
proof (induction p)
  case (Do a k h)
  show ?case
  proof
    fix w assume "wi SI w"
    then have "wi SI (snd (run_api R a w))" by (rule preservesD [OF pres_run_api])
    then show "wi SI (snd (run_program R (Do a k h) w))"
      by (cases "run_api R a w"; cases "fst (run_api R a w)")
        (auto intro: preservesD [OF Do.IH(1) [OF rangeI]] preservesD [OF Do.IH(2) [OF rangeI]])
  qed
qed (simp_all add: preserves_ret preserves_throw)

lemma pres_on_this: "(\<And>s. preserves (wi SI) (f s)) \<Longrightarrow> preserves (wi SI) (on_this t f)"
  unfolding on_this_def by (cases t) (simp_all add: preserves_throw)

lemma pres_dispatch: "preserves (wi SI) (dispatch u R c t a)"
  by (cases c) (auto intro!: pres_run_program pres_on_this pres_intro)

end

section \<open>Reachable worlds\<close>

lemma calls_respect_fuel: "calls_respect (rt_fuel U n)"
proof (induction n)
  case 0
  show ?case
    by (simp add: calls_respect_def rt_fuel_def make_rt_def preserves_stuck)
next
  case (Suc n)
  show ?case unfolding calls_respect_def
  proof (intro allI impI)
    fix SI c t a assume "stream_laws SI"
    with Suc have "stream_client SI (rt_fuel U n)"
      by (simp add: stream_client_def stream_client_axioms_def)
    then show "preserves (wi SI) (rt_call (rt_fuel U (Suc n)) c t a)"
      using stream_client.pres_dispatch by (auto simp: rt_fuel_def make_rt_def)
  qed
qed

lemma wi_report: "preserves (wi SI) m \<Longrightarrow> wi SI w \<Longrightarrow> wi SI (report m w)"
  using preservesD [of "wi SI" m w]
  by (cases "m w"; cases "fst (m w)") (auto simp: report_def wi_def)

lemma wi_step:
  assumes "stream_laws SI" and "step U w w'" and "wi SI w"
  shows "wi SI w'"
proof -
  have client: "stream_client SI (rt_fuel U n)" for n
    using assms(1) calls_respect_fuel by (simp add: stream_client_def stream_client_axioms_def)
  have call: "preserves (wi SI) (call_fuel U n c t a)" for n c t a
    using stream_client.pres_call [OF client, of n c t a] by (simp add: rt_fuel_def make_rt_def)
  from assms(2) show ?thesis
  proof (cases rule: step.cases)
    case (enter n p)
    then show ?thesis
      using wi_report [OF stream_client.pres_run_program [OF client] assms(3)] by simp
  next
    case (tick n)
    moreover have "wi SI (w\<lparr>ticks := q\<rparr>)" for q using assms(3) by (simp add: wi_def)
    ultimately show ?thesis
      using assms(3) wi_report [OF call] by (auto simp: run_tick_def split: list.split)
  qed
qed

text \<open>The principle every invariant of this development rests on.\<close>

theorem reachable_invariant:
  assumes "stream_laws SI" and "\<And>t. SI t bare_stream" and "reachable U w"
  shows "SI s (heap w s)"
proof -
  from assms(3) have "wi SI w"
  proof (induction rule: reachable.induct)
    case start
    show ?case using assms(2) by (simp add: wi_def start_world_def bare_stream_def)
  next
    case (next_step w w')
    then show ?case by (blast intro: wi_step [OF assms(1)])
  qed
  then show ?thesis by (rule wiD)
qed

end
