(* ===== verification/Readable_Spec.thy ===== *)
theory Readable_Spec
  imports Stream_Client
begin

text \<open>
  What a readable stream promises: it is a queue with two ends. Chunks pushed go to the back, chunks
  unshifted to the front, and what a reader takes, by \<open>read\<close> or in flowing mode, is what is at the
  front; \<open>end\<close> is emitted when the queue is empty. The specification is a deque of units: objects in
  object mode, single bytes otherwise, so that it does not say how bytes are cut into chunks.
  \<open>readable_ok\<close> is the refinement, an interpretation of \<open>stream_laws\<close>.
\<close>

section \<open>The specification\<close>

definition units :: "bool \<Rightarrow> val \<Rightarrow> val list" where
  "units objectMode v = (if objectMode then [v] else map (\<lambda>b. VBuf [b]) (bytes_of v))"

definition flat :: "bool \<Rightarrow> val list \<Rightarrow> val list" where
  "flat objectMode vs = concat (map (units objectMode) vs)"

text \<open>One event on the deque; \<open>None\<close> when the event is not allowed there.\<close>

fun deque_step :: "bool \<Rightarrow> obs \<Rightarrow> val list \<Rightarrow> val list option" where
  "deque_step om (Pushed c) q = Some (q @ units om c)"
| "deque_step om (Unshifted c) q = Some (units om c @ q)"
| "deque_step om (Delivered c) q =
     (if take (length (units om c)) q = units om c then Some (drop (length (units om c)) q) else None)"
| "deque_step om EmitEnd q = (if q = [] then Some [] else None)"
| "deque_step om _ q = Some q"

fun deque_run :: "bool \<Rightarrow> obs list \<Rightarrow> val list \<Rightarrow> val list option" where
  "deque_run om [] q = Some q"
| "deque_run om (x # xs) q = (case deque_step om x q of None \<Rightarrow> None | Some q' \<Rightarrow> deque_run om xs q')"

text \<open>Every chunk that came in is an object of object mode or a byte array.\<close>

definition chunk_ok :: "bool \<Rightarrow> val \<Rightarrow> bool" where
  "chunk_ok om c \<longleftrightarrow> om \<or> is_bytes c"

definition chunks_ok :: "bool \<Rightarrow> obs list \<Rightarrow> bool" where
  "chunks_ok om h = list_all (\<lambda>x. case x of Pushed c \<Rightarrow> chunk_ok om c | Unshifted c \<Rightarrow> chunk_ok om c | _ \<Rightarrow> True) h"

definition readable_ok :: "nat \<Rightarrow> stream \<Rightarrow> bool" where
  "readable_ok t ob = (let r = rstate ob; om = r_objectMode r; q = flat om (r_buffer r) in
     (chunks_ok om (history ob) \<longrightarrow>
        list_all (chunk_ok om) (r_buffer r) \<and> deque_run om (history ob) [] = Some q \<and>
        r_length r = Fin (int (length q))))"

section \<open>Lemmas on the specification\<close>

lemma deque_run_snoc [simp]:
  "deque_run om (h @ [x]) q = (case deque_run om h q of None \<Rightarrow> None | Some q' \<Rightarrow> deque_step om x q')"
  by (induction h arbitrary: q) (auto split: option.splits)

lemma chunks_ok_snoc [simp]:
  "chunks_ok om (h @ [x]) \<longleftrightarrow>
     chunks_ok om h \<and> (case x of Pushed c \<Rightarrow> chunk_ok om c | Unshifted c \<Rightarrow> chunk_ok om c | _ \<Rightarrow> True)"
  by (simp add: chunks_ok_def)

lemma chunks_ok_Nil [simp]: "chunks_ok om []"
  by (simp add: chunks_ok_def)

lemma flat_simps [simp]:
  "flat om [] = []" "flat om (c # cs) = units om c @ flat om cs" "flat om (cs @ ds) = flat om cs @ flat om ds"
  by (simp_all add: flat_def)

abbreviation buffer_bytes :: "val list \<Rightarrow> bytes" where
  "buffer_bytes vs \<equiv> concat (map bytes_of vs)"

lemma flat_bytes: "flat False vs = map (\<lambda>b. VBuf [b]) (buffer_bytes vs)"
  by (induction vs) (simp_all add: units_def)

lemma chunkLength_units: "chunk_ok om c \<Longrightarrow> chunkLength c om = int (length (units om c))"
  by (cases c) (simp_all add: chunk_ok_def chunkLength_def units_def is_bytes_def)

section \<open>\<open>read(n)\<close> in byte mode\<close>

text \<open>The loop takes whole chunks off the front, and stops as soon as there are enough bytes.\<close>

lemma is_bytes_len: "is_bytes c \<Longrightarrow> val_len c = Some (int (length (bytes_of c)))"
  by (cases c) (simp_all add: is_bytes_def)

lemma is_bytes_set: "is_bytes c \<Longrightarrow> set_bytes c = bytes_of c"
  by (cases c) (simp_all add: is_bytes_def set_bytes_def)

lemma take_parts_bytes:
  assumes "list_all is_bytes buf" and "take_parts buf parts (Fin t) wanted = (ps, tot, left, thrown)"
  shows "\<exists>got. \<not> thrown \<and> ps = parts @ got \<and> buf = got @ left \<and> tot = Fin (t + int (length (buffer_bytes got))) \<and>
     (got \<noteq> [] \<longrightarrow> t + int (length (buffer_bytes (butlast got))) < wanted) \<and>
     (left \<noteq> [] \<longrightarrow> wanted \<le> t + int (length (buffer_bytes got)))"
  using assms
proof (induction buf arbitrary: parts t)
  case (Cons c cs)
  show ?case
  proof (cases "t < wanted")
    case True
    have c: "is_bytes c" "\<not> nullish c"
      using Cons.prems(1) by (auto simp: nullish_def is_bytes_def)
    have "take_parts cs (parts @ [c]) (Fin (t + int (length (bytes_of c)))) wanted = (ps, tot, left, thrown)"
      using Cons.prems(2) True c by (simp add: is_bytes_len)
    then obtain got where got: "\<not> thrown" "ps = (parts @ [c]) @ got" "cs = got @ left"
      "tot = Fin (t + int (length (bytes_of c)) + int (length (buffer_bytes got)))"
      "got \<noteq> [] \<longrightarrow> t + int (length (bytes_of c)) + int (length (buffer_bytes (butlast got))) < wanted"
      "left \<noteq> [] \<longrightarrow> wanted \<le> t + int (length (bytes_of c)) + int (length (buffer_bytes got))"
      using Cons.IH [of "parts @ [c]" "t + int (length (bytes_of c))"] Cons.prems(1) by auto
    then show ?thesis using True by (intro exI [of _ "c # got"]) auto
  next
    case False
    then show ?thesis using Cons.prems(2) by (intro exI [of _ "[]"]) auto
  qed
qed simp

lemma sub_bytes_ok:
  "is_bytes v \<Longrightarrow> is_bytes (fst (sub_bytes v n)) \<and> is_bytes (snd (sub_bytes v n)) \<and>
     bytes_of (fst (sub_bytes v n)) = take n (bytes_of v) \<and> bytes_of (snd (sub_bytes v n)) = drop n (bytes_of v)"
  by (cases v) (simp_all add: is_bytes_def)

lemma concatBuffers_bytes:
  "list_all is_bytes ps \<Longrightarrow> concatBuffers ps = Inr (VBuf (buffer_bytes ps))"
  by (auto simp: concatBuffers_def list_all_iff is_bytes_len is_bytes_set intro!: arg_cong [where f = concat])

lemma join_parts_bytes:
  assumes "list_all is_bytes ps" and "ps \<noteq> []"
  shows "\<exists>c. join_parts ps = Inr c \<and> is_bytes c \<and> bytes_of c = buffer_bytes ps"
  using assms by (cases ps) (auto simp: join_parts_def concatBuffers_bytes is_bytes_def)

lemma cut_parts_bytes:
  assumes "got = pre @ [c]" and "list_all is_bytes got" and "list_all is_bytes left"
    and "int (length (buffer_bytes pre)) < n"
  defines "k \<equiv> nat n - length (buffer_bytes pre)" and "bs \<equiv> buffer_bytes got @ buffer_bytes left"
  assumes "left \<noteq> [] \<longrightarrow> n \<le> int (length (buffer_bytes got))"
  shows "\<exists>parts left'. cut_parts got (Fin (int (length (buffer_bytes got)))) left n =
       Some (parts, Fin (int (length (buffer_bytes parts))), left') \<and> parts \<noteq> [] \<and>
     list_all is_bytes parts \<and> list_all is_bytes left' \<and>
     buffer_bytes parts = take (nat n) bs \<and> buffer_bytes left' = drop (nat n) bs"
proof (cases "n < int (length (buffer_bytes got))")
  case True
  have k: "nat (int (length (bytes_of c)) - (int (length (buffer_bytes got)) - n)) = k"
    using assms(1,4) by (simp add: k_def)
  have s: "is_bytes c" using assms(1,2) by simp
  have "cut_parts got (Fin (int (length (buffer_bytes got)))) left n =
      Some (pre @ [fst (sub_bytes c k)], Fin n, snd (sub_bytes c k) # left)"
    using True s k by (simp add: cut_parts_def assms(1) split_beta)
  moreover have "int (length (buffer_bytes (pre @ [fst (sub_bytes c k)]))) = n"
    using True assms(1,4) sub_bytes_ok [OF s, of k] by (simp add: k_def)
  ultimately show ?thesis
    using True assms(1-4) sub_bytes_ok [OF s, of k] by (auto simp: bs_def k_def)
next
  case False
  with assms show ?thesis by (auto simp: cut_parts_def)
qed

text \<open>\<open>read(n)\<close> takes the first \<open>n\<close> bytes, all of them if there are fewer, and leaves the others.\<close>

lemma read_bytes_correct:
  assumes "r_buffer (rstate ob) \<noteq> []" and "0 < n" and "list_all is_bytes (r_buffer (rstate ob))"
  defines "r \<equiv> rstate ob" and "bs \<equiv> buffer_bytes (r_buffer (rstate ob))"
  shows "\<exists>c left. read_bytes n ob = (Inr c, ob\<lparr>
       rstate := r\<lparr>r_buffer := left, r_length := num_sub (r_length r) (Fin (int (length (bytes_of c))))\<rparr>,
       history := history ob @ [Delivered c]\<rparr>) \<and>
     is_bytes c \<and> bytes_of c = take (nat n) bs \<and> list_all is_bytes left \<and> buffer_bytes left = drop (nat n) bs"
proof -
  obtain ps tot left thrown where tp: "take_parts (r_buffer r) [] (Fin 0) n = (ps, tot, left, thrown)"
    by (metis prod_cases4)
  then obtain got where got: "\<not> thrown" "ps = got" "r_buffer r = got @ left" "tot = Fin (int (length (buffer_bytes got)))"
    "got \<noteq> [] \<longrightarrow> int (length (buffer_bytes (butlast got))) < n"
    "left \<noteq> [] \<longrightarrow> n \<le> int (length (buffer_bytes got))"
    using take_parts_bytes [of "r_buffer r" "[]" 0 n] assms(3) by (auto simp: r_def)
  have "got \<noteq> []" using got(3,6) assms(1,2) by (auto simp: r_def)
  then obtain pre c where pre: "got = pre @ [c]" by (metis rev_exhaust)
  have bs: "bs = buffer_bytes got @ buffer_bytes left" using got(3) by (simp add: bs_def r_def)
  obtain parts left' where cut: "cut_parts got tot left n = Some (parts, Fin (int (length (buffer_bytes parts))), left')"
    "parts \<noteq> []" "list_all is_bytes parts" "list_all is_bytes left'"
    "buffer_bytes parts = take (nat n) bs" "buffer_bytes left' = drop (nat n) bs"
    using cut_parts_bytes [OF pre, of left n] got pre assms(3) by (auto simp: bs r_def)
  moreover obtain v where "join_parts parts = Inr v" "is_bytes v" "bytes_of v = buffer_bytes parts"
    using join_parts_bytes cut(2,3) by blast
  ultimately show ?thesis
    using tp got(1,2) by (auto simp: read_bytes_def r_def [symmetric])
qed

section \<open>The refinement\<close>

text \<open>An object with the same chunks, mode, length and events of the readable side.\<close>

fun read_event :: "obs \<Rightarrow> bool" where
  "read_event (Pushed c) = True"
| "read_event (Unshifted c) = True"
| "read_event (Delivered c) = True"
| "read_event EmitEnd = True"
| "read_event _ = False"

lemma deque_run_filter: "deque_run om (filter read_event h) q = deque_run om h q"
proof (induction h arbitrary: q)
  case (Cons x h)
  then show ?case by (cases x) (auto split: option.split)
qed simp

lemma chunks_ok_filter: "chunks_ok om (filter read_event h) = chunks_ok om h"
  by (induction h) (auto simp: chunks_ok_def split: obs.split)

lemma readable_ok_cong:
  assumes "readable_ok t ob" and "r_objectMode (rstate ob') = r_objectMode (rstate ob)"
    and "r_buffer (rstate ob') = r_buffer (rstate ob)" and "r_length (rstate ob') = r_length (rstate ob)"
    and "filter read_event (history ob') = filter read_event (history ob)"
  shows "readable_ok t ob'"
  using assms deque_run_filter [of _ "history ob"] deque_run_filter [of _ "history ob'"]
    chunks_ok_filter [of _ "history ob"] chunks_ok_filter [of _ "history ob'"]
  by (simp add: readable_ok_def Let_def)

lemma readable_ok_new:
  "readable_ok t (new_Readable opts)" "readable_ok t (new_Writable opts)" "readable_ok t (new_duplex_object opts)"
  "readable_ok t bare_stream"
  by (simp_all add: readable_ok_def new_Readable_def new_Writable_def new_duplex_object_def bare_stream_def
      initReadableState_def)

lemma readable_ok_push: "readable_ok t ob \<Longrightarrow> readable_ok t (push_chunk c ob)"
  by (auto simp: readable_ok_def push_chunk_def Let_def chunkLength_units)

lemma readable_ok_unshift: "readable_ok t ob \<Longrightarrow> readable_ok t (unshift_chunk c ob)"
  by (auto simp: readable_ok_def unshift_chunk_def Let_def chunkLength_units)

lemma readable_ok_emitEnd:
  "readable_ok t ob \<Longrightarrow> drained (rstate ob) \<Longrightarrow> readable_ok t (snd (emitEnd_begin ob))"
  by (auto simp: readable_ok_def emitEnd_begin_def Let_def drained_def)

text \<open>Taking a whole chunk off the front.\<close>

lemma readable_ok_shift:
  assumes "readable_ok t ob" and "r_buffer (rstate ob) = c # rest"
    and "r_objectMode (rstate ob') = r_objectMode (rstate ob)" and "r_buffer (rstate ob') = rest"
    and "r_length (rstate ob') = num_sub (r_length (rstate ob)) (Fin (chunkLength c (r_objectMode (rstate ob))))"
    and "history ob' = history ob @ [Delivered c]"
  shows "readable_ok t ob'"
  using assms by (auto simp: readable_ok_def Let_def chunkLength_units)

lemma readable_ok_flow: "readable_ok t ob \<Longrightarrow> readable_ok t (snd (flow_shift ob))"
  by (auto simp: flow_shift_def Let_def intro: readable_ok_shift split: list.split)

lemma readable_ok_read_bytes:
  assumes "readable_ok t ob" and "\<not> r_objectMode (rstate ob)" and "r_buffer (rstate ob) \<noteq> []" and "0 < n"
  shows "readable_ok t (snd (read_bytes n ob))"
  unfolding readable_ok_def Let_def
proof (rule impI)
  define bs where "bs = buffer_bytes (r_buffer (rstate ob))"
  have same: "r_objectMode (rstate (snd (read_bytes n ob))) = r_objectMode (rstate ob)"
    by (simp add: read_bytes_def Let_def split: prod.split option.split)
  assume "chunks_ok (r_objectMode (rstate (snd (read_bytes n ob)))) (history (snd (read_bytes n ob)))"
  then have h: "chunks_ok False (history ob)"
    using assms(2) same by (auto simp: read_bytes_def Let_def split: prod.splits option.splits sum.splits if_splits)
  then have ok: "list_all is_bytes (r_buffer (rstate ob))"
    "deque_run False (history ob) [] = Some (map (\<lambda>b. VBuf [b]) bs)" "r_length (rstate ob) = Fin (int (length bs))"
    using assms(1,2) by (auto simp: readable_ok_def Let_def flat_bytes bs_def chunk_ok_def list_all_iff)
  obtain c left where read: "read_bytes n ob = (Inr c, ob\<lparr>
       rstate := (rstate ob)\<lparr>r_buffer := left, r_length := num_sub (r_length (rstate ob)) (Fin (int (length (bytes_of c))))\<rparr>,
       history := history ob @ [Delivered c]\<rparr>)"
    "bytes_of c = take (nat n) bs" "list_all is_bytes left" "buffer_bytes left = drop (nat n) bs"
    using read_bytes_correct [OF assms(3,4) ok(1)] by (auto simp: bs_def)
  then show "list_all (chunk_ok (r_objectMode (rstate (snd (read_bytes n ob))))) (r_buffer (rstate (snd (read_bytes n ob)))) \<and>
      deque_run (r_objectMode (rstate (snd (read_bytes n ob)))) (history (snd (read_bytes n ob))) [] =
        Some (flat (r_objectMode (rstate (snd (read_bytes n ob)))) (r_buffer (rstate (snd (read_bytes n ob))))) \<and>
      r_length (rstate (snd (read_bytes n ob))) =
        Fin (int (length (flat (r_objectMode (rstate (snd (read_bytes n ob)))) (r_buffer (rstate (snd (read_bytes n ob)))))))"
    using ok assms(2) by (auto simp: flat_bytes units_def chunk_ok_def list_all_iff take_map drop_map min_def)
qed

lemma readable_ok_read:
  assumes "readable_ok t ob" and "positive_size n"
  shows "readable_ok t (snd (read_take n ob))"
proof (cases "r_buffer (rstate ob)")
  case (Cons c rest)
  with assms show ?thesis
    using readable_ok_read_bytes [OF assms(1)]
    by (cases n) (auto simp: read_take_def Let_def positive_size_def chunkLength_def intro: readable_ok_shift)
qed (simp add: read_take_def Let_def assms split: option.split)

interpretation readable: stream_laws readable_ok
proof unfold_locales
  show "readable_ok t ob'" if "readable_ok t ob" "same_core ob ob'" for t ob ob'
    using that by (intro readable_ok_cong [OF that(1)]) (simp_all add: same_core_def)
  show "readable_ok t (snd (destroy_begin e ob))" if "readable_ok t ob" for t e ob
    using that by (rule readable_ok_cong) (auto simp: destroy_begin_def destroy_r_def)
  show "readable_ok t (destroy_clear ob)" if "readable_ok t ob" for t ob
    using that by (rule readable_ok_cong) (auto simp: destroy_clear_def)
  show "readable_ok t (snd (complete_begin e ob))" if "readable_ok t ob" for t e ob
    using that by (rule readable_ok_cong) (auto simp: complete_begin_def set_errored_def Let_def)
  show "readable_ok t (ob\<lparr>rstate := push_end (rstate ob)\<rparr>)" if "readable_ok t ob" for t ob
    using that by (rule readable_ok_cong) (auto simp: push_end_def)
  show "readable_ok t (snd (finish_begin ob))" if "readable_ok t ob" for t ob
    using that by (rule readable_ok_cong) (auto simp: finish_begin_def)
  show "readable_ok t (snd (final_begin ob))" if "readable_ok t ob" for t ob
    using that by (rule readable_ok_cong) (auto simp: final_begin_def)
  show "readable_ok t (snd (final_called k ob))" if "readable_ok t ob" for t k ob
    using that by (rule readable_ok_cong) (auto simp: final_called_def)
  show "readable_ok t (snd (doWrite_begin ob))" if "readable_ok t ob" for t ob
    using that by (rule readable_ok_cong) (auto simp: doWrite_begin_def Let_def split: list.split)
  show "readable_ok t (snd (onwrite_begin k ob))" if "readable_ok t ob" for t k ob
    using that by (rule readable_ok_cong) (auto simp: onwrite_begin_def split: option.split)
  show "readable_ok t (snd (accept_item i ob))" if "readable_ok t ob" for t i ob
    using that by (rule readable_ok_cong) (auto simp: accept_item_def Let_def)
  show "readable_ok t (set_ended ob)" if "readable_ok t ob" for t ob
    using that by (rule readable_ok_cong) (auto simp: set_ended_def)
  show "readable_ok t (ob\<lparr>wstate := (wstate ob)\<lparr>w_corked := w_corked (wstate ob) + 1\<rparr>\<rparr>)"
    if "readable_ok t ob" for t ob using that by (rule readable_ok_cong) auto
  show "readable_ok t (snd (uncork_begin ob))" if "readable_ok t ob" for t ob
    using that by (rule readable_ok_cong) (auto simp: uncork_begin_def Let_def)
qed (simp_all add: readable_ok_new readable_ok_push readable_ok_unshift readable_ok_emitEnd readable_ok_read readable_ok_flow)

end
