(* ===== verification/Writable_Spec.thy ===== *)
theory Writable_Spec
  imports Stream_Client
begin

text \<open>
  What a writable stream promises: it is a serial writer. Chunks wait in a queue in the order they
  were accepted; one at a time is handed to \<open>_write\<close>, the next one only after the completion callback
  of the one before; \<open>finish\<close> is emitted at most once, with nothing waiting and nothing in progress,
  and nothing is accepted after it. \<open>writable_ok\<close> is the refinement, with the meaning of
  \<open>writableLength\<close>: an interpretation of \<open>stream_laws\<close>.
\<close>

section \<open>The specification\<close>

record writer =
  waiting :: "val list"
  in_progress :: "val option"
  finish_emitted :: bool

definition new_writer :: writer where
  "new_writer = \<lparr>waiting = [], in_progress = None, finish_emitted = False\<rparr>"

text \<open>One event; \<open>None\<close> when it is not allowed.\<close>

fun writer_step :: "obs \<Rightarrow> writer \<Rightarrow> writer option" where
  "writer_step (Accepted c) wr = (if finish_emitted wr then None else Some (wr\<lparr>waiting := waiting wr @ [c]\<rparr>))"
| "writer_step (Started c) wr =
     (if in_progress wr = None \<and> waiting wr \<noteq> [] \<and> hd (waiting wr) = c
      then Some (wr\<lparr>waiting := tl (waiting wr), in_progress := Some c\<rparr>) else None)"
| "writer_step (Wrote c) wr = (if in_progress wr = Some c then Some (wr\<lparr>in_progress := None\<rparr>) else None)"
| "writer_step EmitFinish wr =
     (if waiting wr = [] \<and> in_progress wr = None \<and> \<not> finish_emitted wr
      then Some (wr\<lparr>finish_emitted := True\<rparr>) else None)"
| "writer_step _ wr = Some wr"

fun writer_run :: "obs list \<Rightarrow> writer \<Rightarrow> writer option" where
  "writer_run [] wr = Some wr"
| "writer_run (x # xs) wr = (case writer_step x wr of None \<Rightarrow> None | Some wr' \<Rightarrow> writer_run xs wr')"

section \<open>The invariant\<close>

definition items_length :: "bool \<Rightarrow> item list \<Rightarrow> int" where
  "items_length om items = sum_list (map (\<lambda>i. chunkLength (fst i) om) items)"

text \<open>The writes of an object that were accepted and did not complete, in order.\<close>

definition current_write :: "stream \<Rightarrow> item list" where
  "current_write ob = (case wframe ob of None \<Rightarrow> [] | Some (_, i) \<Rightarrow> [i])"

definition queued :: "stream \<Rightarrow> item list" where
  "queued ob = w_pending (wstate ob) @ w_corkedBuffer (wstate ob)"

definition idle :: "wstate \<Rightarrow> bool" where
  "idle st \<longleftrightarrow> w_ending st \<and> \<not> w_writing st \<and> w_pending st = [] \<and> w_corkedBuffer st = []"

definition writable_flags :: "stream \<Rightarrow> bool" where
  "writable_flags ob = (let st = wstate ob in
     (w_writing st \<longleftrightarrow> wframe ob \<noteq> None) \<and> 0 \<le> w_corked st \<and> (w_corked st = 0 \<longrightarrow> w_corkedBuffer st = []) \<and>
     (w_ended st \<longleftrightarrow> w_ending st) \<and> (w_finished st \<longrightarrow> w_ended st) \<and>
     (0 < fcount ob \<longrightarrow> \<not> w_destroyed st \<longrightarrow> idle st))"

definition writable_queue :: "stream \<Rightarrow> bool" where
  "writable_queue ob = (case writer_run (history ob) new_writer of
       None \<Rightarrow> False
     | Some wr \<Rightarrow>
         in_progress wr = map_option (\<lambda>f. fst (snd f)) (wframe ob) \<and> finish_emitted wr = w_finished (wstate ob) \<and>
         (\<not> w_destroyed (wstate ob) \<longrightarrow> waiting wr = map fst (queued ob)))"

definition writable_length :: "stream \<Rightarrow> bool" where
  "writable_length ob \<longleftrightarrow> (\<not> w_destroyed (wstate ob) \<longrightarrow>
     w_length (wstate ob) = items_length (w_objectMode (wstate ob)) (current_write ob @ queued ob))"

definition writable_ok :: "nat \<Rightarrow> stream \<Rightarrow> bool" where
  "writable_ok t ob \<longleftrightarrow> writable_flags ob \<and> writable_queue ob \<and> writable_length ob"

lemmas writable_defs = writable_ok_def writable_flags_def writable_queue_def writable_length_def
  queued_def current_write_def idle_def items_length_def Let_def

section \<open>The refinement\<close>

lemma writer_run_snoc [simp]:
  "writer_run (h @ [x]) wr = (case writer_run h wr of None \<Rightarrow> None | Some wr' \<Rightarrow> writer_step x wr')"
  by (induction h arbitrary: wr) (auto split: option.splits)

lemma chunkLength_nonneg: "0 \<le> chunkLength c om"
  by (cases c) (simp_all add: chunkLength_def)

lemma items_length_nonneg: "0 \<le> items_length om items"
  by (auto simp: items_length_def intro!: sum_list_nonneg chunkLength_nonneg)

fun write_event :: "obs \<Rightarrow> bool" where
  "write_event (Accepted c) = True"
| "write_event (Started c) = True"
| "write_event (Wrote c) = True"
| "write_event EmitFinish = True"
| "write_event _ = False"

lemma writer_run_filter: "writer_run (filter write_event h) wr = writer_run h wr"
proof (induction h arbitrary: wr)
  case (Cons x h)
  then show ?case by (cases x) (auto split: option.split)
qed simp

text \<open>An object with the same queue, flags and events of the writable side.\<close>

definition same_writes :: "stream \<Rightarrow> stream \<Rightarrow> bool" where
  "same_writes a b \<longleftrightarrow>
     w_objectMode (wstate a) = w_objectMode (wstate b) \<and> w_pending (wstate a) = w_pending (wstate b) \<and>
     w_corkedBuffer (wstate a) = w_corkedBuffer (wstate b) \<and> w_length (wstate a) = w_length (wstate b) \<and>
     w_writing (wstate a) = w_writing (wstate b) \<and> w_ended (wstate a) = w_ended (wstate b) \<and>
     w_ending (wstate a) = w_ending (wstate b) \<and> w_finished (wstate a) = w_finished (wstate b) \<and>
     w_corked (wstate a) = w_corked (wstate b) \<and> w_destroyed (wstate a) = w_destroyed (wstate b) \<and>
     wframe a = wframe b \<and> fcount a = fcount b \<and>
     filter write_event (history a) = filter write_event (history b)"

lemma writable_ok_cong:
  assumes "writable_ok t ob" and "same_writes ob ob'"
  shows "writable_ok t ob'"
proof -
  have "writer_run (history ob) new_writer = writer_run (history ob') new_writer"
    using assms(2) writer_run_filter [of "history ob"] writer_run_filter [of "history ob'"]
    by (simp add: same_writes_def)
  moreover have "queued ob = queued ob'" "current_write ob = current_write ob'"
    using assms(2) by (simp_all add: same_writes_def queued_def current_write_def)
  moreover have "writable_flags ob = writable_flags ob'"
    using assms(2) unfolding same_writes_def writable_flags_def idle_def Let_def by metis
  ultimately show ?thesis
    using assms
    by (simp add: writable_ok_def writable_queue_def writable_length_def same_writes_def cong: option.case_cong)
qed

lemma writable_ok_new:
  "writable_ok t (new_Readable opts)" "writable_ok t (new_Writable opts)" "writable_ok t (new_duplex_object opts)"
  "writable_ok t bare_stream"
  by (simp_all add: writable_defs new_Readable_def new_Writable_def new_duplex_object_def bare_stream_def
      initWritableState_def new_writer_def)

lemma writable_ok_destroy: "writable_ok t ob \<Longrightarrow> writable_ok t (snd (destroy_begin e ob))"
  by (auto simp: writable_defs destroy_begin_def destroy_w_def split: option.splits)

lemma writable_ok_clear: "writable_ok t ob \<Longrightarrow> w_destroyed (wstate ob) \<Longrightarrow> writable_ok t (destroy_clear ob)"
  by (auto simp: writable_defs destroy_clear_def split: option.splits)

lemma writable_ok_finish:
  assumes "writable_ok t ob" and "may_finish (wstate ob) \<or> 0 < fcount ob"
  shows "writable_ok t (snd (finish_begin ob))"
proof (cases "w_finished (wstate ob) \<or> w_destroyed (wstate ob)")
  case False
  with assms have "idle (wstate ob)" by (auto simp: may_finish_def writable_ok_def writable_flags_def idle_def Let_def)
  with assms(1) False show ?thesis
    by (auto simp: writable_defs finish_begin_def split: option.splits)
qed (simp add: finish_begin_def assms)

lemma writable_ok_final:
  "writable_ok t ob \<Longrightarrow> may_finish (wstate ob) \<Longrightarrow> writable_ok t (snd (final_begin ob))"
  by (auto simp: writable_defs final_begin_def may_finish_def split: option.splits)

lemma writable_ok_doWrite: "writable_ok t ob \<Longrightarrow> writable_ok t (snd (doWrite_begin ob))"
  by (auto simp: writable_defs doWrite_begin_def split: option.splits list.splits)

lemma writable_ok_accept:
  assumes "writable_ok t ob" and "\<not> w_destroyed (wstate ob)" and "\<not> w_ended (wstate ob)"
  shows "writable_ok t (snd (accept_item i ob))"
  using assms by (auto simp: writable_defs accept_item_def split: option.splits)

lemma writable_ok_uncork: "writable_ok t ob \<Longrightarrow> writable_ok t (snd (uncork_begin ob))"
  by (auto simp: writable_defs uncork_begin_def split: option.splits)

lemma writable_ok_onwrite:
  assumes "writable_ok t ob"
  shows "writable_ok t (snd (onwrite_begin k ob))"
proof (cases "\<exists>i. wframe ob = Some (k, i)")
  case True
  then obtain i where i: "wframe ob = Some (k, i)" ..
  have "0 \<le> items_length (w_objectMode (wstate ob)) (queued ob)" by (rule items_length_nonneg)
  then have "max 0 (w_length (wstate ob) - chunkLength (fst i) (w_objectMode (wstate ob))) =
      items_length (w_objectMode (wstate ob)) (queued ob)" if "\<not> w_destroyed (wstate ob)"
    using that assms i by (simp add: writable_ok_def writable_length_def items_length_def current_write_def)
  with assms i show ?thesis
    by (auto simp: writable_defs onwrite_begin_def split: option.splits)
next
  case False
  then show ?thesis using assms by (auto simp: onwrite_begin_def split: option.split)
qed

lemma same_writes_read_bytes: "same_writes ob (snd (read_bytes n ob))"
  by (cases "take_parts (r_buffer (rstate ob)) [] (Fin 0) n")
    (auto simp: same_writes_def read_bytes_def Let_def split: option.split sum.split)

lemma same_writes_read_take: "same_writes ob (snd (read_take n ob))"
  using same_writes_read_bytes
  by (cases n; cases "r_buffer (rstate ob)") (auto simp: same_writes_def read_take_def Let_def)

interpretation writable: stream_laws writable_ok
proof unfold_locales
  show "writable_ok t ob'" if "writable_ok t ob" "same_core ob ob'" for t ob ob'
    by (rule writable_ok_cong [OF that(1)]) (use that(2) in \<open>simp add: same_core_def same_writes_def\<close>)
  show "writable_ok t (snd (complete_begin e ob))" if "writable_ok t ob" for t e ob
    using that by (rule writable_ok_cong) (simp add: same_writes_def complete_begin_def set_errored_def Let_def)
  show "writable_ok t (snd (emitEnd_begin ob))" if "writable_ok t ob" for t ob
    using that by (rule writable_ok_cong) (simp add: same_writes_def emitEnd_begin_def)
  show "writable_ok t (ob\<lparr>rstate := push_end (rstate ob)\<rparr>)" if "writable_ok t ob" for t ob
    using that by (rule writable_ok_cong) (simp add: same_writes_def)
  show "writable_ok t (push_chunk c ob)" if "writable_ok t ob" for t c ob
    using that by (rule writable_ok_cong) (simp add: same_writes_def push_chunk_def Let_def)
  show "writable_ok t (unshift_chunk c ob)" if "writable_ok t ob" for t c ob
    using that by (rule writable_ok_cong) (simp add: same_writes_def unshift_chunk_def Let_def)
  show "writable_ok t (snd (read_take n ob))" if "writable_ok t ob" for t n ob
    using that by (rule writable_ok_cong) (rule same_writes_read_take)
  show "writable_ok t (snd (flow_shift ob))" if "writable_ok t ob" for t ob
    using that by (rule writable_ok_cong) (auto simp: same_writes_def flow_shift_def Let_def split: list.split)
  show "writable_ok t (snd (final_called k ob))" if "writable_ok t ob" for t k ob
    using that by (rule writable_ok_cong) (auto simp: same_writes_def final_called_def)
  show "writable_ok t (set_ended ob)" if "writable_ok t ob" for t ob
    using that by (auto simp: writable_defs set_ended_def split: option.splits)
  show "writable_ok t (ob\<lparr>wstate := (wstate ob)\<lparr>w_corked := w_corked (wstate ob) + 1\<rparr>\<rparr>)" if "writable_ok t ob" for t ob
    using that by (auto simp: writable_defs split: option.splits)
qed (simp_all add: writable_ok_new writable_ok_destroy writable_ok_clear writable_ok_finish writable_ok_final
    writable_ok_doWrite writable_ok_onwrite writable_ok_accept writable_ok_uncork)

end
