(* ===== verification/Lifecycle_Spec.thy ===== *)
theory Lifecycle_Spec
  imports Stream_Client
begin

text \<open>
  The life of a stream: \<open>end\<close> is emitted at most once; the callback of \<open>destroy\<close> completes at most once,
  and that is when the stream reports its error and emits \<open>close\<close>; afterwards a readable stream takes no
  more chunks and emits no \<open>end\<close>, and a writable stream accepts no chunk, passes none to \<open>_write\<close> and
  emits no \<open>finish\<close>. \<open>lifecycle_ok\<close> is the refinement, an interpretation of \<open>stream_laws\<close>.
\<close>

section \<open>The specification\<close>

record life =
  end_emitted :: bool
  closed :: bool

text \<open>One event in the life of a stream with a readable side (\<open>rd\<close>) and a writable side (\<open>wr\<close>).\<close>

fun life_step :: "bool \<Rightarrow> bool \<Rightarrow> obs \<Rightarrow> life \<Rightarrow> life option" where
  "life_step rd wr (Pushed c) l = (if rd \<and> closed l then None else Some l)"
| "life_step rd wr EmitEnd l = (if end_emitted l \<or> rd \<and> closed l then None else Some (l\<lparr>end_emitted := True\<rparr>))"
| "life_step rd wr (Accepted c) l = (if wr \<and> closed l then None else Some l)"
| "life_step rd wr (Started c) l = (if wr \<and> closed l then None else Some l)"
| "life_step rd wr EmitFinish l = (if wr \<and> closed l then None else Some l)"
| "life_step rd wr (Completed e) l = (if closed l then None else Some (l\<lparr>closed := True\<rparr>))"
| "life_step rd wr _ l = Some l"

fun life_run :: "bool \<Rightarrow> bool \<Rightarrow> obs list \<Rightarrow> life \<Rightarrow> life option" where
  "life_run rd wr [] l = Some l"
| "life_run rd wr (x # xs) l = (case life_step rd wr x l of None \<Rightarrow> None | Some l' \<Rightarrow> life_run rd wr xs l')"

definition newborn :: life where
  "newborn = \<lparr>end_emitted = False, closed = False\<rparr>"

section \<open>What a life looks like\<close>

text \<open>The events that can still come when the destruction has completed.\<close>

definition quiet_event :: "bool \<Rightarrow> bool \<Rightarrow> obs \<Rightarrow> bool" where
  "quiet_event rd wr x \<longleftrightarrow> (\<forall>e. x \<noteq> Completed e) \<and> (rd \<longrightarrow> (\<forall>c. x \<noteq> Pushed c) \<and> x \<noteq> EmitEnd) \<and>
     (wr \<longrightarrow> (\<forall>c. x \<noteq> Accepted c \<and> x \<noteq> Started c) \<and> x \<noteq> EmitFinish)"

lemma life_run_append:
  "life_run rd wr (h1 @ h2) l = (case life_run rd wr h1 l of None \<Rightarrow> None | Some l' \<Rightarrow> life_run rd wr h2 l')"
  by (induction h1 arbitrary: l) (auto split: option.splits)

lemma life_step_facts:
  assumes "life_step rd wr x l = Some l'"
  shows "closed l' \<longleftrightarrow> closed l \<or> (\<exists>e. x = Completed e)" "closed l \<Longrightarrow> quiet_event rd wr x"
    "(if x = EmitEnd then 1 else 0) + (if end_emitted l then 1 else 0) = (if end_emitted l' then 1 else (0::nat))"
  using assms by (cases x; auto simp: quiet_event_def split: if_splits)+

lemma life_closed_iff: "life_run rd wr h l = Some l' \<Longrightarrow> closed l' \<longleftrightarrow> closed l \<or> (\<exists>e. Completed e \<in> set h)"
  by (induction h arbitrary: l) (auto split: option.splits dest!: life_step_facts(1))

lemma life_ends_once:
  "life_run rd wr h l = Some l' \<Longrightarrow>
   length (filter (\<lambda>x. x = EmitEnd) h) + (if end_emitted l then 1 else 0) = (if end_emitted l' then 1 else 0)"
proof (induction h arbitrary: l)
  case (Cons x h)
  then obtain l1 where l1: "life_step rd wr x l = Some l1" "life_run rd wr h l1 = Some l'"
    by (auto split: option.splits)
  show ?case using life_step_facts(3) [OF l1(1)] Cons.IH [OF l1(2)] by (auto split: if_splits)
qed simp

lemma life_quiet: "life_run rd wr h l = Some l' \<Longrightarrow> closed l \<Longrightarrow> \<forall>x\<in>set h. quiet_event rd wr x"
proof (induction h arbitrary: l)
  case (Cons x h)
  then obtain l1 where l1: "life_step rd wr x l = Some l1" "life_run rd wr h l1 = Some l'"
    by (auto split: option.splits)
  then show ?case using life_step_facts(1,2) [OF l1(1)] Cons by auto
qed simp

lemma life_after_close:
  assumes "life_run rd wr (h1 @ Completed e # h2) l = Some l'"
  shows "(\<forall>e'. Completed e' \<notin> set h1) \<and> (\<forall>x\<in>set h2. quiet_event rd wr x)"
proof -
  obtain l1 l2 where "life_run rd wr h1 l = Some l1" "life_step rd wr (Completed e) l1 = Some l2" "life_run rd wr h2 l2 = Some l'"
    using assms by (auto simp: life_run_append split: option.splits)
  moreover from this have "\<not> closed l1" "closed l2" by (auto split: if_splits)
  ultimately show ?thesis using life_closed_iff life_quiet by blast
qed

section \<open>The invariant\<close>

definition lifecycle_ok :: "nat \<Rightarrow> stream \<Rightarrow> bool" where
  "lifecycle_ok t ob \<longleftrightarrow>
     life_run (has_r ob) (has_w ob) (history ob) newborn =
       Some \<lparr>end_emitted = r_endEmitted (rstate ob), closed = dcalled ob\<rparr> \<and>
     (r_endEmitted (rstate ob) \<longrightarrow> r_ended (rstate ob)) \<and>
     (has_r ob \<and> has_w ob \<longrightarrow> r_destroyed (rstate ob) = w_destroyed (wstate ob)) \<and>
     (dcalled ob \<longrightarrow> (has_r ob \<longrightarrow> r_destroyed (rstate ob)) \<and> (has_w ob \<longrightarrow> w_destroyed (wstate ob)))"

lemma life_run_snoc [simp]:
  "life_run rd wr (h @ [x]) l = (case life_run rd wr h l of None \<Rightarrow> None | Some l' \<Rightarrow> life_step rd wr x l')"
  by (induction h arbitrary: l) (auto split: option.splits)

lemma lifecycle_ok_new:
  "lifecycle_ok t (new_Readable opts)" "lifecycle_ok t (new_Writable opts)" "lifecycle_ok t (new_duplex_object opts)"
  "lifecycle_ok t bare_stream"
  by (simp_all add: lifecycle_ok_def new_Readable_def new_Writable_def new_duplex_object_def bare_stream_def
      initReadableState_def initWritableState_def newborn_def)

lemma lifecycle_ok_read_bytes: "lifecycle_ok t ob \<Longrightarrow> lifecycle_ok t (snd (read_bytes n ob))"
  by (cases "take_parts (r_buffer (rstate ob)) [] (Fin 0) n")
    (auto simp: lifecycle_ok_def read_bytes_def Let_def split: option.split sum.split)

lemma lifecycle_ok_read_take: "lifecycle_ok t ob \<Longrightarrow> lifecycle_ok t (snd (read_take n ob))"
  using lifecycle_ok_read_bytes [of t ob]
  by (cases n; cases "r_buffer (rstate ob)") (auto simp: lifecycle_ok_def read_take_def Let_def)

lemma lifecycle_ok_steps:
  "lifecycle_ok t ob \<Longrightarrow> lifecycle_ok t (snd (destroy_begin e ob))"
  "lifecycle_ok t ob \<Longrightarrow> lifecycle_ok t (destroy_clear ob)"
  "lifecycle_ok t ob \<Longrightarrow> lifecycle_ok t (snd (complete_begin e ob))"
  "lifecycle_ok t ob \<Longrightarrow> r_ended (rstate ob) \<Longrightarrow> lifecycle_ok t (snd (emitEnd_begin ob))"
  "lifecycle_ok t ob \<Longrightarrow> lifecycle_ok t (ob\<lparr>rstate := push_end (rstate ob)\<rparr>)"
  "lifecycle_ok t ob \<Longrightarrow> \<not> r_destroyed (rstate ob) \<Longrightarrow> lifecycle_ok t (push_chunk c ob)"
  "lifecycle_ok t ob \<Longrightarrow> lifecycle_ok t (unshift_chunk c ob)"
  "lifecycle_ok t ob \<Longrightarrow> lifecycle_ok t (snd (flow_shift ob))"
  by (auto simp: lifecycle_ok_def destroy_begin_def destroy_r_def destroy_w_def already_destroyed_def destroy_clear_def
      complete_begin_def set_errored_def emitEnd_begin_def push_end_def push_chunk_def unshift_chunk_def
      flow_shift_def Let_def split: list.split)

lemma lifecycle_ok_write_steps:
  "lifecycle_ok t ob \<Longrightarrow> lifecycle_ok t (snd (finish_begin ob))"
  "lifecycle_ok t ob \<Longrightarrow> lifecycle_ok t (snd (final_begin ob))"
  "lifecycle_ok t ob \<Longrightarrow> lifecycle_ok t (snd (final_called k ob))"
  "lifecycle_ok t ob \<Longrightarrow> lifecycle_ok t (snd (doWrite_begin ob))"
  "lifecycle_ok t ob \<Longrightarrow> lifecycle_ok t (snd (onwrite_begin k ob))"
  "lifecycle_ok t ob \<Longrightarrow> \<not> w_destroyed (wstate ob) \<Longrightarrow> lifecycle_ok t (snd (accept_item i ob))"
  "lifecycle_ok t ob \<Longrightarrow> lifecycle_ok t (set_ended ob)"
  "lifecycle_ok t ob \<Longrightarrow> lifecycle_ok t (ob\<lparr>wstate := (wstate ob)\<lparr>w_corked := n\<rparr>\<rparr>)"
  "lifecycle_ok t ob \<Longrightarrow> lifecycle_ok t (snd (uncork_begin ob))"
  by (auto simp: lifecycle_ok_def finish_begin_def final_begin_def final_called_def doWrite_begin_def
      onwrite_begin_def accept_item_def set_ended_def uncork_begin_def Let_def split: list.split option.split)

interpretation lifecycle: stream_laws lifecycle_ok
proof unfold_locales
  show "lifecycle_ok t ob'" if "lifecycle_ok t ob" "same_core ob ob'" for t ob ob'
    using that by (simp add: lifecycle_ok_def same_core_def)
qed (simp_all add: lifecycle_ok_new lifecycle_ok_steps lifecycle_ok_write_steps lifecycle_ok_read_take)

end
