(* ===== verification/Flow_Spec.thy ===== *)
theory Flow_Spec
  imports Stream_Client
begin

text \<open>
  The loop of \<open>_flow\<close> ends: a stream in flowing mode whose source has ended gives every chunk it holds to each
  listener of \<open>data\<close> and then calls each listener of \<open>end\<close>, when these return. Each round of the loop is one level of
  calls, so fuel one above the number of chunks is enough. What the listeners are given is seen in the variables of
  the program: a listener changes them by a function of its arguments.
\<close>

text \<open>A listener that only looks: it returns and leaves the world as it is.\<close>

definition observer :: "outside \<Rightarrow> closure \<Rightarrow> bool" where
  "observer U c \<longleftrightarrow> (\<forall>n t a w. \<exists>v. call_fuel U (Suc n) c t a w = (Return v, w))"

declare call_fuel.simps [simp del]

lemma for_observers:
  "list_all (observer U) ls \<Longrightarrow> js_for ls (\<lambda>l. call_fuel U (Suc n) l t a) w = (Return (), w)"
proof (induction ls)
  case (Cons l ls)
  then obtain v where "call_fuel U (Suc n) l t a w = (Return v, w)" unfolding observer_def by fastforce
  with Cons show ?case by (simp add: js_defs)
qed (simp add: js_defs)

lemma emit_observers:
  assumes "list_all (observer U) (ev_list (emitter (heap w s)) ev)" and "ev \<noteq> EvError"
  shows "\<exists>b. emit (rt_fuel U (Suc n)) s ev a w = (Return b, w)"
  using assms for_observers [OF assms(1), where n = n and t = "VStream s" and a = a and w = w]
  by (auto simp: emit_def emitter_emit_def js_bind_def js_seq_def js_get_def js_ret_def rt_fuel_def make_rt_def
      split: list.split)

text \<open>A listener that returns and changes the variables of the program, and nothing else, by a function of its arguments.\<close>

definition watcher :: "outside \<Rightarrow> closure \<Rightarrow> (val list \<Rightarrow> (nat \<Rightarrow> val) \<Rightarrow> nat \<Rightarrow> val) \<Rightarrow> bool" where
  "watcher U c g \<longleftrightarrow> (\<forall>n t a w. \<exists>v. call_fuel U (Suc n) c t a w = (Return v, w\<lparr>vars := g a (vars w)\<rparr>))"

lemma observer_watcher: "observer U c \<longleftrightarrow> watcher U c (\<lambda>a V. V)"
  by (simp add: observer_def watcher_def)

lemma for_watchers:
  "list_all2 (watcher U) ls gs \<Longrightarrow>
   js_for ls (\<lambda>l. call_fuel U (Suc n) l t a) w = (Return (), w\<lparr>vars := fold (\<lambda>g. g a) gs (vars w)\<rparr>)"
proof (induction ls arbitrary: gs w)
  case (Cons l ls)
  then obtain g hs where gs: "gs = g # hs" "watcher U l g" "list_all2 (watcher U) ls hs"
    by (auto simp: list_all2_Cons1)
  then obtain v where "call_fuel U (Suc n) l t a w = (Return v, w\<lparr>vars := g a (vars w)\<rparr>)"
    unfolding watcher_def by fastforce
  with gs Cons.IH [OF gs(3)] show ?case by (simp add: js_defs)
qed (simp add: js_defs)

lemma emit_watchers:
  assumes "list_all2 (watcher U) (ev_list (emitter (heap w s)) ev) gs" and "ev \<noteq> EvError"
  shows "\<exists>b. emit (rt_fuel U (Suc n)) s ev a w = (Return b, w\<lparr>vars := fold (\<lambda>g. g a) gs (vars w)\<rparr>)"
  using assms for_watchers [OF assms(1), where n = n and t = "VStream s" and a = a and w = w]
  by (auto simp: emit_def emitter_emit_def js_bind_def js_seq_def js_get_def js_ret_def rt_fuel_def make_rt_def
      split: list.split)

text \<open>A stream that flows to its end: nobody pauses it, its source has ended, and its listeners of \<open>data\<close> and of \<open>end\<close> are
  watchers with the given functions.\<close>

type_synonym effects = "(val list \<Rightarrow> (nat \<Rightarrow> val) \<Rightarrow> nat \<Rightarrow> val) list"

definition flowing_out :: "outside \<Rightarrow> effects \<Rightarrow> effects \<Rightarrow> stream \<Rightarrow> bool" where
  "flowing_out U ds es ob \<longleftrightarrow> r_flowing (rstate ob) = Some True \<and> \<not> r_destroyed (rstate ob) \<and> r_ended (rstate ob) \<and>
     \<not> r_endEmitted (rstate ob) \<and> \<not> truthy (r_encoding (rstate ob)) \<and>
     list_all2 (watcher U) (ev_list (emitter ob) EvData) ds \<and> list_all2 (watcher U) (ev_list (emitter ob) EvEnd) es"

text \<open>What the variables are when each chunk was given to all listeners of \<open>data\<close>, in order, and then those of \<open>end\<close> were called.\<close>

definition told :: "effects \<Rightarrow> effects \<Rightarrow> val list \<Rightarrow> (nat \<Rightarrow> val) \<Rightarrow> nat \<Rightarrow> val" where
  "told ds es cs V = fold (\<lambda>g. g []) es (fold (\<lambda>c. fold (\<lambda>g. g [c]) ds) cs V)"

text \<open>The loop takes one chunk after the other and then ends the stream.\<close>

definition flowed_out :: "effects \<Rightarrow> effects \<Rightarrow> nat \<Rightarrow> world \<Rightarrow> world \<Rightarrow> bool" where
  "flowed_out ds es s w w' \<longleftrightarrow> r_buffer (rstate (heap w' s)) = [] \<and> r_endEmitted (rstate (heap w' s)) \<and>
     history (heap w' s) = history (heap w s) @ map Delivered (r_buffer (rstate (heap w s))) @ [EmitEnd] \<and>
     vars w' = told ds es (r_buffer (rstate (heap w s))) (vars w)"

lemma flow_chunk:
  assumes "flowing_out U ds es (heap w s)" and "r_buffer (rstate (heap w s)) \<noteq> []"
  shows "flow R s w = js_seq (emit R s EvData [fst (flow_shift (heap w s))])
     (js_seq (rt_call R (FlowLoop s) VUndef []) (js_ret ())) (w\<lparr>heap := (heap w)(s := snd (flow_shift (heap w s)))\<rparr>)"
  using assms by (simp add: flowing_out_def flow_def js_bind_def get_obj_def js_get_def step_obj_def js_step_def js_ret_def)

lemma flow_last:
  assumes "flowing_out U ds es (heap w s)" and "r_buffer (rstate (heap w s)) = []"
  shows "\<exists>w'. flow (rt_fuel U (Suc n)) s w = (Return (), w') \<and> flowed_out ds es s w w'"
proof -
  define w1 where "w1 = w\<lparr>heap := (heap w)(s := snd (emitEnd_begin (heap w s)))\<rparr>"
  define w2 where "w2 = w1\<lparr>vars := fold (\<lambda>g. g []) es (vars w1)\<rparr>"
  have "list_all2 (watcher U) (ev_list (emitter (heap w1 s)) EvEnd) es"
    using assms(1) by (simp add: flowing_out_def w1_def emitEnd_begin_def)
  then obtain b where "emit (rt_fuel U (Suc n)) s EvEnd [] w1 = (Return b, w2)"
    unfolding w2_def using emit_watchers by blast
  then have "flow (rt_fuel U (Suc n)) s w = autoDestroy s w2"
    using assms by (simp add: flow_def emitEnd_def js_bind_def js_seq_def get_obj_def js_get_def step_obj_def js_step_def
        flowing_out_def w1_def emitEnd_begin_def)
  moreover have "flowed_out ds es s w w2"
    using assms by (simp add: flowed_out_def w2_def w1_def emitEnd_begin_def flowing_out_def told_def)
  ultimately show ?thesis
    by (auto simp: autoDestroy_def js_bind_def get_obj_def js_get_def js_ret_def schedule_def js_mod_def flowed_out_def)
qed

lemma flow_runs_out:
  assumes "flowing_out U ds es (heap w s)" and "length (r_buffer (rstate (heap w s))) \<le> n"
  shows "\<exists>w'. flow (rt_fuel U (Suc n)) s w = (Return (), w') \<and> flowed_out ds es s w w'"
  using assms
proof (induction n arbitrary: w)
  case 0
  then show ?case by (intro flow_last) auto
next
  case (Suc n)
  show ?case
  proof (cases "r_buffer (rstate (heap w s)) = []")
    case False
    define w1 where "w1 = w\<lparr>heap := (heap w)(s := snd (flow_shift (heap w s)))\<rparr>"
    obtain c rest where buf: "r_buffer (rstate (heap w s)) = c # rest" using False by (cases "r_buffer (rstate (heap w s))") auto
    define w2 where "w2 = w1\<lparr>vars := fold (\<lambda>g. g [c]) ds (vars w1)\<rparr>"
    have w2: "flowing_out U ds es (heap w2 s)" "r_buffer (rstate (heap w2 s)) = rest"
      "history (heap w2 s) = history (heap w s) @ [Delivered c]"
      using Suc.prems(1) buf by (simp_all add: w2_def w1_def flow_shift_def flowing_out_def Let_def)
    then obtain w' where w': "flow (rt_fuel U (Suc n)) s w2 = (Return (), w')" "flowed_out ds es s w2 w'"
      using Suc.IH [of w2] Suc.prems(2) buf by auto
    have data: "list_all2 (watcher U) (ev_list (emitter (heap w1 s)) EvData) ds"
      using w2(1) by (simp add: flowing_out_def w2_def)
    have "fst (flow_shift (heap w s)) = c"
      by (simp add: flow_shift_def buf Let_def)
    then obtain b where "emit (rt_fuel U (Suc (Suc n))) s EvData [fst (flow_shift (heap w s))] w1 = (Return b, w2)"
      using emit_watchers [OF data, of "Suc n" "[c]"] by (auto simp: w2_def)
    moreover have "rt_call (rt_fuel U (Suc (Suc n))) (FlowLoop s) VUndef [] w2 = (Return VUndef, w')"
      using w'(1) by (simp add: rt_fuel_def make_rt_def call_fuel.simps js_val_def js_bind_def js_ret_def)
    ultimately have "flow (rt_fuel U (Suc (Suc n))) s w = (Return (), w')"
      using flow_chunk [OF Suc.prems(1) False] by (simp add: w1_def [symmetric] js_seq_def js_bind_def js_ret_def)
    moreover have "flowed_out ds es s w w'"
      using w'(2) w2(2,3) buf by (simp add: flowed_out_def told_def) (simp add: w2_def w1_def)
    ultimately show ?thesis by blast
  qed (use Suc.prems(1) flow_last in blast)
qed

end
