(* ===== verification/Stream_Eval.thy ===== *)
theory Stream_Eval
  imports Stream_Client
begin

text \<open>
  Evaluation of concrete programs by the simplifier: the equations of the model as one collection, the
  unfolding of fuel, and the small programs the witnesses run. Every world a program and the task queue
  lead to from the start is reachable.
\<close>

section \<open>Evaluation\<close>

text \<open>
  The simplifier works on the arguments of a function first, under binders too. Code is left alone
  until it meets the world it runs in: the congruence rules below keep the simplifier out of the code
  that is still to run.
\<close>

definition run_bind :: "('e, 'a) outcome \<times> 's \<Rightarrow> ('a \<Rightarrow> ('s, 'e, 'b) js) \<Rightarrow> ('e, 'b) outcome \<times> 's" where
  "run_bind p k = (case p of (Return x, w) \<Rightarrow> k x w | (Throw e, w) \<Rightarrow> (Throw e, w) | (Stuck, w) \<Rightarrow> (Stuck, w))"

definition run_catch :: "('e, 'a) outcome \<times> 's \<Rightarrow> ('e \<Rightarrow> ('s, 'e, 'a) js) \<Rightarrow> ('e, 'a) outcome \<times> 's" where
  "run_catch p h = (case p of (Return x, w) \<Rightarrow> (Return x, w) | (Throw e, w) \<Rightarrow> h e w | (Stuck, w) \<Rightarrow> (Stuck, w))"

definition run_do :: "rt \<Rightarrow> (val, val) outcome \<times> world \<Rightarrow> (val \<Rightarrow> program) \<Rightarrow> (val \<Rightarrow> program) \<Rightarrow> (val, val) outcome \<times> world" where
  "run_do R p k h = (case p of (Return v, w) \<Rightarrow> run_program R (k v) w | (Throw e, w) \<Rightarrow> run_program R (h e) w
     | (Stuck, w) \<Rightarrow> (Stuck, w))"

definition run_report :: "('e, 'a) outcome \<times> world \<Rightarrow> ('e \<Rightarrow> val) \<Rightarrow> world" where
  "run_report p f = (case p of (Throw e, w) \<Rightarrow> w\<lparr>uncaught := uncaught w @ [f e]\<rparr> | (_, w) \<Rightarrow> w)"

lemma run_simps:
  "run_bind (Return x, w) k = k x w" "run_bind (Throw e, w) k = (Throw e, w)" "run_bind (Stuck, w) k = (Stuck, w)"
  "run_catch (Return y, w) h = (Return y, w)" "run_catch (Throw e, w) h = h e w" "run_catch (Stuck, w) h = (Stuck, w)"
  "run_do R (Return v, w') kk hh = run_program R (kk v) w'" "run_do R (Throw u, w') kk hh = run_program R (hh u) w'"
  "run_do R (Stuck, w') kk hh = (Stuck, w')"
  "run_report (Return z, w') g = w'" "run_report (Throw d, w') g = w'\<lparr>uncaught := uncaught w' @ [g d]\<rparr>"
  "run_report (Stuck, w') g = w'"
  by (simp_all add: run_bind_def run_catch_def run_do_def run_report_def)

lemma run_code:
  "js_bind m k w = run_bind (m w) k"
  "js_seq m n w = run_bind (m w) (\<lambda>_. n)"
  "js_catch m h w = run_catch (m w) h"
  "js_val u f v = run_bind (u v) (\<lambda>x. js_ret (f x))"
  "js_when True c = c" "js_when False c = js_ret ()"
  "run_program R (Do a kk hh) v = run_do R (run_api R a v) kk hh"
  "report q v = run_report (q v) (\<lambda>e. e)"
  by (simp_all add: run_bind_def run_catch_def run_do_def run_report_def js_bind_def js_seq_def js_catch_def
      js_val_def js_when_def report_def)

lemma run_cong:
  "js_bind m k = js_bind m k"
  "js_seq m n = js_seq m n"
  "js_catch m h = js_catch m h"
  "js_val u f = js_val u f"
  "b = b' \<Longrightarrow> js_when b c = js_when b' c"
  "method_of p s r = method_of p s r"
  "on_this t g = on_this t g"
  "q = q' \<Longrightarrow> run_bind q k = run_bind q' k"
  "z = z' \<Longrightarrow> run_catch z h = run_catch z' h"
  "y = y' \<Longrightarrow> run_do R y kk hh = run_do R y' kk hh"
  "x = x' \<Longrightarrow> run_report x ff = run_report x' ff"
  "xs = xs' \<Longrightarrow> js_for xs l = js_for xs' l"
  by simp_all

lemma call_fuel_numeral [simp]:
  "call_fuel U (numeral k) c t args = dispatch (user U) (make_rt U (call_fuel U (pred_numeral k))) c t args"
  by (simp add: numeral_eq_Suc)

lemma run_ticks_numeral [simp]:
  "run_ticks U n (numeral k) w = (if ticks w = [] then w else run_ticks U n (pred_numeral k) (run_tick U n w))"
  by (simp add: numeral_eq_Suc)

lemmas world_eval = run_simps run_code run_main_def rt_fuel_def make_rt_def run_tick_def start_world_def
  method_of_def on_this_def get_obj_def step_obj_def mod_obj_def mod_r_def mod_w_def fresh_id_def schedule_def
  call_val_def arg_def Let_def js_ret_def js_throw_def js_stuck_def js_get_def js_step_def js_mod_def

lemmas object_eval = alloc_def bare_stream_def no_options_def new_Readable_def new_Writable_def initReadableState_def
  initWritableState_def init_tstate_def pick_hwm_def pick_hook_def defaultHighWaterMark_def new_duplex_object_def
  new_Duplex_def new_transform_object_def new_Transform_def new_PassThrough_def close_half_def emitter_new_def

lemmas value_eval = nullish_def is_function_def is_bytes_def typeof_object_def typeof_number_def chunkLength_def
  toBuffer_def concatBuffers_def set_bytes_def unheard_error_def inner_listener_def

lemmas event_eval = emit_def emitter_emit_def ev_list_def emitter_on_def
  emitter_removeListener_def base_on_def base_removeListener_def stream_on_def stream_once_def
  listener_added_def stream_removeListener_def run_once_wrapper_def

lemmas destroy_eval = destroy_def destroy_begin_def already_destroyed_def is_destroyed_def destroy_r_def destroy_w_def
  fail_writes_def fail_pending_def fail_item_def destroy_clear_def call_destroy_hook_def complete_destroy_def
  complete_begin_def set_errored_def autoDestroy_def tick_autoDestroy_def

lemmas read_eval = push_def byte_chunk_def push_chunk_def push_end_def emitEnd_def emitEnd_begin_def maybeRead_def
  emitReadable_def tick_readable_def unshift_def unshift_chunk_def read_def read_size_bad_def size_arg_def
  read_nothing_def read_chunk_def read_buffer_def read_take_def read_bytes_def cut_parts_def join_parts_def
  flow_def flow_shift_def tick_flow_def scheduleFlow_def pause_def resume_def isPaused_def setEncoding_def

lemmas write_eval = write_stream_def write_chunk_def queue_item_def accept_item_def write_result_def doWrite_def
  doWrite_begin_def onwrite_def onwrite_begin_def drain_begin_def maybeFinish_def may_finish_def final_begin_def
  finalDone_def final_called_def complete_finish_def finish_begin_def end_writing_def end_now_def set_ended_def
  cork_def uncork_def uncork_begin_def tick_errored_def setDefaultEncoding_def

lemmas pipe_eval = pipe_to_def pipe_handle_def pipe_ondata_def pipe_onend_def pipe_ondrain_def unpipe_def
  unpipe_loop_def unpipeOne_def

lemmas js_eval = world_eval object_eval value_eval event_eval destroy_eval read_eval write_eval pipe_eval

section \<open>Programs\<close>

text \<open>One operation after the other; an exception ends the program.\<close>

primrec run_list :: "api list \<Rightarrow> program" where
  "run_list [] = Finish VUndef"
| "run_list (a # as) = Do a (\<lambda>_. run_list as) Raise"

text \<open>An outside with the one-byte coder and the given functions.\<close>

definition latin1 :: "(nat \<Rightarrow> val list \<Rightarrow> program) \<Rightarrow> outside" where
  "latin1 f = \<lparr>user = f, decode = (\<lambda>s e. map (\<lambda>c. of_nat (of_char c)) s),
     encode = (\<lambda>b e. map (\<lambda>x. char_of (unat x)) b)\<rparr>"

lemma reachable_ticks: "reachable U w \<Longrightarrow> reachable U (run_ticks U n k w)"
proof (induction k arbitrary: w)
  case (Suc k)
  then show ?case by (auto intro: reachable.next_step step.tick)
qed simp

lemma reachable_main: "reachable U w \<Longrightarrow> reachable U (run_main U n k p w)"
  unfolding run_main_def by (blast intro: reachable_ticks reachable.next_step step.enter)

lemma reachable_first: "reachable U (run_main U n k p start_world)"
  by (rule reachable_main, rule reachable.start)

end
