(* ===== verification/Stream_Properties.thy ===== *)
theory Stream_Properties
  imports Readable_Spec Writable_Spec Lifecycle_Spec Flow_Spec Stream_Eval
begin

text \<open>
  The properties of the stream module. Those about \<open>reachable\<close> worlds hold after any sequence of program
  parts and queued tasks, for any functions the program passes as listeners, hooks and callbacks; the
  functions may call back into the module at any point. The last section runs small programs on which
  the module does not do what it should.
\<close>

section \<open>Readable streams\<close>

primrec pushed :: "obs list \<Rightarrow> val list" where
  "pushed [] = []"
| "pushed (x # xs) = (case x of Pushed c \<Rightarrow> [c] | _ \<Rightarrow> []) @ pushed xs"

primrec delivered :: "obs list \<Rightarrow> val list" where
  "delivered [] = []"
| "delivered (x # xs) = (case x of Delivered c \<Rightarrow> [c] | _ \<Rightarrow> []) @ delivered xs"

definition no_unshift :: "obs list \<Rightarrow> bool" where
  "no_unshift h = list_all (\<lambda>x. case x of Unshifted c \<Rightarrow> False | _ \<Rightarrow> True) h"

lemma deque_step_order:
  "deque_step om x q = Some q' \<Longrightarrow> no_unshift [x] \<Longrightarrow> q @ flat om (pushed [x]) = flat om (delivered [x]) @ q'"
  by (cases x) (auto simp: no_unshift_def split: if_splits, metis append_take_drop_id)

lemma pushed_Cons: "pushed (x # h) = pushed [x] @ pushed h" "delivered (x # h) = delivered [x] @ delivered h"
  by simp_all

lemma deque_without_unshift:
  "deque_run om h q = Some q' \<Longrightarrow> no_unshift h \<Longrightarrow> q @ flat om (pushed h) = flat om (delivered h) @ q'"
proof (induction h arbitrary: q)
  case (Cons x h)
  then obtain q1 where q1: "deque_step om x q = Some q1" "deque_run om h q1 = Some q'"
    by (auto split: option.splits)
  moreover have "no_unshift [x]" "no_unshift h" using Cons.prems(2) by (auto simp: no_unshift_def)
  ultimately have "q @ flat om (pushed [x]) = flat om (delivered [x]) @ q1"
    "q1 @ flat om (pushed h) = flat om (delivered h) @ q'"
    using deque_step_order Cons.IH by blast+
  then show ?case unfolding pushed_Cons [of x h] flat_simps by (metis append.assoc)
qed simp

text \<open>The program of the witnesses: it pushes five bytes and reads the first two.\<close>

definition read_two :: world where
  "read_two = run_main (latin1 (\<lambda>n a. Finish VUndef)) 20 20
     (run_list [NewReadable no_options, Push 0 (VBuf [1, 2, 3]) VUndef, Push 0 (VBuf [4, 5]) VUndef,
        Read 0 (VNum (Fin 2))]) start_world"

lemma reachable_read_two: "reachable (latin1 (\<lambda>n a. Finish VUndef)) read_two"
  unfolding read_two_def by (rule reachable_first)

lemma read_two_state:
  "history (heap read_two 0) = [Pushed (VBuf [1, 2, 3]), Pushed (VBuf [4, 5]), Delivered (VBuf [1, 2])]"
  "r_buffer (rstate (heap read_two 0)) = [VBuf [3], VBuf [4, 5]]"
  "r_objectMode (rstate (heap read_two 0)) = False"
  by (simp_all add: read_two_def latin1_def js_eval cong: run_cong)

text \<open>C1: The buffer of a readable stream is a deque. In every reachable world, if every chunk given to
  \<open>push\<close> or \<open>unshift\<close> was a byte array (or the stream is in object mode), then replaying the stream's
  events on a deque of units succeeds: each chunk taken out was at the front, \<open>end\<close> was emitted with the
  deque empty, what is left is the buffer, and \<open>readableLength\<close> is its size.\<close>

theorem readable_refines_deque:
  assumes "reachable U w" and "chunks_ok (r_objectMode (rstate (heap w s))) (history (heap w s))"
  shows "deque_run (r_objectMode (rstate (heap w s))) (history (heap w s)) [] =
       Some (flat (r_objectMode (rstate (heap w s))) (r_buffer (rstate (heap w s)))) \<and>
     r_length (rstate (heap w s)) =
       Fin (int (length (flat (r_objectMode (rstate (heap w s))) (r_buffer (rstate (heap w s))))))"
  using reachable_invariant [OF readable.stream_laws_axioms readable_ok_new(4) assms(1), of s] assms(2)
  by (simp add: readable_ok_def Let_def)

theorem readable_refines_deque_witness:
  "deque_run False [Pushed (VBuf [1, 2, 3]), Pushed (VBuf [4, 5]), Delivered (VBuf [1, 2])] [] =
     Some [VBuf [3], VBuf [4], VBuf [5]] \<and> r_length (rstate (heap read_two 0)) = Fin 3"
  using readable_refines_deque [OF reachable_read_two, of 0]
  by (simp add: read_two_state flat_def units_def chunks_ok_def chunk_ok_def is_bytes_def)

text \<open>No data is lost, duplicated or reordered. In every reachable world, what was pushed so far is what
  was taken out so far, by \<open>read\<close> or by flowing, followed by what is still in the buffer: byte for byte
  in byte mode, object for object in object mode. (Unless the program put chunks back with
  \<open>unshift\<close>.)\<close>

theorem pushed_data_arrives_in_order:
  assumes "reachable U w" and "chunks_ok (r_objectMode (rstate (heap w s))) (history (heap w s))"
    and "no_unshift (history (heap w s))"
  shows "flat (r_objectMode (rstate (heap w s))) (pushed (history (heap w s))) =
     flat (r_objectMode (rstate (heap w s))) (delivered (history (heap w s))) @
     flat (r_objectMode (rstate (heap w s))) (r_buffer (rstate (heap w s)))"
  using reachable_invariant [OF readable.stream_laws_axioms readable_ok_new(4) assms(1), of s] assms(2,3)
    deque_without_unshift [of "r_objectMode (rstate (heap w s))" "history (heap w s)" "[]"]
  by (simp add: readable_ok_def Let_def)

theorem pushed_data_arrives_in_order_witness:
  "flat False [VBuf [1, 2, 3], VBuf [4, 5]] = flat False [VBuf [1, 2]] @ flat False (r_buffer (rstate (heap read_two 0)))"
  using pushed_data_arrives_in_order [OF reachable_read_two, of 0]
  by (simp add: read_two_state chunks_ok_def chunk_ok_def is_bytes_def no_unshift_def)

text \<open>C6: \<open>read(n)\<close> with \<open>n > 0\<close> on a byte stream with a buffer returns exactly the first \<open>n\<close> bytes (all of
  them if there are fewer) whatever the cuts between the buffered chunks are, leaves exactly the other
  bytes in the buffer, and lowers \<open>readableLength\<close> by what it returned.\<close>

theorem read_takes_first_bytes:
  assumes "\<not> r_objectMode (rstate ob)" and "r_buffer (rstate ob) \<noteq> []" and "0 < n"
    and "list_all is_bytes (r_buffer (rstate ob))"
  shows "\<exists>c ob'. read_take (Some n) ob = (Inr c, ob') \<and> is_bytes c \<and>
     bytes_of c = take (nat n) (buffer_bytes (r_buffer (rstate ob))) \<and>
     buffer_bytes (r_buffer (rstate ob')) = drop (nat n) (buffer_bytes (r_buffer (rstate ob))) \<and>
     r_length (rstate ob') = num_sub (r_length (rstate ob)) (Fin (int (length (bytes_of c))))"
proof -
  have "read_take (Some n) ob = read_bytes n ob"
    using assms(1,2) by (cases "r_buffer (rstate ob)") (simp_all add: read_take_def Let_def)
  then show ?thesis using read_bytes_correct [OF assms(2-4)] by auto
qed

theorem read_takes_first_bytes_witness:
  "\<exists>c ob'. read_take (Some 4) (bare_stream\<lparr>rstate := (rstate bare_stream)\<lparr>r_buffer := [VBuf [1, 2], VU8 [3], VBuf [4, 5]]\<rparr>\<rparr>)
     = (Inr c, ob') \<and> bytes_of c = [1, 2, 3, 4] \<and> buffer_bytes (r_buffer (rstate ob')) = [5]"
  using read_takes_first_bytes [of "bare_stream\<lparr>rstate := (rstate bare_stream)\<lparr>r_buffer := [VBuf [1, 2], VU8 [3], VBuf [4, 5]]\<rparr>\<rparr>" 4]
  by (simp add: bare_stream_def initReadableState_def no_options_def is_bytes_def) blast

text \<open>C4: The task that flows a stream ends and hands out everything to everybody. When the stream is flowing, has no
  encoding, its source has ended and its listeners of \<open>data\<close> and \<open>end\<close> return and touch nothing but the variables of the
  program, the task returns normally, for any number of buffered chunks (the depth of calls needed is two above that number); the variables
  are then those after each chunk, in order, was given to every listener of \<open>data\<close> once, and after that every listener of
  \<open>end\<close> was called once; and the buffer is empty.\<close>

theorem flow_delivers_all_and_ends:
  assumes "flowing_out U ds es (heap w s)" and "length (r_buffer (rstate (heap w s))) \<le> n"
  shows "\<exists>w'. call_fuel U (Suc (Suc n)) (TickFlow s) t a w = (Return VUndef, w') \<and>
     vars w' = fold (\<lambda>g. g []) es (fold (\<lambda>c. fold (\<lambda>g. g [c]) ds) (r_buffer (rstate (heap w s))) (vars w)) \<and>
     r_buffer (rstate (heap w' s)) = [] \<and> r_endEmitted (rstate (heap w' s)) \<and>
     history (heap w' s) = history (heap w s) @ map Delivered (r_buffer (rstate (heap w s))) @ [EmitEnd]"
proof -
  define w1 where "w1 = w\<lparr>heap := (heap w)(s := (heap w s)\<lparr>rstate := (rstate (heap w s))\<lparr>r_flowScheduled := False\<rparr>\<rparr>)\<rparr>"
  have "flowing_out U ds es (heap w1 s)" "length (r_buffer (rstate (heap w1 s))) \<le> n"
    using assms by (simp_all add: w1_def flowing_out_def)
  then obtain w' where "flow (rt_fuel U (Suc n)) s w1 = (Return (), w')" "flowed_out ds es s w1 w'"
    using flow_runs_out by blast
  then show ?thesis
    by (auto simp: call_fuel.simps(2) [of U "Suc n"] tick_flow_def js_val_def js_seq_def js_bind_def mod_r_def mod_obj_def js_mod_def
        js_ret_def flowed_out_def told_def w1_def rt_fuel_def)
qed

text \<open>A stream with two chunks, and a function that appends its arguments to a variable, as listener of both events.\<close>

definition record_call :: "val list \<Rightarrow> (nat \<Rightarrow> val) \<Rightarrow> nat \<Rightarrow> val" where
  "record_call a V = V(0 := VArr ((case V 0 of VArr xs \<Rightarrow> xs | _ \<Rightarrow> []) @ [VArr a]))"

definition recording :: outside where
  "recording = latin1 (\<lambda>n a. Do (GetVar 0) (\<lambda>v. Do (SetVar 0 (VArr ((case v of VArr xs \<Rightarrow> xs | _ \<Rightarrow> []) @ [VArr (tl a)]))) Finish Raise) Raise)"

lemma recording_watcher: "watcher recording (User k) record_call"
  by (simp add: watcher_def call_fuel.simps recording_def latin1_def js_ret_def js_get_def js_val_def js_mod_def js_bind_def
      record_call_def)

definition about_to_flow :: stream where
  "about_to_flow = (new_Readable no_options)\<lparr>
     rstate := (initReadableState no_options)\<lparr>r_buffer := [VBuf [1], VBuf [2]], r_length := Fin 2, r_ended := True,
       r_flowing := Some True\<rparr>,
     emitter := emitter_on (emitter_on emitter_new EvData (User 0)) EvEnd (User 1)\<rparr>"

theorem flow_delivers_all_and_ends_witness:
  "\<exists>w'. call_fuel recording 4 (TickFlow 0) VUndef []
       (start_world\<lparr>heap := (\<lambda>_. bare_stream)(0 := about_to_flow), next_stream := 1\<rparr>) = (Return VUndef, w') \<and>
     vars w' 0 = VArr [VArr [VBuf [1]], VArr [VBuf [2]], VArr []] \<and> r_buffer (rstate (heap w' 0)) = []"
proof -
  have flows: "flowing_out recording [record_call] [record_call] about_to_flow"
    by (simp add: flowing_out_def about_to_flow_def new_Readable_def bare_stream_def initReadableState_def no_options_def
        emitter_on_def emitter_new_def ev_list_def recording_watcher)
  have h: "r_buffer (rstate about_to_flow) = [VBuf [1], VBuf [2]]"
    by (simp add: about_to_flow_def)
  from flows h show ?thesis
    using flow_delivers_all_and_ends [of recording "[record_call]" "[record_call]"
        "start_world\<lparr>heap := (\<lambda>_. bare_stream)(0 := about_to_flow), next_stream := 1\<rparr>" 0 2 VUndef "[]"]
    by (auto simp: numeral_eq_Suc record_call_def start_world_def)
qed

section \<open>Writable streams\<close>

primrec accepted :: "obs list \<Rightarrow> val list" where
  "accepted [] = []"
| "accepted (x # xs) = (case x of Accepted c \<Rightarrow> [c] | _ \<Rightarrow> []) @ accepted xs"

primrec written :: "obs list \<Rightarrow> val list" where
  "written [] = []"
| "written (x # xs) = (case x of Wrote c \<Rightarrow> [c] | _ \<Rightarrow> []) @ written xs"

definition unwritten :: "writer \<Rightarrow> val list" where
  "unwritten wr = (case in_progress wr of None \<Rightarrow> [] | Some c \<Rightarrow> [c]) @ waiting wr"

lemma writer_step_order:
  "writer_step x wr = Some wr' \<Longrightarrow> unwritten wr @ accepted [x] = written [x] @ unwritten wr'"
  by (cases x; cases "waiting wr") (auto simp: unwritten_def split: if_splits)

lemma accepted_Cons: "accepted (x # h) = accepted [x] @ accepted h" "written (x # h) = written [x] @ written h"
  by simp_all

lemma writer_order: "writer_run h wr = Some wr' \<Longrightarrow> unwritten wr @ accepted h = written h @ unwritten wr'"
proof (induction h arbitrary: wr)
  case (Cons x h)
  then obtain wr1 where "writer_step x wr = Some wr1" "writer_run h wr1 = Some wr'"
    by (auto split: option.splits)
  then have "unwritten wr @ accepted [x] = written [x] @ unwritten wr1" "unwritten wr1 @ accepted h = written h @ unwritten wr'"
    using writer_step_order Cons.IH by blast+
  then show ?case unfolding accepted_Cons [of x h] by (metis append.assoc)
qed simp

lemma writer_step_finished:
  "writer_step x wr = Some wr' \<Longrightarrow> finish_emitted wr \<longrightarrow> unwritten wr = [] \<Longrightarrow>
   finish_emitted wr' = (finish_emitted wr \<or> x = EmitFinish) \<and> (finish_emitted wr' \<longrightarrow> unwritten wr' = [])"
  by (cases x) (auto simp: unwritten_def split: if_splits)

lemma writer_finished:
  "writer_run h wr = Some wr' \<Longrightarrow> finish_emitted wr \<longrightarrow> unwritten wr = [] \<Longrightarrow>
   finish_emitted wr' = (finish_emitted wr \<or> EmitFinish \<in> set h) \<and> (finish_emitted wr' \<longrightarrow> unwritten wr' = [])"
proof (induction h arbitrary: wr)
  case (Cons x h)
  then obtain wr1 where "writer_step x wr = Some wr1" "writer_run h wr1 = Some wr'"
    by (auto split: option.splits)
  then show ?case using writer_step_finished [of x wr wr1] Cons.IH [of wr1] Cons.prems(2) by auto
qed simp

text \<open>The program of the witnesses: a stream that completes its writes at once; two chunks, then the end.\<close>

definition write_two :: world where
  "write_two = run_main (latin1 (\<lambda>n a. Do (Call (case arg 3 a of VFun c \<Rightarrow> c | _ \<Rightarrow> DefRead) VUndef []) Finish Raise)) 20 20
     (run_list [NewWritable (no_options\<lparr>o_write := Some (User 0)\<rparr>), Write 0 (VBuf [1, 2]) VUndef VUndef,
        Write 0 (VBuf [3]) VUndef VUndef, End 0 VUndef VUndef VUndef]) start_world"

lemma reachable_write_two:
  "reachable (latin1 (\<lambda>n a. Do (Call (case arg 3 a of VFun c \<Rightarrow> c | _ \<Rightarrow> DefRead) VUndef []) Finish Raise)) write_two"
  unfolding write_two_def by (rule reachable_first)

lemma write_two_state:
  "history (heap write_two 0) = [Accepted (VBuf [1, 2]), Started (VBuf [1, 2]), Wrote (VBuf [1, 2]),
     Accepted (VBuf [3]), Started (VBuf [3]), Wrote (VBuf [3]), EmitFinish, Completed VNull]"
  by (simp add: write_two_def latin1_def js_eval cong: run_cong)

text \<open>C2: A writable stream is a serial writer. In every reachable world its events replay on the abstract
  writer: chunks go to \<open>_write\<close> in the order they were accepted, across \<open>cork\<close> and \<open>uncork\<close>, one at a time,
  the next one after the completion of the one before; \<open>finish\<close> comes at most once and with no write
  left. Until the stream is destroyed, what waits is the pending and then the corked writes.\<close>

theorem writable_refines_writer:
  assumes "reachable U w"
  shows "\<exists>wr. writer_run (history (heap w s)) new_writer = Some wr \<and>
     (w_writing (wstate (heap w s)) \<longleftrightarrow> in_progress wr \<noteq> None) \<and>
     finish_emitted wr = w_finished (wstate (heap w s)) \<and>
     (w_destroyed (wstate (heap w s)) \<or>
        waiting wr = map fst (w_pending (wstate (heap w s)) @ w_corkedBuffer (wstate (heap w s))))"
  using reachable_invariant [OF writable.stream_laws_axioms writable_ok_new(4) assms, of s]
  by (auto simp: writable_ok_def writable_queue_def writable_flags_def queued_def Let_def split: option.splits)

theorem writable_refines_writer_witness:
  "\<exists>wr. writer_run [Accepted (VBuf [1, 2]), Started (VBuf [1, 2]), Wrote (VBuf [1, 2]),
     Accepted (VBuf [3]), Started (VBuf [3]), Wrote (VBuf [3]), EmitFinish, Completed VNull] new_writer = Some wr"
  using writable_refines_writer [OF reachable_write_two, of 0] unfolding write_two_state by blast

text \<open>C5: \<open>finish\<close> means done. In every reachable world, when a stream has emitted \<open>finish\<close>, the completion
  callbacks of all accepted chunks were called, in the order of the writes.\<close>

theorem finish_after_all_writes:
  assumes "reachable U w" and "EmitFinish \<in> set (history (heap w s))"
  shows "written (history (heap w s)) = accepted (history (heap w s))"
proof -
  obtain wr where wr: "writer_run (history (heap w s)) new_writer = Some wr"
    using reachable_invariant [OF writable.stream_laws_axioms writable_ok_new(4) assms(1), of s]
    by (auto simp: writable_ok_def writable_queue_def split: option.splits)
  moreover have new: "unwritten new_writer = []" by (simp add: unwritten_def new_writer_def)
  ultimately have "unwritten wr = []" using writer_finished [OF wr] assms(2) by simp
  with new show ?thesis using writer_order [OF wr] by simp
qed

theorem finish_after_all_writes_witness:
  "written (history (heap write_two 0)) = accepted (history (heap write_two 0)) \<and>
   accepted (history (heap write_two 0)) = [VBuf [1, 2], VBuf [3]]"
  using finish_after_all_writes [OF reachable_write_two, of 0] by (simp add: write_two_state)

text \<open>\<open>writableLength\<close> is exact. In every reachable world it is, for a stream that is not destroyed, the
  number of bytes (or objects) of the write in progress and of all writes still queued, corked or not;
  so the result of \<open>write\<close> and the \<open>drain\<close> event are about the real backlog.\<close>

theorem writable_length_exact:
  assumes "reachable U w" and "\<not> w_destroyed (wstate (heap w s))"
  shows "w_length (wstate (heap w s)) =
     items_length (w_objectMode (wstate (heap w s)))
       (current_write (heap w s) @ w_pending (wstate (heap w s)) @ w_corkedBuffer (wstate (heap w s)))"
  using reachable_invariant [OF writable.stream_laws_axioms writable_ok_new(4) assms(1), of s] assms(2)
  by (simp add: writable_ok_def writable_length_def queued_def)

text \<open>A stream whose \<open>_write\<close> never completes: three chunks, the last one corked.\<close>

definition backlog :: world where
  "backlog = run_main (latin1 (\<lambda>n a. Finish VUndef)) 20 20
     (run_list [NewWritable (no_options\<lparr>o_write := Some (User 0)\<rparr>), Write 0 (VBuf [1, 2]) VUndef VUndef,
        Write 0 (VBuf [3]) VUndef VUndef, Cork 0, Write 0 (VBuf [4, 5, 6]) VUndef VUndef]) start_world"

lemma reachable_backlog: "reachable (latin1 (\<lambda>n a. Finish VUndef)) backlog"
  unfolding backlog_def by (rule reachable_first)

lemma backlog_state:
  "w_pending (wstate (heap backlog 0)) = [(VBuf [3], VUndef, VUndef)]"
  "w_corkedBuffer (wstate (heap backlog 0)) = [(VBuf [4, 5, 6], VUndef, VUndef)]"
  "wframe (heap backlog 0) = Some (0, VBuf [1, 2], VUndef, VUndef)"
  "w_destroyed (wstate (heap backlog 0)) = False" "w_objectMode (wstate (heap backlog 0)) = False"
  by (simp_all add: backlog_def latin1_def js_eval cong: run_cong)

theorem writable_length_exact_witness: "w_length (wstate (heap backlog 0)) = 6"
  using writable_length_exact [OF reachable_backlog, of 0]
  by (simp add: backlog_state current_write_def items_length_def chunkLength_def)

section \<open>The life of a stream\<close>

text \<open>C3: The life of every stream, in every reachable world: \<open>end\<close> is emitted at most once, and only after the source
  has ended; the destruction completes (with \<open>error\<close>, if any, and \<open>close\<close>) at most once; and after that a
  readable stream takes no chunk by \<open>push\<close> and emits no \<open>end\<close>, and a writable stream accepts no chunk, starts no write
  and emits no \<open>finish\<close>. (A chunk can still be put back: \<open>unshift\<close> does not look whether the stream is destroyed.)\<close>

theorem stream_lifecycle:
  fixes s :: nat and w :: world
  assumes "reachable U w"
  defines "h \<equiv> history (heap w s)"
  shows "length (filter (\<lambda>x. x = EmitEnd) h) = (if r_endEmitted (rstate (heap w s)) then 1 else 0) \<and>
     (r_endEmitted (rstate (heap w s)) \<longrightarrow> r_ended (rstate (heap w s))) \<and>
     (dcalled (heap w s) \<longleftrightarrow> (\<exists>e. Completed e \<in> set h)) \<and>
     (\<forall>h1 e h2. h = h1 @ Completed e # h2 \<longrightarrow>
        (\<forall>e'. Completed e' \<notin> set h1 \<and> Completed e' \<notin> set h2) \<and>
        (has_r (heap w s) \<longrightarrow> (\<forall>c. Pushed c \<notin> set h2) \<and> EmitEnd \<notin> set h2) \<and>
        (has_w (heap w s) \<longrightarrow> (\<forall>c. Accepted c \<notin> set h2 \<and> Started c \<notin> set h2) \<and> EmitFinish \<notin> set h2))"
proof -
  have run: "life_run (has_r (heap w s)) (has_w (heap w s)) h newborn =
       Some \<lparr>end_emitted = r_endEmitted (rstate (heap w s)), closed = dcalled (heap w s)\<rparr>"
    and src: "r_endEmitted (rstate (heap w s)) \<longrightarrow> r_ended (rstate (heap w s))"
    using reachable_invariant [OF lifecycle.stream_laws_axioms lifecycle_ok_new(4) assms(1), of s]
    by (auto simp: lifecycle_ok_def h_def)
  have "\<forall>h1 e h2. h = h1 @ Completed e # h2 \<longrightarrow>
      (\<forall>e'. Completed e' \<notin> set h1) \<and> (\<forall>x\<in>set h2. quiet_event (has_r (heap w s)) (has_w (heap w s)) x)"
    using life_after_close run by (simp add: newborn_def) metis
  moreover have "length (filter (\<lambda>x. x = EmitEnd) h) = (if r_endEmitted (rstate (heap w s)) then 1 else 0)"
    using life_ends_once [OF run] by (simp add: newborn_def)
  moreover have "dcalled (heap w s) \<longleftrightarrow> (\<exists>e. Completed e \<in> set h)"
    using life_closed_iff [OF run] by (simp add: newborn_def)
  ultimately show ?thesis
    using src by (fastforce simp: quiet_event_def)
qed

theorem stream_lifecycle_witness:
  "dcalled (heap write_two 0) \<and> length (filter (\<lambda>x. x = EmitEnd) (history (heap write_two 0))) = 0"
proof -
  have "r_endEmitted (rstate (heap write_two 0)) = False"
    by (simp add: write_two_def latin1_def js_eval cong: run_cong)
  then show ?thesis using stream_lifecycle [OF reachable_write_two, of 0] by (simp add: write_two_state)
qed

text \<open>\<open>unshift\<close> puts a chunk into the buffer of a destroyed stream, as long as that is not flowing.\<close>

theorem unshift_ignores_destroy:
  assumes "r_objectMode (rstate (heap w s))" and "r_flowing (rstate (heap w s)) \<noteq> Some True" and "c \<noteq> VNull"
  shows "\<exists>w'. unshift R s c e w = (Return (), w') \<and> r_buffer (rstate (heap w' s)) = c # r_buffer (rstate (heap w s)) \<and>
     r_destroyed (rstate (heap w' s)) = r_destroyed (rstate (heap w s)) \<and>
     history (heap w' s) = history (heap w s) @ [Unshifted c]"
  using assms by (simp add: unshift_def get_obj_def mod_obj_def js_defs unshift_chunk_def Let_def)

text \<open>A destroyed stream is inert: \<open>push\<close> and \<open>write\<close> return false, \<open>end\<close> and a second \<open>destroy\<close> return, and
  nothing changes but the queue of tasks, where the callback of the write or of the end will be told
  the error.\<close>

theorem destroyed_stream_is_inert:
  assumes "has_r (heap w s)" and "has_w (heap w s)" and "r_destroyed (rstate (heap w s))"
    and "w_destroyed (wstate (heap w s))" and "r_readable (rstate (heap w s))" and "w_writable (wstate (heap w s))"
  shows "push R s c e w = (Return False, w) \<and>
     write_stream R s c e (VFun cb) w =
       (Return False, w\<lparr>ticks := ticks w @ [TickErrored (if is_function e then e else VFun cb) s]\<rparr>) \<and>
     write_stream R s c VUndef VUndef w = (Return False, w) \<and>
     end_writing R s VUndef VUndef (VFun cb) w = (Return (), w\<lparr>ticks := ticks w @ [TickErrored (VFun cb) s]\<rparr>) \<and>
     destroy R s e w = (Return (), w)"
  using assms
  by (auto simp: push_def write_stream_def end_writing_def destroy_def destroy_begin_def already_destroyed_def
      is_function_def Let_def schedule_def get_obj_def step_obj_def js_defs)

definition after_destroy :: world where
  "after_destroy = start_world\<lparr>heap := (\<lambda>_. (new_duplex_object no_options)\<lparr>
     rstate := destroy_r VUndef (initReadableState no_options), wstate := destroy_w VUndef (initWritableState no_options)\<rparr>)\<rparr>"

theorem destroyed_stream_is_inert_witness:
  "push (rt_fuel (latin1 (\<lambda>n a. Finish VUndef)) 3) 0 (VBuf [1]) VUndef after_destroy = (Return False, after_destroy)"
proof -
  have "has_r (heap after_destroy 0)" "has_w (heap after_destroy 0)" "r_destroyed (rstate (heap after_destroy 0))"
    "w_destroyed (wstate (heap after_destroy 0))" "r_readable (rstate (heap after_destroy 0))"
    "w_writable (wstate (heap after_destroy 0))"
    by (simp_all add: after_destroy_def destroy_r_def destroy_w_def initReadableState_def initWritableState_def
        no_options_def new_duplex_object_def new_Readable_def)
  then show ?thesis using destroyed_stream_is_inert by blast
qed

section \<open>Where the module goes wrong\<close>

text \<open>A sink whose writes complete in a later task: function 0 is its \<open>_write\<close>, which keeps the completion
  callback in a variable, function 1 the task that calls it. Function 2 is a listener that ends the
  stream 0, function 3 a \<open>_final\<close> that does not complete.\<close>

definition slow_sink :: outside where
  "slow_sink = latin1 (\<lambda>n a.
     if n = 0 then Do (SetVar 0 (arg 3 a)) (\<lambda>_. Do (NextTick (User 1)) Finish Raise) Raise
     else if n = 1 then Do (GetVar 0) (\<lambda>v. case v of VFun c \<Rightarrow> Do (Call c VUndef []) Finish Raise | _ \<Rightarrow> Finish VUndef) Raise
     else if n = 2 then Do (End 0 VUndef VUndef VUndef) Finish Raise
     else Finish VUndef)"

text \<open>C34: A pipe can stall. A source that pushed two chunks and ended before they were read is piped into a
  slow sink with a water mark of one byte. The first write pauses the source; when it completes, the sink
  emits \<open>drain\<close>, but the handler of the pipe does not resume a source that has ended. No task is left,
  nothing was thrown, the sink is empty and waits for data, and the second chunk stays in the buffer of
  the source for ever.\<close>

theorem pipe_stalls_after_source_ended:
  "\<exists>w. reachable slow_sink w \<and> ticks w = [] \<and> uncaught w = [] \<and>
     history (heap w 0) = [Pushed (VBuf [1]), Pushed (VBuf [2]), Delivered (VBuf [1])] \<and>
     r_ended (rstate (heap w 0)) \<and> r_flowing (rstate (heap w 0)) = Some False \<and>
     r_buffer (rstate (heap w 0)) = [VBuf [2]] \<and>
     history (heap w 1) = [Accepted (VBuf [1]), Started (VBuf [1]), Wrote (VBuf [1])] \<and>
     w_length (wstate (heap w 1)) = 0 \<and> \<not> w_writing (wstate (heap w 1)) \<and> \<not> w_ended (wstate (heap w 1))"
proof (intro exI conjI)
  define w where "w = run_main slow_sink 20 50 (run_list [NewReadable no_options,
     NewWritable (no_options\<lparr>o_highWaterMark := Some (Fin 1), o_write := Some (User 0)\<rparr>), PipeTo 0 (VStream 1) True,
     Push 0 (VBuf [1]) VUndef, Push 0 (VBuf [2]) VUndef, Push 0 VNull VUndef]) start_world"
  show "reachable slow_sink w" unfolding w_def by (rule reachable_first)
qed (simp_all add: slow_sink_def latin1_def js_eval cong: run_cong)

text \<open>\<open>_final\<close> can run twice. A listener of \<open>drain\<close> ends a stream whose \<open>_final\<close> completes later: \<open>end\<close> calls
  \<open>_final\<close>, and so does the completion of the write that emitted \<open>drain\<close>, because nothing records that
  the first call is under way.\<close>

theorem final_hook_called_twice:
  "\<exists>w. reachable slow_sink w \<and> fcount (heap w 0) = 2 \<and> fcalled (heap w 0) = [] \<and> ticks w = [] \<and> uncaught w = []"
proof (intro exI conjI)
  define w where "w = run_main slow_sink 20 50 (run_list [
     NewWritable (no_options\<lparr>o_highWaterMark := Some (Fin 1), o_write := Some (User 0), o_final := Some (User 3)\<rparr>),
     On 0 EvDrain (VFun (User 2)), Write 0 (VBuf [1]) VUndef VUndef]) start_world"
  show "reachable slow_sink w" unfolding w_def by (rule reachable_first)
qed (simp_all add: slow_sink_def latin1_def js_eval cong: run_cong)

text \<open>The option \<open>autoDestroy: false\<close> of a readable stream has no effect: the stream is destroyed, and
  emits \<open>close\<close>, after its \<open>end\<close>.\<close>

theorem readable_autoDestroy_ignored:
  "\<exists>w. reachable (latin1 (\<lambda>n a. Finish VUndef)) w \<and> \<not> r_autoDestroy (rstate (heap w 0)) \<and>
     history (heap w 0) = [EmitEnd, Completed VNull]"
proof (intro exI conjI)
  define w where "w = run_main (latin1 (\<lambda>n a. Finish VUndef)) 20 50 (run_list [
     NewReadable (no_options\<lparr>o_autoDestroy := False\<rparr>), Push 0 VNull VUndef]) start_world"
  show "reachable (latin1 (\<lambda>n a. Finish VUndef)) w" unfolding w_def by (rule reachable_first)
qed (simp_all add: latin1_def js_eval cong: run_cong)

text \<open>In object mode \<open>push\<close> drops a chunk that has a length of zero, an empty string or an empty array:
  it returns true, and the buffer and the events are those of before.\<close>

theorem object_mode_drops_empty_chunks:
  assumes "r_objectMode (rstate (heap w s))" and "r_readable (rstate (heap w s))" and "\<not> r_destroyed (rstate (heap w s))"
    and "c = VStr [] \<or> c = VArr []"
  shows "\<exists>w'. push R s c e w = (Return True, w') \<and>
     r_buffer (rstate (heap w' s)) = r_buffer (rstate (heap w s)) \<and> history (heap w' s) = history (heap w s)"
  using assms by (auto simp: push_def byte_chunk_def get_obj_def mod_r_def mod_obj_def js_defs)

theorem object_mode_drops_empty_chunks_witness:
  "\<exists>w'. push (rt_fuel (latin1 (\<lambda>n a. Finish VUndef)) 3) 0 (VArr []) VUndef
       (start_world\<lparr>heap := (\<lambda>_. new_Readable (no_options\<lparr>o_objectMode := True\<rparr>))\<rparr>) = (Return True, w') \<and>
     history (heap w' 0) = []"
  using object_mode_drops_empty_chunks [of "start_world\<lparr>heap := (\<lambda>_. new_Readable (no_options\<lparr>o_objectMode := True\<rparr>))\<rparr>" 0
      "VArr []" "rt_fuel (latin1 (\<lambda>n a. Finish VUndef)) 3" VUndef]
  by (auto simp: new_Readable_def initReadableState_def no_options_def bare_stream_def)

end
