(* ===== verification/Multimap.thy ===== *)
theory Multimap
  imports Events
begin

text \<open>
  The interface that \<open>Headers\<close>, \<open>FormData\<close> and \<open>URLSearchParams\<close> share: a collection of values under
  names, with \<open>append\<close>, \<open>delete\<close>, \<open>set\<close> and \<open>getAll\<close>. The locale states what they promise through
  \<open>getAll\<close>, and proves once what follows for their other methods and their constructors.
\<close>

locale multimap =
  fixes add :: "'k \<Rightarrow> 'v \<Rightarrow> 'm \<Rightarrow> 'm"
    and del :: "'k \<Rightarrow> 'm \<Rightarrow> 'm"
    and put :: "'k \<Rightarrow> 'v \<Rightarrow> 'm \<Rightarrow> 'm"
    and getall :: "'k \<Rightarrow> 'm \<Rightarrow> 'v list"
    and empty :: 'm
  assumes getall_empty: "getall k empty = []"
    and getall_add: "getall k (add k' v m) = (if k = k' then getall k m @ [v] else getall k m)"
    and getall_del: "getall k (del k' m) = (if k = k' then [] else getall k m)"
    and getall_put: "getall k (put k' v m) = (if k = k' then [v] else getall k m)"
begin

lemma put_is_del_add: "getall k (put k' v m) = getall k (add k' v (del k' m))"
  by (simp add: getall_put getall_add getall_del)

lemma getall_add_all:
  "getall k (fold (\<lambda>e. add (fst e) (snd e)) es m) = getall k m @ map snd (filter (\<lambda>e. fst e = k) es)"
  by (induction es arbitrary: m) (auto simp: getall_add)

lemma getall_from: "getall k (fold (\<lambda>e. add (fst e) (snd e)) es empty) = map snd (filter (\<lambda>e. fst e = k) es)"
  by (simp add: getall_add_all getall_empty)

lemma first_kept: "getall k m \<noteq> [] \<Longrightarrow> hd (getall k (add k' v m)) = hd (getall k m)"
  by (auto simp: getall_add)

end

section \<open>Lists of entries\<close>

text \<open>\<open>FormData\<close> and \<open>URLSearchParams\<close> keep their entries in an array, in order.\<close>

definition entries_append :: "'k \<Rightarrow> 'v \<Rightarrow> ('k \<times> 'v) list \<Rightarrow> ('k \<times> 'v) list" where
  "entries_append k v es = es @ [(k, v)]"

definition entries_delete :: "'k \<Rightarrow> ('k \<times> 'v) list \<Rightarrow> ('k \<times> 'v) list" where
  "entries_delete k es = filter (\<lambda>e. fst e \<noteq> k) es"

definition entries_getAll :: "'k \<Rightarrow> ('k \<times> 'v) list \<Rightarrow> 'v list" where
  "entries_getAll k es = map snd (filter (\<lambda>e. fst e = k) es)"

definition entries_get :: "'k \<Rightarrow> ('k \<times> 'v) list \<Rightarrow> 'v option" where
  "entries_get k es = map_of es k"

definition entries_has :: "'k \<Rightarrow> ('k \<times> 'v) list \<Rightarrow> bool" where
  "entries_has k es = list_ex (\<lambda>e. fst e = k) es"

lemma getAll_delete: "entries_getAll k (entries_delete k' es) = (if k = k' then [] else entries_getAll k es)"
  by (induction es) (auto simp: entries_getAll_def entries_delete_def)

lemma entries_get_hd: "entries_get k es = (case entries_getAll k es of [] \<Rightarrow> None | v # _ \<Rightarrow> Some v)"
  by (induction es) (auto simp: entries_get_def entries_getAll_def split: list.split)

lemma entries_has_iff: "entries_has k es \<longleftrightarrow> entries_getAll k es \<noteq> []"
  by (induction es) (auto simp: entries_has_def entries_getAll_def)

text \<open>The methods \<open>set\<close>: \<open>FormData\<close> remembers the position of the first entry, deletes all and splices the
  new one in; \<open>URLSearchParams\<close> filters, overwriting the first entry it meets.\<close>

primrec find_index :: "('a \<Rightarrow> bool) \<Rightarrow> 'a list \<Rightarrow> nat option" where
  "find_index p [] = None"
| "find_index p (x # xs) = (if p x then Some 0 else map_option Suc (find_index p xs))"

definition splice_in :: "nat \<Rightarrow> 'a \<Rightarrow> 'a list \<Rightarrow> 'a list" where
  "splice_in i x xs = take i xs @ [x] @ drop i xs"

definition formdata_set :: "'k \<Rightarrow> 'v \<Rightarrow> ('k \<times> 'v) list \<Rightarrow> ('k \<times> 'v) list" where
  "formdata_set k v es = (let es' = entries_delete k es in
     case find_index (\<lambda>e. fst e = k) es of None \<Rightarrow> es' @ [(k, v)] | Some i \<Rightarrow> splice_in i (k, v) es')"

fun params_filter :: "'k \<Rightarrow> 'v \<Rightarrow> bool \<Rightarrow> ('k \<times> 'v) list \<Rightarrow> ('k \<times> 'v) list \<times> bool" where
  "params_filter k v found [] = ([], found)"
| "params_filter k v found ((k', v') # es) =
     (if k' \<noteq> k then (case params_filter k v found es of (r, f) \<Rightarrow> ((k', v') # r, f))
      else if found then params_filter k v found es
      else (case params_filter k v True es of (r, f) \<Rightarrow> ((k', v) # r, f)))"

definition params_set :: "'k \<Rightarrow> 'v \<Rightarrow> ('k \<times> 'v) list \<Rightarrow> ('k \<times> 'v) list" where
  "params_set k v es = (case params_filter k v False es of (es', found) \<Rightarrow> if found then es' else es' @ [(k, v)])"

text \<open>What both do: the first entry of the name changes in place, its other entries go.\<close>

fun replace_first :: "'k \<Rightarrow> 'v \<Rightarrow> ('k \<times> 'v) list \<Rightarrow> ('k \<times> 'v) list" where
  "replace_first k v [] = [(k, v)]"
| "replace_first k v (e # es) = (if fst e = k then (k, v) # entries_delete k es else e # replace_first k v es)"

lemma formdata_set_eq: "formdata_set k v es = replace_first k v es"
proof (induction es)
  case (Cons e es)
  then show ?case
    by (cases "find_index (\<lambda>e. fst e = k) es")
      (auto simp: formdata_set_def entries_delete_def splice_in_def Let_def)
qed (simp add: formdata_set_def entries_delete_def)

lemma params_filter_True: "params_filter k v True es = (entries_delete k es, True)"
  by (induction es) (auto simp: entries_delete_def)

lemma params_set_eq: "params_set k v es = replace_first k v es"
proof (induction es)
  case (Cons e es)
  then show ?case
    by (cases e; cases "params_filter k v False es") (auto simp: params_set_def params_filter_True split: if_splits)
qed (simp add: params_set_def)

lemma getAll_replace_first: "entries_getAll k (replace_first k' v es) = (if k = k' then [v] else entries_getAll k es)"
proof (induction es)
  case (Cons e es)
  then show ?case using getAll_delete [of k k' es] by (auto simp: entries_getAll_def)
qed (simp add: entries_getAll_def)

interpretation form: multimap entries_append entries_delete formdata_set entries_getAll "[]"
  by unfold_locales (auto simp: entries_getAll_def entries_append_def getAll_delete [unfolded entries_getAll_def]
      formdata_set_eq getAll_replace_first [unfolded entries_getAll_def])

interpretation params: multimap entries_append entries_delete params_set entries_getAll "[]"
  by unfold_locales (auto simp: form.getall_empty form.getall_add form.getall_del params_set_eq getAll_replace_first)

section \<open>A map of value lists\<close>

text \<open>\<open>Headers\<close> keeps a Map from names to arrays of values.\<close>

definition hmap_add :: "'k \<Rightarrow> 'v \<Rightarrow> ('k \<times> 'v list) list \<Rightarrow> ('k \<times> 'v list) list" where
  "hmap_add k v m = (case map_of m k of Some vs \<Rightarrow> map_set k (vs @ [v]) m | None \<Rightarrow> map_set k [v] m)"

definition hmap_getAll :: "'k \<Rightarrow> ('k \<times> 'v list) list \<Rightarrow> 'v list" where
  "hmap_getAll k m = (case map_of m k of Some vs \<Rightarrow> vs | None \<Rightarrow> [])"

lemma map_of_delete: "map_of (map_delete k m) k' = (if k = k' then None else map_of m k')"
  by (induction m) (auto simp: map_delete_def)

interpretation hmap: multimap hmap_add map_delete "\<lambda>k v. map_set k [v]" hmap_getAll "[]"
  by unfold_locales (auto simp: hmap_add_def hmap_getAll_def map_of_delete split: option.split)

section \<open>Properties\<close>

text \<open>The two implementations of \<open>set\<close> agree: the one of \<open>FormData\<close>, with an index and a splice, and
  the one of \<open>URLSearchParams\<close>, with a filter that overwrites, give the same entries in the same order,
  and both leave exactly the new value under the name and every other name as it was.\<close>

theorem set_methods_agree:
  "formdata_set k v es = params_set k v es \<and> entries_getAll k (formdata_set k v es) = [v] \<and>
   entries_delete k (formdata_set k v es) = entries_delete k es"
proof -
  have "entries_delete k (replace_first k v es) = entries_delete k es"
    by (induction es) (auto simp: entries_delete_def)
  then show ?thesis using form.getall_put [of k k v es] by (simp add: formdata_set_eq params_set_eq)
qed

text \<open>A collection built from a list of pairs has under each name exactly the values of the list with
  that name, in the order of the list: for the map of arrays of \<open>Headers\<close> and for the array of entries of
  \<open>FormData\<close> and \<open>URLSearchParams\<close>.\<close>

theorem built_from_pairs:
  "hmap_getAll k (fold (\<lambda>e. hmap_add (fst e) (snd e)) es []) = map snd (filter (\<lambda>e. fst e = k) es) \<and>
   entries_getAll k (fold (\<lambda>e. entries_append (fst e) (snd e)) es []) = map snd (filter (\<lambda>e. fst e = k) es)"
  using hmap.getall_from [of k es] form.getall_from [of k es] by simp

end
