(* ===== verification/Web_Headers.thy ===== *)
theory Web_Headers
  imports Multimap "HOL-Library.List_Lexorder" "HOL-Library.Char_ord"
begin

text \<open>
  The class \<open>Headers\<close> of \<open>src/pkg/jsruntime/fetch/api.js\<close>. Names and values are strings already (\<open>String(x)\<close>
  of a string is that string); \<open>None\<close> is the \<open>TypeError\<close> of an invalid name, value or pair. The array
  \<open>init\<close> of pairs is a list of lists, because the constructor checks that each has two elements.
\<close>

section \<open>Names and values\<close>

definition char_code :: "char \<Rightarrow> nat" where
  "char_code c = of_char c"

text \<open>The characters of an HTTP token: \<open>[!#$%&'*+.^_`|~0-9A-Za-z-]\<close>.\<close>

definition token_symbols :: string where
  "token_symbols = ''!#$%&'' @ [CHR 39] @ ''*+.^_`|~-''"

definition is_lower :: "char \<Rightarrow> bool" where
  "is_lower c \<longleftrightarrow> 97 \<le> char_code c \<and> char_code c \<le> 122"

definition is_upper :: "char \<Rightarrow> bool" where
  "is_upper c \<longleftrightarrow> 65 \<le> char_code c \<and> char_code c \<le> 90"

definition is_digit_char :: "char \<Rightarrow> bool" where
  "is_digit_char c \<longleftrightarrow> 48 \<le> char_code c \<and> char_code c \<le> 57"

definition lower_token_char :: "char \<Rightarrow> bool" where
  "lower_token_char c \<longleftrightarrow> c \<in> set token_symbols \<or> is_digit_char c \<or> is_lower c"

definition normalizeHeaderName :: "string \<Rightarrow> string option" where
  "normalizeHeaderName name = (let n = to_lower name in
     if n = [] \<or> \<not> list_all lower_token_char n then None else Some n)"

text \<open>\<open>[\t\x20]\<close> at both ends is cut off; \<open>[\0\r\n]\<close> is refused.\<close>

definition is_blank :: "char \<Rightarrow> bool" where
  "is_blank c \<longleftrightarrow> char_code c = 9 \<or> char_code c = 32"

definition trim_with :: "(char \<Rightarrow> bool) \<Rightarrow> string \<Rightarrow> string" where
  "trim_with p s = rev (dropWhile p (rev (dropWhile p s)))"

definition bad_value_char :: "char \<Rightarrow> bool" where
  "bad_value_char c \<longleftrightarrow> char_code c \<in> {0, 10, 13}"

definition normalizeHeaderValue :: "string \<Rightarrow> string option" where
  "normalizeHeaderValue v = (let t = trim_with is_blank v in if list_ex bad_value_char t then None else Some t)"

section \<open>The class\<close>

type_synonym headers = "(string \<times> string list) list"

definition headers_append :: "string \<Rightarrow> string \<Rightarrow> headers \<Rightarrow> headers option" where
  "headers_append name v h = (case normalizeHeaderName name of
       None \<Rightarrow> None
     | Some n \<Rightarrow> (case normalizeHeaderValue v of None \<Rightarrow> None | Some t \<Rightarrow> Some (hmap_add n t h)))"

definition headers_delete :: "string \<Rightarrow> headers \<Rightarrow> headers option" where
  "headers_delete name h = map_option (\<lambda>n. map_delete n h) (normalizeHeaderName name)"

text \<open>The inner option is the \<open>null\<close> of a header that is not there.\<close>

definition headers_get :: "string \<Rightarrow> headers \<Rightarrow> string option option" where
  "headers_get name h = map_option (\<lambda>n. map_option (join '', '') (map_of h n)) (normalizeHeaderName name)"

definition headers_getSetCookie :: "headers \<Rightarrow> string list" where
  "headers_getSetCookie h = (case map_of h ''set-cookie'' of None \<Rightarrow> [] | Some vs \<Rightarrow> vs)"

definition headers_has :: "string \<Rightarrow> headers \<Rightarrow> bool option" where
  "headers_has name h = map_option (\<lambda>n. map_of h n \<noteq> None) (normalizeHeaderName name)"

definition headers_set :: "string \<Rightarrow> string \<Rightarrow> headers \<Rightarrow> headers option" where
  "headers_set name v h = (case normalizeHeaderName name of
       None \<Rightarrow> None
     | Some n \<Rightarrow> (case normalizeHeaderValue v of None \<Rightarrow> None | Some t \<Rightarrow> Some (map_set n [t] h)))"

text \<open>\<open>sortedHeaderEntries\<close>: the names in the order of their code units, each with what \<open>get\<close> returns for it.\<close>

definition sortedHeaderEntries :: "headers \<Rightarrow> (string \<times> string) list" where
  "sortedHeaderEntries h = map (\<lambda>n. (n, case headers_get n h of Some (Some v) \<Rightarrow> v | _ \<Rightarrow> [])) (sort (map fst h))"

text \<open>The constructor: from another \<open>Headers\<close> object, from an iterable of pairs, or from the properties of
  an object.\<close>

datatype headers_init = NoInit | FromHeaders headers | FromPairs "string list list" | FromObject "(string \<times> string) list"

fun append_pairs :: "string list list \<Rightarrow> headers \<Rightarrow> headers option" where
  "append_pairs [] h = Some h"
| "append_pairs ([n, v] # ps) h = (case headers_append n v h of None \<Rightarrow> None | Some h' \<Rightarrow> append_pairs ps h')"
| "append_pairs (_ # ps) h = None"

fun headers_new :: "headers_init \<Rightarrow> headers option" where
  "headers_new NoInit = Some []"
| "headers_new (FromHeaders h) = Some h"
| "headers_new (FromPairs ps) = append_pairs ps []"
| "headers_new (FromObject ps) = append_pairs (map (\<lambda>(n, v). [n, v]) ps) []"

section \<open>The invariant\<close>

definition name_ok :: "string \<Rightarrow> bool" where
  "name_ok n \<longleftrightarrow> n \<noteq> [] \<and> list_all lower_token_char n"

definition value_ok :: "string \<Rightarrow> bool" where
  "value_ok v \<longleftrightarrow> \<not> list_ex bad_value_char v \<and> (v \<noteq> [] \<longrightarrow> \<not> is_blank (hd v) \<and> \<not> is_blank (last v))"

definition headers_ok :: "headers \<Rightarrow> bool" where
  "headers_ok h \<longleftrightarrow> distinct (map fst h) \<and> list_all (\<lambda>e. name_ok (fst e) \<and> snd e \<noteq> [] \<and> list_all value_ok (snd e)) h"

lemma trim_ends:
  assumes "trim_with p s \<noteq> []"
  shows "\<not> p (hd (trim_with p s)) \<and> \<not> p (last (trim_with p s))"
proof -
  define t where "t = dropWhile p s"
  have t: "trim_with p s = rev (dropWhile p (rev t))" by (simp add: trim_with_def t_def)
  have ne: "dropWhile p (rev t) \<noteq> []" using assms t by simp
  have "\<not> p (hd (dropWhile p (rev t)))" using ne by (rule hd_dropWhile)
  moreover have "last (trim_with p s) = hd (dropWhile p (rev t))" unfolding t using ne by (simp add: last_rev)
  moreover have "hd (trim_with p s) = hd t" and "t \<noteq> []"
  proof -
    show tne: "t \<noteq> []" using ne by auto
    obtain us where us: "rev t = us @ dropWhile p (rev t)" by (metis takeWhile_dropWhile_id)
    then have "t = rev (dropWhile p (rev t)) @ rev us" by (metis rev_append rev_rev_ident)
    then show "hd (trim_with p s) = hd t" unfolding t using ne by (metis hd_append2 rev_is_Nil_conv)
  qed
  moreover have "\<not> p (hd t)" using \<open>t \<noteq> []\<close> unfolding t_def by (rule hd_dropWhile)
  ultimately show ?thesis by simp
qed

lemma normalized_name_ok: "normalizeHeaderName name = Some n \<Longrightarrow> name_ok n"
  by (auto simp: normalizeHeaderName_def name_ok_def Let_def split: if_splits)

lemma normalized_value_ok: "normalizeHeaderValue v = Some t \<Longrightarrow> value_ok t"
  using trim_ends [of is_blank v] by (auto simp: normalizeHeaderValue_def value_ok_def Let_def split: if_splits)

lemma lower_token_stable: "lower_token_char c \<Longrightarrow> lower_char c = c"
  by (auto simp: lower_token_char_def lower_char_def token_symbols_def is_digit_char_def is_lower_def char_code_def)

lemma name_ok_normalized: "name_ok n \<Longrightarrow> normalizeHeaderName n = Some n"
  by (simp add: name_ok_def normalizeHeaderName_def Let_def to_lower_def map_idI list_all_iff lower_token_stable)

lemma map_set_all: "list_all P m \<Longrightarrow> P (k, v) \<Longrightarrow> list_all P (map_set k v m)"
  by (induction m) auto

lemma headers_ok_set:
  "headers_ok h \<Longrightarrow> name_ok n \<Longrightarrow> vs \<noteq> [] \<Longrightarrow> list_all value_ok vs \<Longrightarrow> headers_ok (map_set n vs h)"
  by (simp add: headers_ok_def distinct_map_set map_set_all)

lemma headers_ok_values: "headers_ok h \<Longrightarrow> map_of h n = Some vs \<Longrightarrow> vs \<noteq> [] \<and> list_all value_ok vs"
  by (auto simp: headers_ok_def list_all_iff dest!: map_of_SomeD)

lemma headers_ok_append: "headers_ok h \<Longrightarrow> headers_append n v h = Some h' \<Longrightarrow> headers_ok h'"
  by (auto simp: headers_append_def hmap_add_def normalized_name_ok normalized_value_ok
      dest: headers_ok_values intro!: headers_ok_set split: option.splits)

lemma headers_ok_put: "headers_ok h \<Longrightarrow> headers_set n v h = Some h' \<Longrightarrow> headers_ok h'"
  by (auto simp: headers_set_def normalized_name_ok normalized_value_ok intro!: headers_ok_set split: option.splits)

lemma headers_ok_delete: "headers_ok h \<Longrightarrow> headers_delete n h = Some h' \<Longrightarrow> headers_ok h'"
  by (auto simp: headers_delete_def headers_ok_def map_delete_def list_all_iff distinct_map_delete [unfolded map_delete_def])

lemma headers_ok_pairs: "headers_ok h \<Longrightarrow> append_pairs ps h = Some h' \<Longrightarrow> headers_ok h'"
  by (induction ps h rule: append_pairs.induct) (auto split: option.splits dest: headers_ok_append)

lemma headers_ok_Nil [simp]: "headers_ok []"
  by (simp add: headers_ok_def)

section \<open>Programs\<close>

text \<open>A header object after the calls of a program; a call that throws changes nothing.\<close>

datatype hcall = HAppend string string | HSet string string | HDelete string

fun headers_call :: "hcall \<Rightarrow> headers \<Rightarrow> headers" where
  "headers_call (HAppend n v) h = (case headers_append n v h of None \<Rightarrow> h | Some h' \<Rightarrow> h')"
| "headers_call (HSet n v) h = (case headers_set n v h of None \<Rightarrow> h | Some h' \<Rightarrow> h')"
| "headers_call (HDelete n) h = (case headers_delete n h of None \<Rightarrow> h | Some h' \<Rightarrow> h')"

lemma headers_ok_calls: "headers_ok h \<Longrightarrow> headers_ok (fold headers_call calls h)"
proof (induction calls arbitrary: h)
  case (Cons c calls)
  then have "headers_ok (headers_call c h)"
    by (cases c) (auto split: option.split dest: headers_ok_append headers_ok_put headers_ok_delete)
  with Cons show ?case by simp
qed simp

text \<open>The constructor given no \<open>Headers\<close> object keeps the invariant; given one, it copies.\<close>

lemma headers_ok_new:
  "headers_new init = Some h \<Longrightarrow> (\<And>h0. init = FromHeaders h0 \<Longrightarrow> headers_ok h0) \<Longrightarrow> headers_ok h"
  by (cases init) (auto dest: headers_ok_pairs [OF headers_ok_Nil])

section \<open>Properties\<close>

text \<open>C32: No header injection. Whatever the constructor is given and whatever a program then appends, sets
  or deletes, every name of a header object is a lower-case HTTP token, names are distinct, every name
  has a value, and no value has a NUL, a carriage return, a line feed, or blanks at its ends.\<close>

theorem headers_are_safe:
  assumes "headers_new init = Some h" and "\<forall>h0. init = FromHeaders h0 \<longrightarrow> headers_ok h0"
  shows "headers_ok (fold headers_call calls h)"
  using assms by (blast intro: headers_ok_calls headers_ok_new)

theorem headers_are_safe_witness:
  "headers_ok (fold headers_call [HAppend ''X-A'' '' 1 '', HSet ''b'' [CHR ''x'', CHR 10, CHR ''y'']] [(''accept'', [''*/*''])])"
proof -
  have "headers_new (FromPairs [[''Accept'', ''*/*'']]) = Some [(''accept'', [''*/*''])]" by code_simp
  then show ?thesis using headers_are_safe by blast
qed

text \<open>Names are compared without regard to case, and values accumulate: after \<open>append(n, v)\<close> with a
  valid name and value, \<open>get\<close> of any spelling of the name returns the values so far and the new one,
  trimmed, joined by a comma, and every other header is as before.\<close>

theorem headers_get_after_append:
  assumes "headers_append n v h = Some h'"
  shows "(to_lower n' = to_lower n \<longrightarrow>
       headers_get n' h' = Some (Some (join '', '' (hmap_getAll (to_lower n) h @ [trim_with is_blank v])))) \<and>
     (to_lower n' \<noteq> to_lower n \<longrightarrow> headers_get n' h' = headers_get n' h)"
  using assms
  by (auto simp: headers_append_def headers_get_def normalizeHeaderName_def normalizeHeaderValue_def
      hmap_add_def hmap_getAll_def Let_def split: option.splits if_splits)

theorem headers_get_after_append_witness:
  "headers_get ''ACCEPT'' [(''accept'', [''a'', ''b''])] = Some (Some ''a, b'')"
proof -
  have "headers_append ''Accept'' ''b '' [(''accept'', [''a''])] = Some [(''accept'', [''a'', ''b''])]" by code_simp
  from headers_get_after_append [OF this, of "''ACCEPT''"]
  have "headers_get ''ACCEPT'' [(''accept'', [''a'', ''b''])] =
      Some (Some (join '', '' (hmap_getAll (to_lower ''Accept'') [(''accept'', [''a''])] @ [trim_with is_blank ''b ''])))"
    by (rule conjunct1 [THEN mp]) code_simp
  also have "\<dots> = Some (Some ''a, b'')" by code_simp
  finally show ?thesis .
qed

text \<open>Iterating over a header object gives every header once, in strictly increasing order of the names,
  with the value that \<open>get\<close> returns for it.\<close>

theorem headers_entries_sorted:
  assumes "headers_ok h"
  shows "sorted_wrt (<) (map fst (sortedHeaderEntries h)) \<and>
     (\<forall>n v. (n, v) \<in> set (sortedHeaderEntries h) \<longleftrightarrow> n \<in> fst ` set h \<and> headers_get n h = Some (Some v))"
proof -
  have fst: "map fst (sortedHeaderEntries h) = sort (map fst h)" by (simp add: sortedHeaderEntries_def comp_def)
  have sorted: "sorted_wrt (<) (sort (map fst h))"
    using assms by (simp add: headers_ok_def strict_sorted_iff)
  have get: "\<exists>v. headers_get n h = Some (Some v)" if "n \<in> fst ` set h" for n
  proof -
    have "name_ok n" using assms that by (auto simp: headers_ok_def list_all_iff)
    moreover have "map_of h n \<noteq> None" using that by (simp add: map_of_eq_None_iff)
    ultimately show ?thesis by (auto simp: headers_get_def name_ok_normalized)
  qed
  have "(n, v) \<in> set (sortedHeaderEntries h) \<longleftrightarrow> n \<in> fst ` set h \<and> headers_get n h = Some (Some v)" for n v
  proof (cases "n \<in> fst ` set h")
    case True
    then obtain u where "headers_get n h = Some (Some u)" using get by blast
    with True show ?thesis by (auto simp: sortedHeaderEntries_def)
  qed (auto simp: sortedHeaderEntries_def)
  with fst sorted show ?thesis by simp
qed

theorem headers_entries_sorted_witness:
  "sorted_wrt (<) (map fst (sortedHeaderEntries [(''b'', [''1'']), (''a'', [''2'', ''3''])])) \<and>
   (\<forall>n v. (n, v) \<in> set (sortedHeaderEntries [(''b'', [''1'']), (''a'', [''2'', ''3''])]) \<longleftrightarrow>
     n \<in> fst ` set [(''b'', [''1'']), (''a'', [''2'', ''3''])] \<and>
     headers_get n [(''b'', [''1'']), (''a'', [''2'', ''3''])] = Some (Some v))"
proof -
  have "headers_ok [(''b'', [''1'']), (''a'', [''2'', ''3''])]" by code_simp
  then show ?thesis by (rule headers_entries_sorted)
qed

end
