(* ===== verification/Web_Body.thy ===== *)
theory Web_Body
  imports Web_Headers
begin

text \<open>
  \<open>Blob\<close>, \<open>File\<close>, \<open>FormData\<close> and the class \<open>Body\<close> of \<open>src/pkg/jsruntime/fetch/api.js\<close>. The native functions of
  the runtime (the coders between text and bytes, and the multipart coder) are the record \<open>natives\<close>, an
  argument of the definitions that call them. The time stamp of a \<open>File\<close> is left out.
\<close>

section \<open>Blobs and form data\<close>

text \<open>A blob; it is a \<open>File\<close> when it has a name.\<close>

record blob =
  blob_bytes :: bytes
  blob_type :: string
  blob_name :: "string option"

datatype form_value = FText string | FBlob blob

type_synonym form_data = "(string \<times> form_value) list"

text \<open>What a program may give as a body or as a part of a blob: \<open>null\<close> or \<open>undefined\<close>, a string, an
  \<open>ArrayBuffer\<close> or a view of one, a blob, form data, or search parameters (with their text).\<close>

datatype body_init = NoBody | BText string | BBytes bytes | BBlob blob | BForm form_data | BParams string

text \<open>An entry as the native multipart coder takes and returns it.\<close>

datatype native_entry = NText string string | NFile string bytes string string

record natives =
  nativeBodyBuffer :: "string \<Rightarrow> bytes"
  nativeBodyText :: "bytes \<Rightarrow> string"
  nativeEncodeFormData :: "native_entry list \<Rightarrow> bytes \<times> string"
  nativeParseFormData :: "bytes \<Rightarrow> string \<Rightarrow> native_entry list option"

text \<open>\<open>String(form)\<close> of form data is \<open>[object FormData]\<close>.\<close>

definition body_toBuffer :: "natives \<Rightarrow> body_init \<Rightarrow> bytes" where
  "body_toBuffer N v = (case v of
       NoBody \<Rightarrow> []
     | BBlob b \<Rightarrow> blob_bytes b
     | BBytes bs \<Rightarrow> bs
     | BText s \<Rightarrow> nativeBodyBuffer N s
     | BForm _ \<Rightarrow> nativeBodyBuffer N ''[object FormData]''
     | BParams s \<Rightarrow> nativeBodyBuffer N s)"

text \<open>The type of a blob: lower case, and empty unless it is printable ASCII.\<close>

definition blob_type_of :: "string option \<Rightarrow> string" where
  "blob_type_of t = (case t of None \<Rightarrow> [] | Some s \<Rightarrow>
     (let l = to_lower s in if list_all (\<lambda>c. 32 \<le> char_code c \<and> char_code c \<le> 126) l then l else []))"

definition new_Blob :: "natives \<Rightarrow> body_init list \<Rightarrow> string option \<Rightarrow> blob" where
  "new_Blob N parts t =
     \<lparr>blob_bytes = concat (map (body_toBuffer N) parts), blob_type = blob_type_of t, blob_name = None\<rparr>"

definition new_File :: "natives \<Rightarrow> body_init list \<Rightarrow> string \<Rightarrow> string option \<Rightarrow> blob" where
  "new_File N parts name t = (new_Blob N parts t)\<lparr>blob_name := Some name\<rparr>"

definition blob_size :: "blob \<Rightarrow> int" where
  "blob_size b = int (length (blob_bytes b))"

definition slice_index :: "int \<Rightarrow> int \<Rightarrow> int" where
  "slice_index n sz = (if n < 0 then max (sz + n) 0 else min n sz)"

definition blob_slice :: "natives \<Rightarrow> blob \<Rightarrow> int option \<Rightarrow> int option \<Rightarrow> string option \<Rightarrow> blob" where
  "blob_slice N b st en t = (let sz = blob_size b;
       st' = slice_index (case st of None \<Rightarrow> 0 | Some n \<Rightarrow> n) sz;
       en' = slice_index (case en of None \<Rightarrow> sz | Some n \<Rightarrow> n) sz
     in new_Blob N [BBytes (take (nat (max (en' - st') 0)) (drop (nat (min st' en')) (blob_bytes b)))] t)"

definition normalizeFormValue :: "natives \<Rightarrow> form_value \<Rightarrow> string option \<Rightarrow> form_value" where
  "normalizeFormValue N v filename = (case v of
       FText s \<Rightarrow> FText s
     | FBlob b \<Rightarrow>
         if blob_name b \<noteq> None \<and> filename = None then FBlob b
         else FBlob (new_File N [BBlob b] (case filename of None \<Rightarrow> ''blob'' | Some n \<Rightarrow> n) (Some (blob_type b))))"

definition form_append :: "natives \<Rightarrow> string \<Rightarrow> form_value \<Rightarrow> string option \<Rightarrow> form_data \<Rightarrow> form_data" where
  "form_append N name v filename = entries_append name (normalizeFormValue N v filename)"

definition form_set :: "natives \<Rightarrow> string \<Rightarrow> form_value \<Rightarrow> string option \<Rightarrow> form_data \<Rightarrow> form_data" where
  "form_set N name v filename = formdata_set name (normalizeFormValue N v filename)"

definition native_entries :: "form_data \<Rightarrow> native_entry list" where
  "native_entries form = map (\<lambda>(name, v). case v of
       FBlob b \<Rightarrow> NFile name (blob_bytes b) (case blob_name b of Some n \<Rightarrow> if n = [] then ''blob'' else n | None \<Rightarrow> ''blob'') (blob_type b)
     | FText s \<Rightarrow> NText name s) form"

definition encodeFormData :: "natives \<Rightarrow> form_data \<Rightarrow> bytes \<times> string" where
  "encodeFormData N form = nativeEncodeFormData N (native_entries form)"

definition formDataFrom :: "natives \<Rightarrow> native_entry list \<Rightarrow> form_data" where
  "formDataFrom N entries = fold (\<lambda>e form. case e of
       NFile name bs filename t \<Rightarrow> form_append N name (FBlob (new_File N [BBytes bs] filename (Some t))) None form
     | NText name s \<Rightarrow> form_append N name (FText s) None form) entries []"

section \<open>Bodies\<close>

record body =
  bodyBuffer :: bytes
  bodyUsed :: bool
  contentType :: string

definition initBody :: "natives \<Rightarrow> body_init \<Rightarrow> string \<Rightarrow> body" where
  "initBody N b ct = \<lparr>bodyBuffer = (case b of NoBody \<Rightarrow> [] | _ \<Rightarrow> body_toBuffer N b), bodyUsed = False, contentType = ct\<rparr>"

text \<open>\<open>consumeBody\<close>: the promise it returns is rejected (\<open>Inl\<close>) or resolved (\<open>Inr\<close>). The transformation may
  throw: the JSON parser and the multipart parser do.\<close>

definition consumeBody :: "(bytes \<Rightarrow> string + 'a) \<Rightarrow> body \<Rightarrow> (string + 'a) \<times> body" where
  "consumeBody transform b =
     (if bodyUsed b then (Inl ''Body has already been consumed'', b)
      else (transform (bodyBuffer b), b\<lparr>bodyUsed := True\<rparr>))"

definition body_arrayBuffer :: "body \<Rightarrow> (string + bytes) \<times> body" where
  "body_arrayBuffer = consumeBody Inr"

definition body_blob :: "natives \<Rightarrow> body \<Rightarrow> (string + blob) \<times> body" where
  "body_blob N b = consumeBody (\<lambda>bs. Inr (new_Blob N [BBytes bs] (Some (contentType b)))) b"

definition body_text :: "natives \<Rightarrow> body \<Rightarrow> (string + string) \<times> body" where
  "body_text N = consumeBody (\<lambda>bs. Inr (nativeBodyText N bs))"

definition body_json :: "natives \<Rightarrow> (string \<Rightarrow> 'j option) \<Rightarrow> body \<Rightarrow> (string + 'j) \<times> body" where
  "body_json N parse = consumeBody (\<lambda>bs. case parse (nativeBodyText N bs) of
     None \<Rightarrow> Inl ''SyntaxError'' | Some j \<Rightarrow> Inr j)"

definition body_formData :: "natives \<Rightarrow> body \<Rightarrow> (string + form_data) \<times> body" where
  "body_formData N b = consumeBody (\<lambda>bs. case nativeParseFormData N bs (contentType b) of
     None \<Rightarrow> Inl ''TypeError'' | Some es \<Rightarrow> Inr (formDataFrom N es)) b"

section \<open>Lemmas\<close>

lemma blob_type_of_idem [simp]: "blob_type_of (Some (blob_type_of t)) = blob_type_of t"
proof (cases t)
  case (Some s)
  have "lower_char (lower_char c) = lower_char c" for c
    by (simp add: lower_char_def)
  then show ?thesis using Some by (simp add: blob_type_of_def Let_def to_lower_def comp_def)
qed (simp add: blob_type_of_def to_lower_def)

definition form_ok :: "form_data \<Rightarrow> bool" where
  "form_ok form = list_all (\<lambda>e. case snd e of FText _ \<Rightarrow> True
     | FBlob b \<Rightarrow> blob_name b \<noteq> None \<and> blob_name b \<noteq> Some [] \<and> blob_type_of (Some (blob_type b)) = blob_type b) form"

lemma formDataFrom_snoc:
  "formDataFrom N (es @ [e]) = formDataFrom N es @ [case e of
     NFile name bs filename t \<Rightarrow> (name, FBlob \<lparr>blob_bytes = bs, blob_type = blob_type_of (Some t), blob_name = Some filename\<rparr>)
   | NText name s \<Rightarrow> (name, FText s)]"
  by (simp add: formDataFrom_def form_append_def entries_append_def normalizeFormValue_def new_File_def new_Blob_def
      body_toBuffer_def split: native_entry.split)

lemma formDataFrom_native_entries: "form_ok form \<Longrightarrow> formDataFrom N (native_entries form) = form"
proof (induction form rule: rev_induct)
  case Nil
  then show ?case by (simp add: formDataFrom_def native_entries_def)
next
  case (snoc e form)
  then have "formDataFrom N (native_entries form) = form" by (simp add: form_ok_def)
  moreover have "native_entries (form @ [e]) = native_entries form @ native_entries [e]" by (simp add: native_entries_def)
  ultimately show ?case
    using snoc.prems
    by (cases e; cases "snd e") (auto simp: native_entries_def formDataFrom_snoc form_ok_def)
qed

lemma take_drop_range:
  fixes i j :: int
  assumes "0 \<le> i" and "0 \<le> j"
  shows "take (nat (max (j - i) 0)) (drop (nat (min i j)) xs) = drop (nat i) (take (nat j) xs)"
proof (cases "i \<le> j")
  case True
  then show ?thesis using assms by (simp add: drop_take nat_diff_distrib)
qed simp

section \<open>Properties\<close>

text \<open>A slice of a blob is the part of its bytes between the two indices, where a negative index counts
  from the end, indices are cut to the size, and a start after the end gives an empty blob.\<close>

theorem blob_slice_correct:
  fixes b :: blob and st en :: int
  defines "sz \<equiv> int (length (blob_bytes b))"
  defines "i \<equiv> (if st < 0 then max 0 (sz + st) else min st sz)" and "j \<equiv> (if en < 0 then max 0 (sz + en) else min en sz)"
  shows "blob_bytes (blob_slice N b (Some st) (Some en) t) = drop (nat i) (take (nat j) (blob_bytes b)) \<and>
    blob_size (blob_slice N b (Some st) (Some en) t) = max 0 (j - i)"
proof -
  have ij: "0 \<le> i" "i \<le> sz" "0 \<le> j" "j \<le> sz" unfolding i_def j_def sz_def by auto
  have "slice_index st (blob_size b) = i" "slice_index en (blob_size b) = j"
    unfolding slice_index_def blob_size_def i_def j_def sz_def by (simp_all only: max.commute)
  then have "blob_bytes (blob_slice N b (Some st) (Some en) t) = drop (nat i) (take (nat j) (blob_bytes b))"
    using take_drop_range [OF ij(1,3)] by (simp only: blob_slice_def new_Blob_def Let_def) (simp add: body_toBuffer_def)
  moreover have "int (length (drop (nat i) (take (nat j) (blob_bytes b)))) = max 0 (j - i)"
    using ij unfolding sz_def by simp
  ultimately show ?thesis by (simp only: blob_size_def)
qed

text \<open>A body can be read once. The first method that consumes it gets exactly the bytes of the body, and
  every later one, of any kind, is rejected and changes nothing.\<close>

theorem body_consumed_once:
  assumes "\<not> bodyUsed b"
  shows "fst (body_arrayBuffer b) = Inr (bodyBuffer b) \<and>
     fst (body_text N b) = Inr (nativeBodyText N (bodyBuffer b)) \<and>
     consumeBody g (snd (consumeBody f b)) = (Inl ''Body has already been consumed'', snd (consumeBody f b))"
  using assms by (simp add: body_arrayBuffer_def body_text_def consumeBody_def)

definition plain_natives :: natives where
  "plain_natives = \<lparr>nativeBodyBuffer = map (\<lambda>c. of_nat (of_char c)), nativeBodyText = map (\<lambda>x. char_of (unat x)),
     nativeEncodeFormData = (\<lambda>es. ([], ''multipart/form-data'')), nativeParseFormData = (\<lambda>bs t. None)\<rparr>"

theorem body_consumed_once_witness:
  "body_arrayBuffer (snd (body_text plain_natives (initBody plain_natives (BBytes [1, 2]) []))) =
     (Inl ''Body has already been consumed'', \<lparr>bodyBuffer = [1, 2], bodyUsed = True, contentType = []\<rparr>)"
  using body_consumed_once [of "initBody plain_natives (BBytes [1, 2]) []" plain_natives Inr
      "\<lambda>bs. Inr (nativeBodyText plain_natives bs)"]
  by (simp add: initBody_def body_toBuffer_def body_arrayBuffer_def body_text_def consumeBody_def)

text \<open>Form data survives the trip through the native multipart coder. If the coder's parser reads back
  what its encoder wrote for the entries of a form, then the form read back from a body made of the form
  is that form: names, texts, file names, types and bytes, in order. (The files of the form have a name
  and a type as the constructors make them.)\<close>

theorem form_data_roundtrip:
  assumes "nativeParseFormData N (fst (nativeEncodeFormData N (native_entries form)))
       (snd (nativeEncodeFormData N (native_entries form))) = Some (native_entries form)"
    and "form_ok form"
  shows "fst (body_formData N (initBody N (BBytes (fst (encodeFormData N form))) (snd (encodeFormData N form)))) = Inr form"
  using assms by (simp add: body_formData_def consumeBody_def initBody_def body_toBuffer_def encodeFormData_def
      formDataFrom_native_entries)

definition sample_form :: form_data where
  "sample_form = [(''a'', FText ''1''), (''f'', FBlob \<lparr>blob_bytes = [1, 2], blob_type = ''text/plain'', blob_name = Some ''x.txt''\<rparr>)]"

definition sample_coder :: natives where
  "sample_coder = plain_natives\<lparr>nativeEncodeFormData := (\<lambda>es. ([7], ''multipart/form-data; boundary=b'')),
     nativeParseFormData := (\<lambda>bs t. if bs = [7] then
       Some [NText ''a'' ''1'', NFile ''f'' [1, 2] ''x.txt'' ''text/plain''] else None)\<rparr>"

theorem form_data_roundtrip_witness:
  "fst (body_formData sample_coder (initBody sample_coder (BBytes [7]) ''multipart/form-data; boundary=b'')) = Inr sample_form"
proof -
  have "native_entries sample_form = [NText ''a'' ''1'', NFile ''f'' [1, 2] ''x.txt'' ''text/plain'']"
    by (simp add: native_entries_def sample_form_def)
  moreover have "blob_type_of (Some ''text/plain'') = ''text/plain''" by code_simp
  ultimately show ?thesis
    using form_data_roundtrip [of sample_coder sample_form]
    by (simp add: sample_coder_def encodeFormData_def form_ok_def sample_form_def)
qed

end
