(* ===== verification/Web_Fetch.thy ===== *)
theory Web_Fetch
  imports Web_Body
begin

text \<open>
  \<open>Request\<close>, \<open>Response\<close> and \<open>fetch\<close> of \<open>src/pkg/jsruntime/fetch/api.js\<close>. A constructor that throws gives the
  message of the exception (\<open>Inl\<close>). A signal is the number the runtime knows it by; what a program passes
  instead of a signal is \<open>NotSignal\<close>. Getters are the fields of the records.
\<close>

section \<open>Requests\<close>

definition known_methods :: "string list" where
  "known_methods = [''DELETE'', ''GET'', ''HEAD'', ''OPTIONS'', ''POST'', ''PUT'']"

definition forbidden_methods :: "string list" where
  "forbidden_methods = [''CONNECT'', ''TRACE'', ''TRACK'']"

definition token_char :: "char \<Rightarrow> bool" where
  "token_char c \<longleftrightarrow> lower_token_char c \<or> is_upper c"

definition normalizeMethod :: "string \<Rightarrow> string + string" where
  "normalizeMethod m = (let upper = to_upper m in
     if upper \<in> set forbidden_methods then Inl ''Forbidden HTTP method''
     else if m = [] \<or> \<not> list_all token_char m then Inl ''Invalid HTTP method''
     else Inr (if upper \<in> set known_methods then upper else m))"

datatype signal_arg = Signal nat | NotSignal

record request =
  q_url :: string
  q_method :: string
  q_headers :: headers
  q_signal :: nat
  q_cache :: string
  q_credentials :: string
  q_integrity :: string
  q_keepalive :: bool
  q_mode :: string
  q_redirect :: string
  q_referrer :: string
  q_referrerPolicy :: string
  q_body :: body

text \<open>The argument \<open>init\<close>; \<open>None\<close> is \<open>undefined\<close>.\<close>

record request_init =
  i_method :: "string option"
  i_headers :: "headers_init option"
  i_signal :: "signal_arg option"
  i_cache :: "string option"
  i_credentials :: "string option"
  i_integrity :: "string option"
  i_keepalive :: "bool option"
  i_mode :: "string option"
  i_redirect :: "string option"
  i_referrer :: "string option"
  i_referrerPolicy :: "string option"
  i_body :: "body_init option"

definition no_init :: request_init where
  "no_init = \<lparr>i_method = None, i_headers = None, i_signal = None, i_cache = None, i_credentials = None,
     i_integrity = None, i_keepalive = None, i_mode = None, i_redirect = None, i_referrer = None,
     i_referrerPolicy = None, i_body = None\<rparr>"

datatype request_input = Url string | FromRequest request

text \<open>\<open>init.x !== undefined ? init.x : source ? source.x : default\<close>.\<close>

definition pick :: "'a option \<Rightarrow> request_input \<Rightarrow> (request \<Rightarrow> 'a) \<Rightarrow> 'a \<Rightarrow> 'a" where
  "pick v input f d = (case v of Some x \<Rightarrow> x | None \<Rightarrow> (case input of FromRequest src \<Rightarrow> f src | Url _ \<Rightarrow> d))"

abbreviation has_content_type :: "headers \<Rightarrow> bool" where
  "has_content_type h \<equiv> map_of h ''content-type'' \<noteq> None"

definition default_content_type :: "string \<Rightarrow> headers \<Rightarrow> headers option" where
  "default_content_type t h = (if has_content_type h then Some h else headers_set ''content-type'' t h)"

text \<open>The chain of tests that sets the header \<open>content-type\<close> and encodes form data.\<close>

definition prepare_body :: "natives \<Rightarrow> body_init \<Rightarrow> headers \<Rightarrow> body_init \<times> headers option" where
  "prepare_body N b h = (case b of
       BForm form \<Rightarrow> (case encodeFormData N form of (bs, t) \<Rightarrow> (BBytes bs, default_content_type t h))
     | BBlob bl \<Rightarrow> (b, if blob_type bl \<noteq> [] then default_content_type (blob_type bl) h else Some h)
     | BParams s \<Rightarrow> (b, default_content_type ''application/x-www-form-urlencoded;charset=UTF-8'' h)
     | BText s \<Rightarrow> (b, default_content_type ''text/plain;charset=UTF-8'' h)
     | _ \<Rightarrow> (b, Some h))"

definition content_type :: "headers \<Rightarrow> string" where
  "content_type h = (case map_of h ''content-type'' of Some vs \<Rightarrow> join '', '' vs | None \<Rightarrow> [])"

text \<open>The fields, then the checks, then the body. \<open>fresh\<close> is the signal of a new controller.\<close>

definition request_fields :: "nat \<Rightarrow> request_input \<Rightarrow> request_init \<Rightarrow> string \<Rightarrow> headers \<Rightarrow> nat \<Rightarrow> request" where
  "request_fields fresh input init m h sig = \<lparr>
     q_url = (case input of FromRequest src \<Rightarrow> q_url src | Url u \<Rightarrow> u), q_method = m, q_headers = h, q_signal = sig,
     q_cache = pick (i_cache init) input q_cache ''default'',
     q_credentials = pick (i_credentials init) input q_credentials ''same-origin'',
     q_integrity = pick (i_integrity init) input q_integrity [],
     q_keepalive = pick (i_keepalive init) input q_keepalive False,
     q_mode = pick (i_mode init) input q_mode ''cors'',
     q_redirect = pick (i_redirect init) input q_redirect ''follow'',
     q_referrer = pick (i_referrer init) input q_referrer ''about:client'',
     q_referrerPolicy = pick (i_referrerPolicy init) input q_referrerPolicy [],
     q_body = \<lparr>bodyBuffer = [], bodyUsed = False, contentType = []\<rparr>\<rparr>"

definition redirect_modes :: "string list" where
  "redirect_modes = [''follow'', ''error'', ''manual'']"

definition request_body :: "natives \<Rightarrow> body_init \<Rightarrow> request \<Rightarrow> string + request" where
  "request_body N b q =
     (if q_method q \<in> {''GET'', ''HEAD''} \<and> b \<noteq> NoBody \<and> body_toBuffer N b \<noteq> []
      then Inl ''GET and HEAD requests cannot have a body''
      else case prepare_body N b (q_headers q) of
        (b', None) \<Rightarrow> Inl ''Invalid HTTP header value''
      | (b', Some h) \<Rightarrow> Inr (q\<lparr>q_headers := h, q_body := initBody N b' (content_type h)\<rparr>))"

definition new_Request :: "natives \<Rightarrow> nat \<Rightarrow> request_input \<Rightarrow> request_init \<Rightarrow> string + request" where
  "new_Request N fresh input init =
     (case normalizeMethod (pick (i_method init) input q_method ''GET'') of
        Inl e \<Rightarrow> Inl e
      | Inr m \<Rightarrow>
          (case headers_new (pick (i_headers init) input (\<lambda>src. FromHeaders (q_headers src)) NoInit) of
             None \<Rightarrow> Inl ''Invalid HTTP header''
           | Some h \<Rightarrow>
               (case pick (i_signal init) input (\<lambda>src. Signal (q_signal src)) (Signal fresh) of
                  NotSignal \<Rightarrow> Inl ''signal must be an AbortSignal''
                | Signal sig \<Rightarrow>
                    let q = request_fields fresh input init m h sig in
                    if q_redirect q \<notin> set redirect_modes then Inl ''Invalid redirect mode''
                    else request_body N (pick (i_body init) input (\<lambda>src. BBytes (bodyBuffer (q_body src))) NoBody) q)))"

definition request_clone :: "natives \<Rightarrow> nat \<Rightarrow> request \<Rightarrow> string + request" where
  "request_clone N fresh q =
     (if bodyUsed (q_body q) then Inl ''Body has already been consumed'' else new_Request N fresh (FromRequest q) no_init)"

record native_request =
  n_method :: string
  n_url :: string
  n_headers :: "(string \<times> string) list"
  n_body :: bytes
  n_signalId :: nat
  n_redirect :: string

definition nativeRequest :: "request \<Rightarrow> native_request" where
  "nativeRequest q = \<lparr>n_method = q_method q, n_url = q_url q, n_headers = sortedHeaderEntries (q_headers q),
     n_body = bodyBuffer (q_body q), n_signalId = q_signal q, n_redirect = q_redirect q\<rparr>"

section \<open>Responses\<close>

record response =
  p_status :: int
  p_statusText :: string
  p_headers :: headers
  p_url :: string
  p_redirected :: bool
  p_type :: string
  p_body :: body

record response_init =
  j_internal :: bool
  j_status :: "jsnum option"
  j_statusText :: "string option"
  j_headers :: headers_init
  j_url :: "string option"
  j_redirected :: bool
  j_type :: "string option"

definition no_response_init :: response_init where
  "no_response_init = \<lparr>j_internal = False, j_status = None, j_statusText = None, j_headers = NoInit, j_url = None,
     j_redirected = False, j_type = None\<rparr>"

definition null_body_status :: "int list" where
  "null_body_status = [101, 204, 205, 304]"

definition is_crlf :: "char \<Rightarrow> bool" where
  "is_crlf c \<longleftrightarrow> char_code c = 10 \<or> char_code c = 13"

definition init_status :: "response_init \<Rightarrow> jsnum" where
  "init_status init = (case j_status init of None \<Rightarrow> Fin 200 | Some n \<Rightarrow> n)"

definition num_int :: "jsnum \<Rightarrow> int" where
  "num_int n = (case n of Fin k \<Rightarrow> k | _ \<Rightarrow> 0)"

definition init_statusText :: "response_init \<Rightarrow> string" where
  "init_statusText init = (case j_statusText init of None \<Rightarrow> [] | Some t \<Rightarrow> t)"

definition status_bad :: "jsnum \<Rightarrow> bool" where
  "status_bad st \<longleftrightarrow> \<not> num_is_finite st \<or> num_int st < 200 \<or> 599 < num_int st"

definition new_Response :: "natives \<Rightarrow> body_init \<Rightarrow> response_init \<Rightarrow> string + response" where
  "new_Response N b init =
     (if \<not> j_internal init \<and> status_bad (init_status init) then Inl ''Invalid response status''
      else if \<not> j_internal init \<and> num_int (init_status init) \<in> set null_body_status \<and> b \<noteq> NoBody
      then Inl ''Response status cannot have a body''
      else case headers_new (j_headers init) of
        None \<Rightarrow> Inl ''Invalid HTTP header''
      | Some h \<Rightarrow>
          if list_ex is_crlf (init_statusText init) then Inl ''Invalid response statusText''
          else Inr \<lparr>p_status = num_int (init_status init), p_statusText = init_statusText init, p_headers = h,
            p_url = (case j_url init of None \<Rightarrow> [] | Some u \<Rightarrow> u), p_redirected = j_redirected init,
            p_type = (case j_type init of None \<Rightarrow> ''default'' | Some t \<Rightarrow> t),
            p_body = initBody N b (content_type h)\<rparr>)"

definition response_ok :: "response \<Rightarrow> bool" where
  "response_ok p \<longleftrightarrow> 200 \<le> p_status p \<and> p_status p \<le> 299"

definition response_clone :: "natives \<Rightarrow> response \<Rightarrow> string + response" where
  "response_clone N p =
     (if bodyUsed (p_body p) then Inl ''Body has already been consumed''
      else new_Response N (BBytes (bodyBuffer (p_body p))) \<lparr>j_internal = True, j_status = Some (Fin (p_status p)),
        j_statusText = Some (p_statusText p), j_headers = FromHeaders (p_headers p), j_url = Some (p_url p),
        j_redirected = p_redirected p, j_type = Some (p_type p)\<rparr>)"

definition response_error :: "natives \<Rightarrow> string + response" where
  "response_error N = new_Response N NoBody (no_response_init\<lparr>j_internal := True, j_status := Some (Fin 0), j_type := Some ''error''\<rparr>)"

definition response_redirect :: "natives \<Rightarrow> string \<Rightarrow> jsnum option \<Rightarrow> string + response" where
  "response_redirect N url st = (let s = (case st of None \<Rightarrow> Fin 302 | Some n \<Rightarrow> n) in
     if s \<notin> Fin ` {301, 302, 303, 307, 308} then Inl ''Invalid redirect status''
     else new_Response N NoBody (no_response_init\<lparr>j_status := Some s, j_headers := FromObject [(''location'', url)]\<rparr>))"

text \<open>\<open>Response.json\<close>, with what \<open>JSON.stringify\<close> returned: nothing for a value it cannot print.\<close>

definition response_json :: "natives \<Rightarrow> string option \<Rightarrow> response_init \<Rightarrow> string + response" where
  "response_json N serialized init = (case serialized of
       None \<Rightarrow> Inl ''Value is not JSON serializable''
     | Some txt \<Rightarrow> (case headers_new (j_headers init) of
         None \<Rightarrow> Inl ''Invalid HTTP header''
       | Some h \<Rightarrow> (case default_content_type ''application/json'' h of
           None \<Rightarrow> Inl ''Invalid HTTP header value''
         | Some h' \<Rightarrow> new_Response N (BText txt) (init\<lparr>j_headers := FromHeaders h'\<rparr>))))"

record raw_response =
  w_status :: int
  w_statusText :: string
  w_headers :: "(string \<times> string) list"
  w_url :: string
  w_redirected :: bool
  w_body :: bytes

definition rawToResponse :: "natives \<Rightarrow> raw_response \<Rightarrow> string + response" where
  "rawToResponse N raw = new_Response N (BBytes (w_body raw)) \<lparr>j_internal = True, j_status = Some (Fin (w_status raw)),
     j_statusText = Some (w_statusText raw), j_headers = FromPairs (map (\<lambda>(n, v). [n, v]) (w_headers raw)),
     j_url = Some (w_url raw), j_redirected = w_redirected raw, j_type = Some ''basic''\<rparr>"

section \<open>\<open>fetch\<close>\<close>

text \<open>The synchronous part: the promise is rejected at once, or the native request is under way. The
  argument \<open>aborted\<close> gives the reason of an aborted signal. The second result is the source request
  afterwards.\<close>

datatype fetch_start = Rejected string | Sent request native_request

definition fetch :: "natives \<Rightarrow> (nat \<Rightarrow> string option) \<Rightarrow> nat \<Rightarrow> request_input \<Rightarrow> request_init \<Rightarrow> fetch_start \<times> request_input" where
  "fetch N aborted fresh input init =
     (case input of
        FromRequest src \<Rightarrow>
          if bodyUsed (q_body src) then (Rejected ''Body has already been consumed'', input)
          else (case new_Request N fresh input init of
            Inl e \<Rightarrow> (Rejected e, input)
          | Inr q \<Rightarrow> (case aborted (q_signal q) of
              Some reason \<Rightarrow> (Rejected reason, input)
            | None \<Rightarrow> (Sent q (nativeRequest q),
                FromRequest (if bodyBuffer (q_body src) \<noteq> [] then src\<lparr>q_body := (q_body src)\<lparr>bodyUsed := True\<rparr>\<rparr> else src))))
      | Url u \<Rightarrow>
          (case new_Request N fresh input init of
            Inl e \<Rightarrow> (Rejected e, input)
          | Inr q \<Rightarrow> (case aborted (q_signal q) of
              Some reason \<Rightarrow> (Rejected reason, input) | None \<Rightarrow> (Sent q (nativeRequest q), input))))"

text \<open>The two callbacks of the native promise.\<close>

definition fetch_settled :: "natives \<Rightarrow> (nat \<Rightarrow> string option) \<Rightarrow> request \<Rightarrow> string + raw_response \<Rightarrow> string + response" where
  "fetch_settled N aborted q result = (case result of
       Inr raw \<Rightarrow> rawToResponse N raw
     | Inl err \<Rightarrow> (case aborted (q_signal q) of Some reason \<Rightarrow> Inl reason | None \<Rightarrow> Inl err))"

section \<open>Invariants\<close>

definition method_ok :: "string \<Rightarrow> bool" where
  "method_ok m \<longleftrightarrow> m \<noteq> [] \<and> list_all token_char m \<and> to_upper m \<notin> set forbidden_methods \<and>
     (to_upper m \<in> set known_methods \<longrightarrow> m = to_upper m)"

definition request_ok :: "request \<Rightarrow> bool" where
  "request_ok q \<longleftrightarrow> method_ok (q_method q) \<and> headers_ok (q_headers q) \<and> q_redirect q \<in> set redirect_modes \<and>
     (q_method q \<in> {''GET'', ''HEAD''} \<longrightarrow> bodyBuffer (q_body q) = []) \<and>
     contentType (q_body q) = content_type (q_headers q)"

lemma known_method_ok: "m \<in> set known_methods \<Longrightarrow> method_ok m"
proof -
  have "list_all method_ok known_methods" by code_simp
  then show "m \<in> set known_methods \<Longrightarrow> method_ok m" by (simp add: list_all_iff)
qed

lemma normalizeMethod_ok: "normalizeMethod m = Inr n \<Longrightarrow> method_ok n"
  by (auto simp: normalizeMethod_def Let_def known_method_ok split: if_splits) (auto simp: method_ok_def)

lemma normalizeMethod_id: "method_ok m \<Longrightarrow> normalizeMethod m = Inr m"
  by (auto simp: normalizeMethod_def method_ok_def Let_def)

lemma default_content_type_ok: "headers_ok h \<Longrightarrow> default_content_type t h = Some h' \<Longrightarrow> headers_ok h'"
  by (auto simp: default_content_type_def dest: headers_ok_put split: if_splits)

lemma prepare_body_ok: "headers_ok h \<Longrightarrow> prepare_body N b h = (b', Some h') \<Longrightarrow> headers_ok h'"
  by (auto simp: prepare_body_def dest: default_content_type_ok split: body_init.splits prod.splits if_splits)

lemma prepare_body_empty:
  assumes "prepare_body N b h = (b', Some h')" and "b = NoBody \<or> body_toBuffer N b = []"
    and "nativeBodyBuffer N ''[object FormData]'' \<noteq> []"
  shows "bodyBuffer (initBody N b' t) = []"
  using assms
  by (cases b) (auto simp: prepare_body_def initBody_def body_toBuffer_def split: prod.splits)

lemma request_body_ok:
  assumes "request_body N b q = Inr q'" and "method_ok (q_method q)" and "headers_ok (q_headers q)"
    and "q_redirect q \<in> set redirect_modes" and "nativeBodyBuffer N ''[object FormData]'' \<noteq> []"
  shows "request_ok q' \<and> \<not> bodyUsed (q_body q')"
  using assms prepare_body_empty [of N b "q_headers q"]
  by (auto simp: request_body_def request_ok_def initBody_def prepare_body_ok split: if_splits option.splits prod.splits)

lemma request_fields_simps [simp]:
  "q_method (request_fields fresh input init m h sig) = m" "q_headers (request_fields fresh input init m h sig) = h"
  by (simp_all add: request_fields_def)

lemma new_Request_same:
  assumes "request_ok q" and "\<not> bodyUsed (q_body q)"
  shows "new_Request N fresh (FromRequest q) no_init = Inr q"
  using assms
  by (auto simp: new_Request_def pick_def no_init_def request_ok_def normalizeMethod_id request_fields_def
      request_body_def prepare_body_def initBody_def body_toBuffer_def Let_def)

lemma initBody_again:
  "initBody N (BBytes (bodyBuffer (initBody N b t))) t = initBody N b t" "\<not> bodyUsed (initBody N b t)"
  "bodyBuffer (initBody N NoBody t) = []"
  by (simp_all add: initBody_def body_toBuffer_def split: body_init.split)

section \<open>Properties\<close>

text \<open>C33: Every request the constructor makes is well formed: its method is a valid token, not one of the
  forbidden ones, and in upper case if it is a known one; its headers are safe; its redirect mode is one
  of the three; it has no body if its method is GET or HEAD; the type of the body is that of the header;
  and the body is not yet used. (The text encoder of the runtime does not make the text
  \<open>[object FormData]\<close> empty.)\<close>

theorem request_wellformed:
  assumes "new_Request N fresh input init = Inr q"
    and "\<forall>src. input = FromRequest src \<longrightarrow> request_ok src"
    and "\<forall>h. i_headers init = Some (FromHeaders h) \<longrightarrow> headers_ok h"
    and "nativeBodyBuffer N ''[object FormData]'' \<noteq> []"
  shows "request_ok q \<and> \<not> bodyUsed (q_body q)"
proof -
  obtain m h sig where m: "normalizeMethod (pick (i_method init) input q_method ''GET'') = Inr m"
    and h: "headers_new (pick (i_headers init) input (\<lambda>src. FromHeaders (q_headers src)) NoInit) = Some h"
    and body: "q_redirect (request_fields fresh input init m h sig) \<in> set redirect_modes"
      "request_body N (pick (i_body init) input (\<lambda>src. BBytes (bodyBuffer (q_body src))) NoBody)
        (request_fields fresh input init m h sig) = Inr q"
    using assms(1) by (auto simp: new_Request_def Let_def split: sum.splits option.splits signal_arg.splits if_splits)
  have "headers_ok h"
    using h by (rule headers_ok_new) (use assms(2,3) in \<open>auto simp: pick_def request_ok_def split: option.splits request_input.splits\<close>)
  then show ?thesis using request_body_ok [OF body(2)] body(1) normalizeMethod_ok [OF m] assms(4) by simp
qed

definition post_init :: request_init where
  "post_init = no_init\<lparr>i_method := Some ''post'', i_body := Some (BText ''hi'')\<rparr>"

lemma post_init_eval: "\<exists>q. new_Request plain_natives 0 (Url ''http://h/'') post_init = Inr q \<and> q_method q = ''POST'' \<and> bodyBuffer (q_body q) = [104, 105]"
proof -
  have "normalizeMethod ''post'' = Inr ''POST''" by code_simp
  moreover have "headers_set ''content-type'' ''text/plain;charset=UTF-8'' [] = Some [(''content-type'', [''text/plain;charset=UTF-8''])]"
    by code_simp
  moreover have "nativeBodyBuffer plain_natives ''hi'' = [104, 105]" by code_simp
  ultimately show ?thesis
    by (simp add: new_Request_def post_init_def no_init_def pick_def request_fields_def redirect_modes_def request_body_def
        prepare_body_def default_content_type_def initBody_def body_toBuffer_def Let_def)
qed

theorem request_wellformed_witness:
  "\<exists>q. new_Request plain_natives 0 (Url ''http://h/'') post_init = Inr q \<and> request_ok q \<and> q_method q = ''POST''"
proof -
  obtain q where q: "new_Request plain_natives 0 (Url ''http://h/'') post_init = Inr q" "q_method q = ''POST''"
    using post_init_eval by blast
  have "nativeBodyBuffer plain_natives ''[object FormData]'' \<noteq> []" by (simp add: plain_natives_def)
  then have "request_ok q" using request_wellformed [OF q(1)] by (simp add: post_init_def no_init_def)
  with q show ?thesis by blast
qed

text \<open>A clone is the same request. For a well-formed request whose body is not used, \<open>clone\<close> never throws
  and gives a request with the same URL, method, headers, signal, options and body.\<close>

theorem request_clone_same:
  assumes "request_ok q" and "\<not> bodyUsed (q_body q)"
  shows "request_clone N fresh q = Inr q"
  using assms by (simp add: request_clone_def new_Request_same)

definition sample_request :: request where
  "sample_request = \<lparr>q_url = ''/x'', q_method = ''PUT'', q_headers = [(''a'', [''1''])], q_signal = 3, q_cache = ''default'',
     q_credentials = ''omit'', q_integrity = [], q_keepalive = True, q_mode = ''cors'', q_redirect = ''manual'',
     q_referrer = [], q_referrerPolicy = [], q_body = \<lparr>bodyBuffer = [1, 2], bodyUsed = False, contentType = []\<rparr>\<rparr>"

lemma sample_request_ok: "request_ok sample_request"
  by code_simp

theorem request_clone_same_witness: "request_clone plain_natives 9 sample_request = Inr sample_request"
  by (rule request_clone_same [OF sample_request_ok]) (simp add: sample_request_def)

text \<open>A response made by a program has a status from 200 to 599 and no line break in its status text,
  and a clone of any unused response is that response: status, text, headers, URL, type and body.\<close>

theorem response_wellformed_and_cloned:
  assumes "new_Response N b init = Inr p"
  shows "(j_internal init \<or> 200 \<le> p_status p \<and> p_status p \<le> 599) \<and> \<not> list_ex is_crlf (p_statusText p) \<and>
     (j_internal init \<or> p_status p \<notin> set null_body_status \<or> bodyBuffer (p_body p) = []) \<and>
     response_clone N p = Inr p"
proof -
  obtain h where h: "\<not> j_internal init \<longrightarrow> \<not> status_bad (init_status init)"
    "\<not> j_internal init \<and> num_int (init_status init) \<in> set null_body_status \<longrightarrow> b = NoBody"
    "\<not> list_ex is_crlf (init_statusText init)"
    and p: "p = \<lparr>p_status = num_int (init_status init), p_statusText = init_statusText init, p_headers = h,
      p_url = (case j_url init of None \<Rightarrow> [] | Some u \<Rightarrow> u), p_redirected = j_redirected init,
      p_type = (case j_type init of None \<Rightarrow> ''default'' | Some t \<Rightarrow> t), p_body = initBody N b (content_type h)\<rparr>"
    using assms unfolding new_Response_def by (auto split: if_splits option.splits)
  have "response_clone N p = Inr p"
    using h(3) unfolding p
    by (simp add: response_clone_def new_Response_def init_status_def init_statusText_def num_int_def initBody_again)
  then show ?thesis using h unfolding p by (auto simp: status_bad_def initBody_again)
qed

theorem response_wellformed_and_cloned_witness:
  "\<exists>p. new_Response plain_natives (BBytes [7]) (no_response_init\<lparr>j_status := Some (Fin 404)\<rparr>) = Inr p \<and>
     p_status p = 404 \<and> response_clone plain_natives p = Inr p"
proof -
  obtain p where p: "new_Response plain_natives (BBytes [7]) (no_response_init\<lparr>j_status := Some (Fin 404)\<rparr>) = Inr p" "p_status p = 404"
    by (simp add: new_Response_def no_response_init_def null_body_status_def init_status_def init_statusText_def num_int_def
        status_bad_def)
  with response_wellformed_and_cloned [OF p(1)] show ?thesis by blast
qed

text \<open>\<open>fetch\<close> sends what the request says, and a body is sent once. For a well-formed request that is neither
  used nor aborted, the native request has its method, URL, sorted headers, body, signal and redirect
  mode; if the body is not empty the request is used afterwards and a second \<open>fetch\<close> of it is
  rejected. If the signal is aborted, nothing is sent, the promise is rejected with the reason, and the
  request can still be used.\<close>

theorem fetch_sends_request_once:
  assumes "request_ok src" and "\<not> bodyUsed (q_body src)"
  defines "used \<equiv> src\<lparr>q_body := (q_body src)\<lparr>bodyUsed := True\<rparr>\<rparr>"
  shows "(aborted (q_signal src) = None \<and> bodyBuffer (q_body src) \<noteq> [] \<longrightarrow>
       fetch N aborted fresh (FromRequest src) no_init = (Sent src (nativeRequest src), FromRequest used) \<and>
       fetch N aborted fresh' (FromRequest used) init = (Rejected ''Body has already been consumed'', FromRequest used)) \<and>
     (aborted (q_signal src) = None \<and> bodyBuffer (q_body src) = [] \<longrightarrow>
       fetch N aborted fresh (FromRequest src) no_init = (Sent src (nativeRequest src), FromRequest src)) \<and>
     (\<forall>reason. aborted (q_signal src) = Some reason \<longrightarrow>
       fetch N aborted fresh (FromRequest src) no_init = (Rejected reason, FromRequest src))"
  using new_Request_same [OF assms(1,2)] assms(2) by (simp add: fetch_def used_def)

theorem fetch_sends_request_once_witness:
  "fetch plain_natives (\<lambda>_. None) 9 (FromRequest sample_request) no_init =
     (Sent sample_request (nativeRequest sample_request),
      FromRequest (sample_request\<lparr>q_body := \<lparr>bodyBuffer = [1, 2], bodyUsed = True, contentType = []\<rparr>\<rparr>))"
  using fetch_sends_request_once [OF sample_request_ok, of "\<lambda>_. None" plain_natives 9 0 no_init]
  by (simp add: sample_request_def)

end
