(* ===== verification/Xhr.thy ===== *)
theory Xhr
  imports Web_Fetch
begin

text \<open>
  \<open>XMLHttpRequest\<close> (\<open>src/pkg/jsruntime/xhr/api.js\<close>), one object and what happens to it.

  The listeners of the program are one function: for an event and the state it gives the calls that the
  listeners make on the object, and the flag whether they throw. \<open>log\<close> records the events in order, those of
  \<open>upload\<close> with \<open>U\<close>. The promise chain of \<open>send\<close> is a list of requests in flight, by their generation, and a
  list of bodies that have arrived; a timer is the generation its callback was made with. The world
  outside answers, fails or times out in any order (the relation \<open>xstep\<close>).

  The dispatch of an event calls listeners that call methods that dispatch events; the number that the
  operations pass down bounds that depth, and \<open>Stuck\<close> is the outcome when it is too small.
\<close>

section \<open>The object\<close>

datatype xevent = ReadyStateChange nat | LoadStart | Progress int int | Load | LoadEnd | AbortEvent | ErrorEvent
  | TimeoutEvent | U xevent

datatype xresponse = NoResponse | RText string | RBuffer bytes | RBlob blob | RJson string

record xhr =
  x_readyState :: nat
  x_method :: string
  x_url :: string
  x_async :: bool
  x_requestHeaders :: headers
  x_responseHeaders :: "headers option"
  x_responseBuffer :: bytes
  x_responseText :: string
  x_response :: xresponse
  x_responseType :: string
  x_responseURL :: string
  x_status :: int
  x_statusText :: string
  x_timeout :: int
  x_overrideMimeType :: string
  x_sendFlag :: bool
  x_controller :: "nat option"
  x_timeoutTimer :: "nat option"
  x_generation :: nat

definition new_XHR :: xhr where
  "new_XHR = \<lparr>x_readyState = 0, x_method = ''GET'', x_url = [], x_async = True, x_requestHeaders = [],
     x_responseHeaders = None, x_responseBuffer = [], x_responseText = [], x_response = NoResponse,
     x_responseType = [], x_responseURL = [], x_status = 0, x_statusText = [], x_timeout = 0,
     x_overrideMimeType = [], x_sendFlag = False, x_controller = None, x_timeoutTimer = None, x_generation = 0\<rparr>"

record xworld =
  obj :: xhr
  log :: "xevent list"
  in_flight :: "(nat \<times> native_request) list"
  bodies :: "(nat \<times> bytes) list"
  timers :: "nat list"
  aborts :: "nat list"
  next_controller :: nat
  sends :: nat

datatype xerror = SecurityError | SyntaxError | InvalidStateError | InvalidAccessError | XTypeError string | ListenerError

type_synonym 'a xcode = "(xworld, xerror, 'a) js"

datatype xcall = XOpen string string "bool option" | XSetRequestHeader string string | XOverrideMimeType string
  | XSend body_init | XAbort | XSetResponseType string | XSetTimeout jsnum

type_synonym xlisteners = "xevent \<Rightarrow> xworld \<Rightarrow> xcall list \<times> bool"

text \<open>The native functions: the coders, the synchronous request (\<open>None\<close> when it throws), \<open>JSON.parse\<close> as a
  test, and the number a header text stands for.\<close>

record xnative =
  coders :: natives
  fetchSync :: "native_request \<Rightarrow> raw_response option"
  json_valid :: "string \<Rightarrow> bool"
  to_number :: "string \<Rightarrow> int"

section \<open>Straight-line parts\<close>

definition resetResponse :: "xhr \<Rightarrow> xhr" where
  "resetResponse x = x\<lparr>x_status := 0, x_statusText := [], x_responseURL := [], x_responseHeaders := None,
     x_responseBuffer := [], x_responseText := [], x_response := NoResponse\<rparr>"

text \<open>\<open>clearTimeout\<close> removes the timer from the queue of the host.\<close>

definition clearXHRTimeout :: "xworld \<Rightarrow> xworld" where
  "clearXHRTimeout w = (case x_timeoutTimer (obj w) of
       None \<Rightarrow> w
     | Some g \<Rightarrow> w\<lparr>obj := (obj w)\<lparr>x_timeoutTimer := None\<rparr>, timers := filter (\<lambda>h. h \<noteq> g) (timers w)\<rparr>)"

definition isCurrent :: "nat \<Rightarrow> xhr \<Rightarrow> bool" where
  "isCurrent g x \<longleftrightarrow> x_sendFlag x \<and> g = x_generation x"

text \<open>\<open>controller.abort()\<close>: the native side is told.\<close>

definition abort_controller :: "xworld \<Rightarrow> xworld" where
  "abort_controller w = (case x_controller (obj w) of None \<Rightarrow> w | Some c \<Rightarrow> w\<lparr>aborts := aborts w @ [c]\<rparr>)"

definition open_begin :: "string \<Rightarrow> string \<Rightarrow> bool option \<Rightarrow> xworld \<Rightarrow> xworld" where
  "open_begin m url as w =
     (let w1 = abort_controller (w\<lparr>obj := (obj w)\<lparr>x_generation := Suc (x_generation (obj w))\<rparr>\<rparr>);
          w2 = clearXHRTimeout (w1\<lparr>obj := (obj w1)\<lparr>
            x_method := (if to_upper m \<in> set known_methods then to_upper m else m), x_url := url,
            x_async := (case as of None \<Rightarrow> True | Some b \<Rightarrow> b), x_requestHeaders := [], x_sendFlag := False,
            x_controller := None\<rparr>\<rparr>)
      in w2\<lparr>obj := (resetResponse (obj w2))\<lparr>x_readyState := 1\<rparr>\<rparr>)"

definition send_begin :: "xworld \<Rightarrow> nat \<times> xworld" where
  "send_begin w = (let g = Suc (x_generation (obj w)) in
     (g, w\<lparr>obj := (resetResponse ((obj w)\<lparr>x_sendFlag := True\<rparr>))\<lparr>x_controller := Some (next_controller w), x_generation := g\<rparr>,
           next_controller := Suc (next_controller w), sends := Suc (sends w)\<rparr>))"

definition abort_xhr_begin :: "xworld \<Rightarrow> bool \<times> xworld" where
  "abort_xhr_begin w =
     (let w1 = clearXHRTimeout (abort_controller (w\<lparr>obj := (obj w)\<lparr>x_generation := Suc (x_generation (obj w)), x_sendFlag := False\<rparr>\<rparr>))
      in (x_sendFlag (obj w), w1\<lparr>obj := (resetResponse (obj w1))\<lparr>x_readyState := 0\<rparr>\<rparr>))"

definition headers_begin :: "int \<Rightarrow> string \<Rightarrow> string \<Rightarrow> headers \<Rightarrow> xhr \<Rightarrow> xhr" where
  "headers_begin st txt url h x = x\<lparr>x_status := st, x_statusText := txt, x_responseURL := url, x_responseHeaders := Some h\<rparr>"

definition error_begin :: "xworld \<Rightarrow> xworld" where
  "error_begin w = (let w1 = clearXHRTimeout (w\<lparr>obj := (obj w)\<lparr>x_sendFlag := False\<rparr>\<rparr>)
     in w1\<lparr>obj := resetResponse (obj w1)\<rparr>)"

definition timeout_begin :: "xworld \<Rightarrow> xworld" where
  "timeout_begin w =
     (let w1 = clearXHRTimeout (abort_controller (w\<lparr>obj := (obj w)\<lparr>x_generation := Suc (x_generation (obj w)), x_sendFlag := False\<rparr>\<rparr>))
      in w1\<lparr>obj := resetResponse (obj w1)\<rparr>)"

text \<open>The characters that \<open>trim\<close> removes.\<close>

definition js_space :: "char \<Rightarrow> bool" where
  "js_space c \<longleftrightarrow> char_code c \<in> {9, 10, 11, 12, 13, 32, 160}"

definition responseMimeType :: "xhr \<Rightarrow> string" where
  "responseMimeType x =
     (if x_overrideMimeType x \<noteq> [] then
        to_lower (trim_with js_space (takeWhile (\<lambda>c. c \<noteq> CHR '';'') (x_overrideMimeType x)))
      else case x_responseHeaders x of Some h \<Rightarrow> content_type h | None \<Rightarrow> [])"

definition response_value :: "xnative \<Rightarrow> xhr \<Rightarrow> xresponse" where
  "response_value N x =
     (if x_responseType x = ''arraybuffer'' then RBuffer (x_responseBuffer x)
      else if x_responseType x = ''blob'' then RBlob (new_Blob (coders N) [BBytes (x_responseBuffer x)] (Some (responseMimeType x)))
      else if x_responseType x = ''json'' then (if json_valid N (x_responseText x) then RJson (x_responseText x) else NoResponse)
      else if x_responseType x = ''document'' then NoResponse
      else RText (x_responseText x))"

definition body_finish :: "xnative \<Rightarrow> xworld \<Rightarrow> xworld" where
  "body_finish N w =
     (let x = (obj w)\<lparr>x_responseText := nativeBodyText (coders N) (x_responseBuffer (obj w))\<rparr>
      in clearXHRTimeout (w\<lparr>obj := x\<lparr>x_response := response_value N x, x_sendFlag := False\<rparr>\<rparr>))"

definition body_total :: "xnative \<Rightarrow> xhr \<Rightarrow> int" where
  "body_total N x = (case x_responseHeaders x of
       None \<Rightarrow> int (length (x_responseBuffer x))
     | Some h \<Rightarrow> (case map_of h ''content-length'' of
         None \<Rightarrow> int (length (x_responseBuffer x)) | Some vs \<Rightarrow> to_number N (join '', '' vs)))"

section \<open>Events and operations\<close>

text \<open>\<open>dispatchEvent\<close>: the event is logged, then the listeners make their calls through \<open>call\<close>.\<close>

definition fire :: "xlisteners \<Rightarrow> (xcall \<Rightarrow> unit xcode) \<Rightarrow> xevent \<Rightarrow> unit xcode" where
  "fire L call e =
     js_seq (js_mod (\<lambda>w. w\<lparr>log := log w @ [e]\<rparr>))
       (js_bind (js_get (L e)) (\<lambda>(calls, throws).
         js_seq (js_for calls call) (if throws then js_throw ListenerError else js_ret ())))"

definition changeState :: "xlisteners \<Rightarrow> (xcall \<Rightarrow> unit xcode) \<Rightarrow> nat \<Rightarrow> unit xcode" where
  "changeState L call st =
     js_seq (js_mod (\<lambda>w. w\<lparr>obj := (obj w)\<lparr>x_readyState := st\<rparr>\<rparr>)) (fire L call (ReadyStateChange st))"

definition acceptHeaders :: "xlisteners \<Rightarrow> (xcall \<Rightarrow> unit xcode) \<Rightarrow> int \<Rightarrow> string \<Rightarrow> string \<Rightarrow> (string \<times> string) list \<Rightarrow> unit xcode" where
  "acceptHeaders L call st txt url hs =
     (case append_pairs (map (\<lambda>(n, v). [n, v]) hs) [] of
        None \<Rightarrow> js_seq (js_mod (\<lambda>w. w\<lparr>obj := (obj w)\<lparr>x_status := st, x_statusText := txt, x_responseURL := url\<rparr>\<rparr>))
          (js_throw (XTypeError ''Invalid HTTP header''))
      | Some h \<Rightarrow> js_seq (js_mod (\<lambda>w. w\<lparr>obj := headers_begin st txt url h (obj w)\<rparr>)) (changeState L call 2))"

definition acceptBody :: "xlisteners \<Rightarrow> (xcall \<Rightarrow> unit xcode) \<Rightarrow> xnative \<Rightarrow> bytes \<Rightarrow> unit xcode" where
  "acceptBody L call N buf =
     js_seq (js_mod (\<lambda>w. w\<lparr>obj := (obj w)\<lparr>x_responseBuffer := buf\<rparr>\<rparr>))
     (js_seq (changeState L call 3)
     (js_bind (js_get (\<lambda>w. (int (length (x_responseBuffer (obj w))), body_total N (obj w)))) (\<lambda>(loaded, tot).
      js_seq (fire L call (Progress loaded tot))
      (js_seq (js_mod (body_finish N))
      (js_seq (changeState L call 4)
      (js_seq (fire L call Load) (fire L call LoadEnd)))))))"

definition networkError :: "xlisteners \<Rightarrow> (xcall \<Rightarrow> unit xcode) \<Rightarrow> unit xcode" where
  "networkError L call =
     js_seq (js_mod error_begin) (js_seq (changeState L call 4) (js_seq (fire L call ErrorEvent) (fire L call LoadEnd)))"

definition handleTimeout :: "xlisteners \<Rightarrow> (xcall \<Rightarrow> unit xcode) \<Rightarrow> nat \<Rightarrow> unit xcode" where
  "handleTimeout L call g =
     js_bind (js_get (\<lambda>w. isCurrent g (obj w))) (\<lambda>cur.
       if \<not> cur then js_ret ()
       else js_seq (js_mod timeout_begin)
         (js_seq (changeState L call 4) (js_seq (fire L call TimeoutEvent) (fire L call LoadEnd))))"

definition xhr_open :: "xlisteners \<Rightarrow> (xcall \<Rightarrow> unit xcode) \<Rightarrow> string \<Rightarrow> string \<Rightarrow> bool option \<Rightarrow> unit xcode" where
  "xhr_open L call m url as =
     (if to_upper m \<in> set forbidden_methods then js_throw SecurityError
      else if m = [] \<or> \<not> list_all token_char m then js_throw SyntaxError
      else js_seq (js_mod (open_begin m url as)) (fire L call (ReadyStateChange 1)))"

definition not_open :: "xhr \<Rightarrow> bool" where
  "not_open x \<longleftrightarrow> x_readyState x \<noteq> 1 \<or> x_sendFlag x"

definition setRequestHeader :: "string \<Rightarrow> string \<Rightarrow> unit xcode" where
  "setRequestHeader n v =
     js_bind (js_get obj) (\<lambda>x.
       if not_open x then js_throw InvalidStateError
       else case headers_append n v (x_requestHeaders x) of
         None \<Rightarrow> js_throw (XTypeError ''Invalid HTTP header'')
       | Some h \<Rightarrow> js_mod (\<lambda>w. w\<lparr>obj := (obj w)\<lparr>x_requestHeaders := h\<rparr>\<rparr>))"

definition overrideMimeType :: "string \<Rightarrow> unit xcode" where
  "overrideMimeType m =
     js_bind (js_get obj) (\<lambda>x.
       if x_readyState x = 3 \<or> x_readyState x = 4 then js_throw InvalidStateError
       else js_mod (\<lambda>w. w\<lparr>obj := (obj w)\<lparr>x_overrideMimeType := m\<rparr>\<rparr>))"

definition response_types :: "string list" where
  "response_types = [[], ''text'', ''json'', ''arraybuffer'', ''blob'', ''document'']"

definition set_responseType :: "string \<Rightarrow> unit xcode" where
  "set_responseType v =
     js_bind (js_get obj) (\<lambda>x.
       if v \<notin> set response_types then js_throw SyntaxError
       else if x_readyState x = 3 \<or> x_readyState x = 4 then js_throw InvalidStateError
       else if \<not> x_async x \<and> v \<noteq> [] then js_throw InvalidAccessError
       else js_mod (\<lambda>w. w\<lparr>obj := (obj w)\<lparr>x_responseType := v\<rparr>\<rparr>))"

definition set_timeout :: "jsnum \<Rightarrow> unit xcode" where
  "set_timeout v =
     (let n = (case v of Fin k \<Rightarrow> max 0 k | _ \<Rightarrow> 0) in
      js_bind (js_get obj) (\<lambda>x.
        if \<not> x_async x \<and> n \<noteq> 0 then js_throw InvalidAccessError
        else js_mod (\<lambda>w. w\<lparr>obj := (obj w)\<lparr>x_timeout := n\<rparr>\<rparr>)))"

text \<open>The getters that test the state.\<close>

definition getResponseHeader :: "string \<Rightarrow> xhr \<Rightarrow> string option" where
  "getResponseHeader n x = (case x_responseHeaders x of
       Some h \<Rightarrow> if x_readyState x < 2 then None else (case headers_get n h of Some (Some v) \<Rightarrow> Some v | _ \<Rightarrow> None)
     | None \<Rightarrow> None)"

definition getAllResponseHeaders :: "xhr \<Rightarrow> string" where
  "getAllResponseHeaders x = (case x_responseHeaders x of
       Some h \<Rightarrow> if x_readyState x < 2 then []
         else concat (map (\<lambda>(n, v). n @ '': '' @ v @ [CHR 13, CHR 10]) (sortedHeaderEntries h))
     | None \<Rightarrow> [])"

definition get_responseText :: "xhr \<Rightarrow> xerror + string" where
  "get_responseText x = (if x_responseType x \<noteq> [] \<and> x_responseType x \<noteq> ''text'' then Inl InvalidStateError
     else Inr (x_responseText x))"

text \<open>The request that \<open>send\<close> makes, and the events before it goes out.\<close>

definition xhr_request :: "xnative \<Rightarrow> body_init \<Rightarrow> xhr \<Rightarrow> string + request" where
  "xhr_request N b x = new_Request (coders N) 0 (Url (x_url x)) (no_init\<lparr>i_method := Some (x_method x),
     i_headers := Some (FromHeaders (x_requestHeaders x)), i_body := Some b,
     i_signal := Some (case x_controller x of Some c \<Rightarrow> Signal c | None \<Rightarrow> NotSignal)\<rparr>)"

definition send_events :: "xlisteners \<Rightarrow> (xcall \<Rightarrow> unit xcode) \<Rightarrow> int \<Rightarrow> unit xcode" where
  "send_events L call sz =
     js_seq (fire L call LoadStart)
     (js_seq (fire L call (U LoadStart))
     (js_seq (fire L call (U (Progress sz sz)))
     (js_seq (fire L call (U Load)) (fire L call (U LoadEnd)))))"

definition send_sync :: "xlisteners \<Rightarrow> (xcall \<Rightarrow> unit xcode) \<Rightarrow> xnative \<Rightarrow> request \<Rightarrow> unit xcode" where
  "send_sync L call N q =
     js_catch (case fetchSync N (nativeRequest q) of
         None \<Rightarrow> js_throw (XTypeError ''network'')
       | Some raw \<Rightarrow> js_seq (acceptHeaders L call (w_status raw) (w_statusText raw) (w_url raw) (w_headers raw))
           (acceptBody L call N (w_body raw)))
       (\<lambda>_. networkError L call)"

definition send_async :: "nat \<Rightarrow> request \<Rightarrow> xworld \<Rightarrow> xworld" where
  "send_async g q w =
     (let w1 = (if 0 < x_timeout (obj w) then w\<lparr>obj := (obj w)\<lparr>x_timeoutTimer := Some g\<rparr>, timers := timers w @ [g]\<rparr> else w)
      in w1\<lparr>in_flight := in_flight w1 @ [(g, nativeRequest q)]\<rparr>)"

definition xhr_send :: "xlisteners \<Rightarrow> (xcall \<Rightarrow> unit xcode) \<Rightarrow> xnative \<Rightarrow> body_init \<Rightarrow> unit xcode" where
  "xhr_send L call N b0 =
     js_bind (js_get obj) (\<lambda>x.
       if not_open x then js_throw InvalidStateError
       else
         let b = (if x_method x = ''GET'' \<or> x_method x = ''HEAD'' then NoBody else b0) in
         js_bind (js_step send_begin) (\<lambda>g.
         js_bind (js_get obj) (\<lambda>x.
           case xhr_request N b x of
             Inl e \<Rightarrow> js_throw (XTypeError e)
           | Inr q \<Rightarrow>
               js_seq (send_events L call (int (length (bodyBuffer (q_body q)))))
               (js_bind (js_get (\<lambda>w. x_async (obj w))) (\<lambda>as.
                 if as then js_mod (send_async g q) else send_sync L call N q)))))"

definition xhr_abort :: "xlisteners \<Rightarrow> (xcall \<Rightarrow> unit xcode) \<Rightarrow> unit xcode" where
  "xhr_abort L call =
     js_bind (js_step abort_xhr_begin) (\<lambda>active.
       js_when active
         (js_seq (fire L call (ReadyStateChange 0)) (js_seq (fire L call AbortEvent) (fire L call LoadEnd))))"

definition run_xcall :: "xlisteners \<Rightarrow> (xcall \<Rightarrow> unit xcode) \<Rightarrow> xnative \<Rightarrow> xcall \<Rightarrow> unit xcode" where
  "run_xcall L call N c = (case c of
       XOpen m url as \<Rightarrow> xhr_open L call m url as
     | XSetRequestHeader n v \<Rightarrow> setRequestHeader n v
     | XOverrideMimeType m \<Rightarrow> overrideMimeType m
     | XSend b \<Rightarrow> xhr_send L call N b
     | XAbort \<Rightarrow> xhr_abort L call
     | XSetResponseType v \<Rightarrow> set_responseType v
     | XSetTimeout v \<Rightarrow> set_timeout v)"

fun xcall_fuel :: "xlisteners \<Rightarrow> xnative \<Rightarrow> nat \<Rightarrow> xcall \<Rightarrow> unit xcode" where
  "xcall_fuel L N 0 c = js_stuck"
| "xcall_fuel L N (Suc n) c = run_xcall L (xcall_fuel L N n) N c"

section \<open>What happens\<close>

text \<open>The callbacks of the promise chain: the headers of a response (an exception goes to the rejection
  handler), its body, and a failure.\<close>

definition on_failure :: "xlisteners \<Rightarrow> (xcall \<Rightarrow> unit xcode) \<Rightarrow> nat \<Rightarrow> unit xcode" where
  "on_failure L call g = js_bind (js_get (\<lambda>w. isCurrent g (obj w))) (\<lambda>cur. js_when cur (networkError L call))"

definition on_response :: "xlisteners \<Rightarrow> (xcall \<Rightarrow> unit xcode) \<Rightarrow> xnative \<Rightarrow> nat \<Rightarrow> raw_response \<Rightarrow> unit xcode" where
  "on_response L call N g raw = (case rawToResponse (coders N) raw of
       Inl _ \<Rightarrow> on_failure L call g
     | Inr p \<Rightarrow>
         js_bind (js_get (\<lambda>w. isCurrent g (obj w))) (\<lambda>cur.
           if \<not> cur then js_ret ()
           else js_catch
             (js_seq (acceptHeaders L call (p_status p) (p_statusText p) (p_url p) (sortedHeaderEntries (p_headers p)))
               (js_mod (\<lambda>w. w\<lparr>bodies := bodies w @ [(g, bodyBuffer (p_body p))]\<rparr>)))
             (\<lambda>_. on_failure L call g)))"

definition on_body :: "xlisteners \<Rightarrow> (xcall \<Rightarrow> unit xcode) \<Rightarrow> xnative \<Rightarrow> nat \<Rightarrow> bytes \<Rightarrow> unit xcode" where
  "on_body L call N g buf =
     js_bind (js_get (\<lambda>w. isCurrent g (obj w))) (\<lambda>cur. js_when cur (acceptBody L call N buf))"

definition start_xhr :: xworld where
  "start_xhr = \<lparr>obj = new_XHR, log = [], in_flight = [], bodies = [], timers = [], aborts = [], next_controller = 0, sends = 0\<rparr>"

text \<open>The world goes on: the program makes a call; a request in flight is answered or fails; a body that
  has arrived is handed over; a timer fires.\<close>

inductive xstep :: "xlisteners \<Rightarrow> xnative \<Rightarrow> xworld \<Rightarrow> xworld \<Rightarrow> bool" for L N where
  call: "xstep L N w (snd (xcall_fuel L N n c w))"
| respond: "(g, q) \<in> set (in_flight w) \<Longrightarrow>
    xstep L N w (snd (on_response L (xcall_fuel L N n) N g raw (w\<lparr>in_flight := remove1 (g, q) (in_flight w)\<rparr>)))"
| fail: "(g, q) \<in> set (in_flight w) \<Longrightarrow>
    xstep L N w (snd (on_failure L (xcall_fuel L N n) g (w\<lparr>in_flight := remove1 (g, q) (in_flight w)\<rparr>)))"
| body: "(g, b) \<in> set (bodies w) \<Longrightarrow>
    xstep L N w (snd (on_body L (xcall_fuel L N n) N g b (w\<lparr>bodies := remove1 (g, b) (bodies w)\<rparr>)))"
| timeout: "g \<in> set (timers w) \<Longrightarrow>
    xstep L N w (snd (handleTimeout L (xcall_fuel L N n) g (w\<lparr>timers := remove1 g (timers w)\<rparr>)))"

inductive xreachable :: "xlisteners \<Rightarrow> xnative \<Rightarrow> xworld \<Rightarrow> bool" for L N where
  start: "xreachable L N start_xhr"
| next_step: "xreachable L N w \<Longrightarrow> xstep L N w w' \<Longrightarrow> xreachable L N w'"

section \<open>Getters\<close>

text \<open>The getters that only read a field, by their names, the constants of the states, and the events with a handler property on \<open>upload\<close>.\<close>

datatype xhr_value = XNat nat | XInt int | XText string | XBody xresponse | XNull

definition xhr_property :: "string \<Rightarrow> xhr \<Rightarrow> xhr_value option" where
  "xhr_property name x = map_of [
     (''readyState'', XNat (x_readyState x)), (''status'', XInt (x_status x)), (''statusText'', XText (x_statusText x)),
     (''responseURL'', XText (x_responseURL x)), (''response'', XBody (x_response x)), (''responseXML'', XNull)] name"

definition ready_states :: "(string \<times> nat) list" where
  "ready_states = [(''UNSENT'', 0), (''OPENED'', 1), (''HEADERS_RECEIVED'', 2), (''LOADING'', 3), (''DONE'', 4)]"

definition upload_events :: "string list" where
  "upload_events = [''loadstart'', ''progress'', ''abort'', ''error'', ''load'', ''timeout'', ''loadend'']"

end
