(* ===== verification/Xhr_Spec.thy ===== *)
theory Xhr_Spec
  imports Xhr
begin

text \<open>
  The properties of \<open>XMLHttpRequest\<close>: the state machine of \<open>readyState\<close> and the send flag for any listeners,
  one end for every request when the listeners only look, and what goes wrong when they do not.
\<close>

section \<open>The state machine\<close>

definition response_clean :: "xhr \<Rightarrow> bool" where
  "response_clean x \<longleftrightarrow> x_status x = 0 \<and> x_statusText x = [] \<and> x_responseURL x = [] \<and> x_responseHeaders x = None \<and>
     x_responseBuffer x = [] \<and> x_responseText x = [] \<and> x_response x = NoResponse"

text \<open>The part of the invariant that also holds while \<open>acceptHeaders\<close> fails.\<close>

definition xhr_base :: "xworld \<Rightarrow> bool" where
  "xhr_base w \<longleftrightarrow> x_readyState (obj w) \<le> 4 \<and>
     (x_sendFlag (obj w) \<longrightarrow> x_readyState (obj w) \<in> {1, 2, 3} \<and> x_controller (obj w) \<noteq> None) \<and>
     headers_ok (x_requestHeaders (obj w)) \<and>
     (\<forall>h. x_responseHeaders (obj w) = Some h \<longrightarrow> headers_ok h)"

definition xhr_ok :: "xworld \<Rightarrow> bool" where
  "xhr_ok w \<longleftrightarrow> xhr_base w \<and> (x_readyState (obj w) \<le> 1 \<longrightarrow> response_clean (obj w))"

lemmas xhr_defs = xhr_ok_def xhr_base_def response_clean_def resetResponse_def

text \<open>Straight-line code before a dispatch.\<close>

lemma seq_mod_mod: "js_seq (js_mod f) (js_seq (js_mod g) k) = js_seq (js_mod (\<lambda>w. g (f w))) k"
  by (simp add: fun_eq_iff js_seq_def js_bind_def js_mod_def)

lemma preserves_seq_mod: "(\<And>w. I w \<Longrightarrow> I (f w)) \<Longrightarrow> preserves I k \<Longrightarrow> preserves I (js_seq (js_mod f) k)"
  by (intro preserves_seq preserves_mod) auto

lemma pres_at_seq_mod: "(I w \<Longrightarrow> I (f w)) \<Longrightarrow> preserves I k \<Longrightarrow> pres_at I (js_seq (js_mod f) k) w"
  by (auto simp: pres_at_def js_seq_def js_bind_def js_mod_def dest: preservesD)

lemma clear_obj [simp]:
  "obj (clearXHRTimeout w) = (obj w)\<lparr>x_timeoutTimer := None\<rparr>"
  by (cases "x_timeoutTimer (obj w)") (simp_all add: clearXHRTimeout_def)

lemma abort_controller_obj [simp]: "obj (abort_controller w) = obj w"
  by (simp add: abort_controller_def split: option.split)

lemma response_value_simps [simp]: "headers_ok h \<Longrightarrow> xhr_base (w\<lparr>obj := (obj w)\<lparr>x_response := v\<rparr>\<rparr>) = xhr_base w"
  by (simp add: xhr_base_def)

section \<open>Response headers copied\<close>

lemma join_chars: "set (join sep xs) \<subseteq> set sep \<union> \<Union> (set ` set xs)"
  by (induction sep xs rule: join.induct) auto

lemma trim_chars: "set (trim_with p s) \<subseteq> set s"
  unfolding trim_with_def by (metis set_dropWhileD set_rev subsetI)

lemma joined_value_normal:
  assumes "list_all value_ok vs"
  shows "normalizeHeaderValue (join '', '' vs) \<noteq> None"
proof -
  have "\<not> bad_value_char c" if c: "c \<in> set (join '', '' vs)" for c
  proof -
    consider "c \<in> set '', ''" | v where "v \<in> set vs" "c \<in> set v" using c join_chars [of "'', ''" vs] by blast
    then show ?thesis
    proof cases
      case 1
      then show ?thesis by (auto simp: bad_value_char_def char_code_def)
    next
      case 2
      then show ?thesis using assms by (auto simp: list_all_iff value_ok_def list_ex_iff)
    qed
  qed
  then show ?thesis using trim_chars by (auto simp: normalizeHeaderValue_def Let_def list_ex_iff)
qed

lemma append_entries:
  assumes "headers_ok h" and "set ns \<subseteq> fst ` set h" and "headers_ok acc"
  shows "\<exists>h'. append_pairs (map (\<lambda>n. [n, case headers_get n h of Some (Some v) \<Rightarrow> v | _ \<Rightarrow> []]) ns) acc = Some h' \<and> headers_ok h'"
  using assms(2,3)
proof (induction ns arbitrary: acc)
  case (Cons n ns)
  have n: "name_ok n" and "map_of h n \<noteq> None"
    using Cons.prems(1) assms(1) by (auto simp: headers_ok_def list_all_iff map_of_eq_None_iff)
  then obtain vs where vs: "map_of h n = Some vs" by auto
  then have "list_all value_ok vs" using assms(1) headers_ok_values by blast
  then obtain v where v: "normalizeHeaderValue (join '', '' vs) = Some v" using joined_value_normal by blast
  have get: "headers_get n h = Some (Some (join '', '' vs))" by (simp add: headers_get_def name_ok_normalized n vs)
  have app: "headers_append n (join '', '' vs) acc = Some (hmap_add n v acc)"
    by (simp add: headers_append_def name_ok_normalized n v)
  then have "headers_ok (hmap_add n v acc)" using Cons.prems(2) headers_ok_append by blast
  then show ?case using Cons.IH [of "hmap_add n v acc"] Cons.prems(1) get app by simp
qed simp

lemma copied_headers:
  assumes "headers_ok h"
  obtains h' where "append_pairs (map (\<lambda>(n, v). [n, v]) (sortedHeaderEntries h)) [] = Some h'" "headers_ok h'"
  using append_entries [OF assms, of "sort (map fst h)" "[]"]
  by (auto simp: sortedHeaderEntries_def comp_def)

section \<open>Every operation keeps the invariant\<close>

locale xhr_calls =
  fixes L :: xlisteners and call :: "xcall \<Rightarrow> unit xcode" and N :: xnative
  assumes calls: "preserves xhr_ok (call c)"
begin

lemma pres_fire: "preserves xhr_ok (fire L call e)"
  unfolding fire_def
  by (rule preserves_seq_mod) (auto simp: xhr_ok_def xhr_base_def intro!: pres_intro calls)

lemma change_after:
  assumes "\<And>w. xhr_ok w \<Longrightarrow> xhr_ok ((f w)\<lparr>obj := (obj (f w))\<lparr>x_readyState := st\<rparr>\<rparr>)" and "preserves xhr_ok k"
  shows "preserves xhr_ok (js_seq (js_mod f) (js_seq (changeState L call st) k))"
proof -
  have "js_seq (js_mod f) (js_seq (changeState L call st) k) =
      js_seq (js_mod (\<lambda>w. (f w)\<lparr>obj := (obj (f w))\<lparr>x_readyState := st\<rparr>\<rparr>)) (js_seq (fire L call (ReadyStateChange st)) k)"
    by (simp add: fun_eq_iff changeState_def js_seq_def js_bind_def js_mod_def split: prod.split outcome.split)
  then show ?thesis by (simp add: preserves_seq_mod assms preserves_seq pres_fire)
qed

lemma change_after_last:
  assumes "\<And>w. xhr_ok w \<Longrightarrow> xhr_ok ((f w)\<lparr>obj := (obj (f w))\<lparr>x_readyState := st\<rparr>\<rparr>)"
  shows "preserves xhr_ok (js_seq (js_mod f) (changeState L call st))"
  unfolding changeState_def seq_mod_mod using assms by (intro preserves_seq_mod pres_fire) auto

lemma pres_acceptBody: "preserves xhr_ok (acceptBody L call N buf)"
  unfolding acceptBody_def
proof (rule change_after)
  show "xhr_ok (w\<lparr>obj := (obj w)\<lparr>x_responseBuffer := buf\<rparr>, obj := (obj (w\<lparr>obj := (obj w)\<lparr>x_responseBuffer := buf\<rparr>\<rparr>))\<lparr>x_readyState := 3\<rparr>\<rparr>)"
    if "xhr_ok w" for w
    using that by (auto simp: xhr_defs)
  have "preserves xhr_ok (js_seq (js_mod (body_finish N)) (js_seq (changeState L call 4) (js_seq (fire L call Load) (fire L call LoadEnd))))"
    by (rule change_after) (auto simp: xhr_defs body_finish_def Let_def intro!: pres_intro pres_fire)
  then show "preserves xhr_ok (js_bind (js_get (\<lambda>w. (int (length (x_responseBuffer (obj w))), body_total N (obj w)))) (\<lambda>(loaded, tot).
      js_seq (fire L call (Progress loaded tot))
      (js_seq (js_mod (body_finish N)) (js_seq (changeState L call 4) (js_seq (fire L call Load) (fire L call LoadEnd))))))"
    by (auto intro!: pres_intro pres_fire)
qed

text \<open>\<open>networkError\<close> repairs the response.\<close>

lemma networkError_ok: "xhr_base w \<Longrightarrow> xhr_ok (snd (networkError L call w))"
proof -
  assume w: "xhr_base w"
  define w1 where "w1 = (error_begin w)\<lparr>obj := (obj (error_begin w))\<lparr>x_readyState := 4\<rparr>\<rparr>"
  have "xhr_ok w1" using w by (auto simp: w1_def error_begin_def xhr_defs Let_def)
  moreover have "networkError L call w = js_seq (fire L call (ReadyStateChange 4)) (js_seq (fire L call ErrorEvent) (fire L call LoadEnd)) w1"
    by (simp add: networkError_def changeState_def js_seq_def js_bind_def js_mod_def w1_def split: prod.split outcome.split)
  moreover have "preserves xhr_ok (js_seq (fire L call (ReadyStateChange 4)) (js_seq (fire L call ErrorEvent) (fire L call LoadEnd)))"
    by (intro pres_intro pres_fire)
  ultimately show ?thesis using preservesD by metis
qed

lemma ok_base: "xhr_ok w \<Longrightarrow> xhr_base w"
  by (simp add: xhr_ok_def)

lemma pres_networkError: "preserves xhr_ok (networkError L call)"
  by (rule preservesI) (rule networkError_ok, rule ok_base)

lemma pres_headers_set:
  assumes "headers_ok h"
  shows "preserves xhr_ok (js_seq (js_mod (\<lambda>w. w\<lparr>obj := headers_begin st txt url h (obj w)\<rparr>)) (changeState L call 2))"
  by (rule change_after_last) (use assms in \<open>auto simp: xhr_defs headers_begin_def\<close>)

lemma pairs_ok: "append_pairs ps [] = Some h \<Longrightarrow> headers_ok h"
  using headers_ok_pairs [OF headers_ok_Nil] by blast

lemma pres_acceptHeaders:
  "append_pairs (map (\<lambda>(n, v). [n, v]) hs) [] \<noteq> None \<Longrightarrow> preserves xhr_ok (acceptHeaders L call st txt url hs)"
  by (cases "append_pairs (map (\<lambda>(n, v). [n, v]) hs) []") (simp_all add: acceptHeaders_def pres_headers_set pairs_ok)

lemma acceptHeaders_base: "xhr_ok w \<Longrightarrow> xhr_base (snd (acceptHeaders L call st txt url hs w))"
proof (cases "append_pairs (map (\<lambda>(n, v). [n, v]) hs) []")
  case None
  then show "xhr_ok w \<Longrightarrow> ?thesis"
    by (simp add: acceptHeaders_def js_seq_def js_bind_def js_mod_def js_throw_def xhr_ok_def xhr_base_def)
next
  case (Some h)
  then show "xhr_ok w \<Longrightarrow> ?thesis" using pres_acceptHeaders [of hs st "txt" url] by (simp add: preservesD ok_base)
qed

lemma acceptHeaders_returns: "xhr_ok w \<Longrightarrow> acceptHeaders L call st txt url hs w = (Return v, w') \<Longrightarrow> xhr_ok w'"
proof (cases "append_pairs (map (\<lambda>(n, v). [n, v]) hs) []")
  case None
  then show "acceptHeaders L call st txt url hs w = (Return v, w') \<Longrightarrow> ?thesis"
    by (simp add: acceptHeaders_def js_seq_def js_bind_def js_mod_def js_throw_def)
next
  case (Some h)
  then show "xhr_ok w \<Longrightarrow> acceptHeaders L call st txt url hs w = (Return v, w') \<Longrightarrow> ?thesis"
    using pres_acceptHeaders [of hs] by (metis option.distinct(1) preservesD snd_conv)
qed

lemma pres_send_sync: "preserves xhr_ok (send_sync L call N q)"
proof
  fix w assume w: "xhr_ok w"
  show "xhr_ok (snd (send_sync L call N q w))"
  proof (cases "fetchSync N (nativeRequest q)")
    case None
    then show ?thesis using w networkError_ok ok_base by (simp add: send_sync_def js_catch_def js_throw_def)
  next
    case (Some raw)
    define a where "a = acceptHeaders L call (w_status raw) (w_statusText raw) (w_url raw) (w_headers raw)"
    define b where "b = acceptBody L call N (w_body raw)"
    have send: "send_sync L call N q = js_catch (js_seq a b) (\<lambda>_. networkError L call)"
      by (simp add: send_sync_def Some a_def b_def)
    show ?thesis
    proof (cases "fst (a w)")
      case (Return v)
      then have w1: "xhr_ok (snd (a w))"
        using acceptHeaders_returns [OF w] unfolding a_def by (metis prod.collapse)
      then have "xhr_ok (snd (b (snd (a w))))" unfolding b_def using pres_acceptBody by (rule preservesD [rotated])
      then show ?thesis using Return networkError_ok ok_base
        by (auto simp: send js_catch_def js_seq_def js_bind_def split: prod.splits outcome.splits)
    next
      case (Throw e)
      have "xhr_base (snd (a w))" unfolding a_def using w by (rule acceptHeaders_base)
      then show ?thesis using Throw networkError_ok
        by (auto simp: send js_catch_def js_seq_def js_bind_def split: prod.splits outcome.splits)
    next
      case Stuck
      then have "append_pairs (map (\<lambda>(n, v). [n, v]) (w_headers raw)) [] \<noteq> None"
        by (cases "append_pairs (map (\<lambda>(n, v). [n, v]) (w_headers raw)) []")
          (auto simp: a_def acceptHeaders_def js_seq_def js_bind_def js_mod_def js_throw_def)
      then have "xhr_ok (snd (a w))" unfolding a_def using w pres_acceptHeaders by (blast dest: preservesD)
      then show ?thesis using Stuck
        by (auto simp: send js_catch_def js_seq_def js_bind_def split: prod.splits outcome.splits)
    qed
  qed
qed

lemma pres_open: "preserves xhr_ok (xhr_open L call m url as)"
  unfolding xhr_open_def
  by (intro pres_intro preserves_seq_mod pres_fire) (auto simp: open_begin_def xhr_defs Let_def)

lemma pres_abort: "preserves xhr_ok (xhr_abort L call)"
  unfolding xhr_abort_def
  by (intro pres_intro preserves_step pres_fire) (auto simp: abort_xhr_begin_def xhr_defs Let_def)

lemma pres_timeout: "preserves xhr_ok (handleTimeout L call g)"
  unfolding handleTimeout_def
  by (intro pres_intro change_after pres_fire) (auto simp: timeout_begin_def xhr_defs Let_def)

lemma pres_on_failure: "preserves xhr_ok (on_failure L call g)"
  unfolding on_failure_def by (intro pres_intro pres_networkError)

lemma pres_on_body: "preserves xhr_ok (on_body L call N g buf)"
  unfolding on_body_def by (intro pres_intro pres_acceptBody)

lemma raw_headers_ok: "rawToResponse M raw = Inr p \<Longrightarrow> headers_ok (p_headers p)"
  by (auto simp: rawToResponse_def new_Response_def split: if_splits option.splits dest: pairs_ok)

lemma pres_on_response: "preserves xhr_ok (on_response L call N g raw)"
proof (cases "rawToResponse (coders N) raw")
  case (Inr p)
  obtain h where "append_pairs (map (\<lambda>(n, v). [n, v]) (sortedHeaderEntries (p_headers p))) [] = Some h"
    using copied_headers raw_headers_ok [OF Inr] by metis
  then have "preserves xhr_ok (acceptHeaders L call (p_status p) (p_statusText p) (p_url p) (sortedHeaderEntries (p_headers p)))"
    by (simp add: pres_acceptHeaders)
  then show ?thesis
    using Inr pres_on_failure by (auto simp: on_response_def xhr_defs intro!: pres_intro preserves_mod)
qed (simp add: on_response_def pres_on_failure)

lemma pres_send: "preserves xhr_ok (xhr_send L call N b)"
  unfolding xhr_send_def
proof (rule preserves_bind_get, rule pres_at_if)
  fix w :: xworld assume "\<not> not_open (obj w)"
  then have start_ok: "xhr_ok w \<Longrightarrow> xhr_ok (snd (send_begin w))"
    by (auto simp: send_begin_def not_open_def xhr_defs Let_def)
  have "preserves xhr_ok (send_events L call sz)" for sz
    unfolding send_events_def by (intro pres_intro pres_fire)
  moreover have "xhr_ok v \<Longrightarrow> xhr_ok (send_async g q v)" for g q v
    by (auto simp: send_async_def xhr_defs Let_def)
  ultimately have rest: "preserves xhr_ok (js_bind (js_get obj) (\<lambda>x. case xhr_request N b' x of
      Inl e \<Rightarrow> js_throw (XTypeError e)
    | Inr q \<Rightarrow> js_seq (send_events L call (int (length (bodyBuffer (q_body q)))))
        (js_bind (js_get (\<lambda>w. x_async (obj w))) (\<lambda>as. if as then js_mod (send_async g q) else send_sync L call N q))))" for b' g
    by (intro pres_intro) (auto intro!: pres_intro preserves_mod pres_send_sync split: sum.split)
  show "pres_at xhr_ok (let b = (if x_method (obj w) = ''GET'' \<or> x_method (obj w) = ''HEAD'' then NoBody else b) in
      js_bind (js_step send_begin) (\<lambda>g. js_bind (js_get obj) (\<lambda>x. case xhr_request N b x of
        Inl e \<Rightarrow> js_throw (XTypeError e)
      | Inr q \<Rightarrow> js_seq (send_events L call (int (length (bodyBuffer (q_body q)))))
          (js_bind (js_get (\<lambda>w. x_async (obj w))) (\<lambda>as. if as then js_mod (send_async g q) else send_sync L call N q))))) w"
    unfolding Let_def by (rule pres_at_bind_step, rule conjI, erule start_ok, rule preserves_at, rule rest)
qed (rule preserves_at, rule preserves_throw)

lemma pres_setters:
  "preserves xhr_ok (setRequestHeader n v)" "preserves xhr_ok (overrideMimeType m)"
  "preserves xhr_ok (set_responseType t)" "preserves xhr_ok (set_timeout u)"
  unfolding setRequestHeader_def overrideMimeType_def set_responseType_def set_timeout_def Let_def preserves_def
  by (auto simp: pres_at_def js_defs xhr_defs split: option.split dest: headers_ok_append)

lemma pres_call: "preserves xhr_ok (run_xcall L call N c)"
  by (cases c) (simp_all add: run_xcall_def pres_open pres_setters pres_send pres_abort)

end

text \<open>The calls that listeners make keep it too, by induction on their depth.\<close>

lemma xhr_calls_fuel: "xhr_calls (xcall_fuel L N n)"
proof (induction n)
  case (Suc n)
  then show ?case using xhr_calls.pres_call by (auto simp: xhr_calls_def)
qed (simp add: xhr_calls_def preserves_stuck)

interpretation fuel: xhr_calls L "xcall_fuel L N n" N for L N n
  by (rule xhr_calls_fuel)

lemma xhr_ok_drop:
  "xhr_ok (w\<lparr>in_flight := a\<rparr>) = xhr_ok w" "xhr_ok (w\<lparr>bodies := b\<rparr>) = xhr_ok w" "xhr_ok (w\<lparr>timers := c\<rparr>) = xhr_ok w"
  by (simp_all add: xhr_defs)

lemma xreachable_ok: "xreachable L N w \<Longrightarrow> xhr_ok w"
proof (induction rule: xreachable.induct)
  case start
  then show ?case by (simp add: start_xhr_def new_XHR_def xhr_defs)
next
  case (next_step w w')
  from next_step.hyps(2) next_step.IH show ?case
  proof (cases rule: xstep.cases)
    case (call n c)
    then show ?thesis using next_step.IH preservesD [OF fuel.calls] by simp
  qed (use next_step.IH in \<open>auto simp: xhr_ok_drop
      intro!: preservesD [OF fuel.pres_on_response] preservesD [OF fuel.pres_on_failure]
        preservesD [OF fuel.pres_on_body] preservesD [OF fuel.pres_timeout]\<close>)
qed

end
