(* ===== verification/Xhr_Properties.thy ===== *)
theory Xhr_Properties
  imports Xhr_Spec
begin

text \<open>
  What the program can rely on: the state machine of \<open>readyState\<close>, requests that were given up are never
  heard of again, the events of a run, and one end for every request when the listeners only look.
\<close>

section \<open>Generations only grow\<close>

definition pending :: "xworld \<Rightarrow> nat set" where
  "pending w = fst ` set (in_flight w) \<union> fst ` set (bodies w) \<union> set (timers w)"

definition gens :: "nat \<Rightarrow> xworld \<Rightarrow> bool" where
  "gens k w \<longleftrightarrow> k \<le> x_generation (obj w) \<and> (\<forall>g\<in>pending w. g \<le> x_generation (obj w))"

lemma gens_weaken: "gens k w \<Longrightarrow> j \<le> k \<Longrightarrow> gens j w"
  by (simp add: gens_def)

lemma clear_generation [simp]:
  "in_flight (clearXHRTimeout w) = in_flight w" "bodies (clearXHRTimeout w) = bodies w"
  "set (timers (clearXHRTimeout w)) \<subseteq> set (timers w)"
  by (auto simp: clearXHRTimeout_def split: option.split)

lemma abort_controller_pending [simp]:
  "in_flight (abort_controller w) = in_flight w" "bodies (abort_controller w) = bodies w"
  "timers (abort_controller w) = timers w"
  by (simp_all add: abort_controller_def split: option.split)

lemma gens_grow:
  assumes "gens k w" and "x_generation (obj w) \<le> x_generation (obj w')" and "pending w' \<subseteq> pending w"
  shows "gens k w'"
  using assms by (fastforce simp: gens_def)

lemma pending_clear: "pending (clearXHRTimeout w) \<subseteq> pending w"
  using clear_generation(3) by (fastforce simp: pending_def)

lemma pending_simps [simp]:
  "pending (w\<lparr>obj := x\<rparr>) = pending w" "pending (w\<lparr>log := l\<rparr>) = pending w" "pending (abort_controller w) = pending w"
  "pending (w\<lparr>next_controller := n\<rparr>) = pending w" "pending (w\<lparr>sends := m\<rparr>) = pending w"
  by (simp_all add: pending_def)

lemma gens_parts:
  assumes "gens k w"
  shows "gens k (open_begin m url as w)" "gens k (snd (abort_xhr_begin w))" "gens k (error_begin w)"
    "gens k (timeout_begin w)" "gens k (body_finish N w)" "gens k (w\<lparr>log := l\<rparr>)"
    "x_generation x = x_generation (obj w) \<Longrightarrow> gens k (w\<lparr>obj := x\<rparr>)"
  using assms by (auto elim!: gens_grow dest!: subsetD [OF pending_clear]
      simp: open_begin_def abort_xhr_begin_def error_begin_def timeout_begin_def body_finish_def Let_def resetResponse_def)

locale xhr_gens =
  fixes L :: xlisteners and call :: "xcall \<Rightarrow> unit xcode" and N :: xnative
  assumes calls: "preserves (gens k) (call c)"
begin

lemma pres_fire: "preserves (gens k) (fire L call e)"
  unfolding fire_def by (intro pres_intro preserves_mod calls gens_parts)

lemma pres_change: "preserves (gens k) (changeState L call st)"
  unfolding changeState_def by (intro pres_intro preserves_mod pres_fire gens_parts(7)) simp_all

lemma pres_acceptHeaders: "preserves (gens k) (acceptHeaders L call st s url hs)"
  unfolding acceptHeaders_def
  by (intro pres_intro preserves_mod pres_change gens_parts) (simp_all add: headers_begin_def)

lemma pres_acceptBody: "preserves (gens k) (acceptBody L call N buf)"
  unfolding acceptBody_def
  by (intro pres_intro preserves_mod pres_change pres_fire gens_parts(5,7)) simp_all

lemma pres_networkError: "preserves (gens k) (networkError L call)"
  unfolding networkError_def by (intro pres_intro preserves_mod pres_change pres_fire gens_parts)

lemma pres_timeout: "preserves (gens k) (handleTimeout L call g)"
  unfolding handleTimeout_def by (intro pres_intro preserves_mod pres_change pres_fire gens_parts)

lemma pres_failure: "preserves (gens k) (on_failure L call g)"
  unfolding on_failure_def by (intro pres_intro pres_networkError)

lemma pres_body: "preserves (gens k) (on_body L call N g buf)"
  unfolding on_body_def by (intro pres_intro pres_acceptBody)

lemma pres_open: "preserves (gens k) (xhr_open L call m url as)"
  unfolding xhr_open_def by (intro pres_intro preserves_mod pres_fire gens_parts)

lemma pres_abort: "preserves (gens k) (xhr_abort L call)"
  unfolding xhr_abort_def by (intro pres_intro preserves_step pres_fire gens_parts)

lemma pres_send_sync: "preserves (gens k) (send_sync L call N q)"
  unfolding send_sync_def by (intro pres_intro pres_acceptHeaders pres_acceptBody pres_networkError)

text \<open>What \<open>send\<close> adds has the generation that \<open>send\<close> made.\<close>

lemma pres_send: "preserves (gens k) (xhr_send L call N b)"
  unfolding xhr_send_def
proof (rule preserves_bind_get, rule pres_at_if)
  fix w :: xworld
  define g where "g = Suc (x_generation (obj w))"
  define rest where "rest b' = js_bind (js_get obj) (\<lambda>x. case xhr_request N b' x of
      Inl e \<Rightarrow> js_throw (XTypeError e)
    | Inr q \<Rightarrow> js_seq (send_events L call (int (length (bodyBuffer (q_body q)))))
        (js_bind (js_get (\<lambda>w. x_async (obj w))) (\<lambda>as. if as then js_mod (send_async g q) else send_sync L call N q)))" for b'
  have "gens g v \<Longrightarrow> gens g (send_async g q v)" for q v
    by (auto simp: send_async_def gens_def pending_def Let_def)
  then have rest: "preserves (gens g) (rest b')" for b'
    unfolding rest_def send_events_def
    by (intro pres_intro) (auto intro!: pres_intro preserves_mod pres_fire pres_send_sync split: sum.split)
  have "gens k w \<Longrightarrow> gens g (snd (send_begin w)) \<and> k \<le> g"
    by (auto simp: gens_def g_def send_begin_def Let_def resetResponse_def)
  then have ok: "gens k w \<Longrightarrow> gens k (snd (send_begin w)) \<and> gens k (snd (rest b' (snd (send_begin w))))" for b'
    using preservesD [OF rest] gens_weaken by blast
  have gen: "fst (send_begin w) = g" by (simp add: send_begin_def g_def Let_def)
  show "pres_at (gens k) (let b = (if x_method (obj w) = ''GET'' \<or> x_method (obj w) = ''HEAD'' then NoBody else b) in
      js_bind (js_step send_begin) (\<lambda>g. js_bind (js_get obj) (\<lambda>x. case xhr_request N b x of
        Inl e \<Rightarrow> js_throw (XTypeError e)
      | Inr q \<Rightarrow> js_seq (send_events L call (int (length (bodyBuffer (q_body q)))))
          (js_bind (js_get (\<lambda>w. x_async (obj w))) (\<lambda>as. if as then js_mod (send_async g q) else send_sync L call N q))))) w"
    unfolding Let_def
    by (rule pres_at_bind_step, unfold gen pres_at_def) (use ok in \<open>auto simp: rest_def\<close>)
qed (rule preserves_at, rule preserves_throw)

lemma pres_setters:
  "preserves (gens k) (setRequestHeader n v)" "preserves (gens k) (overrideMimeType m)"
  "preserves (gens k) (set_responseType t)" "preserves (gens k) (set_timeout u)"
  unfolding setRequestHeader_def overrideMimeType_def set_responseType_def set_timeout_def Let_def preserves_def
  by (auto simp: pres_at_def js_defs gens_parts split: option.split)

lemma pres_call: "preserves (gens k) (run_xcall L call N c)"
  by (cases c) (simp_all add: run_xcall_def pres_open pres_setters pres_send pres_abort)

text \<open>The body is queued with the generation of the response.\<close>

lemma gens_response: "gens k w \<Longrightarrow> g \<le> x_generation (obj w) \<Longrightarrow> gens k (snd (on_response L call N g raw w))"
proof (cases "rawToResponse (coders N) raw")
  case (Inr p)
  assume w: "gens k w" and g: "g \<le> x_generation (obj w)"
  let ?m = "max k g"
  have add: "gens ?m v \<Longrightarrow> gens ?m (v\<lparr>bodies := bodies v @ [(g, b)]\<rparr>)" for v b
    by (auto simp: gens_def pending_def)
  have "preserves (gens ?m) (on_response L call N g raw)"
    unfolding on_response_def Inr sum.case
    by (intro pres_intro preserves_mod pres_acceptHeaders pres_failure add)
  moreover have "gens ?m w" using w g by (simp add: gens_def)
  ultimately have "gens ?m (snd (on_response L call N g raw w))" by (rule preservesD)
  then show ?thesis by (rule gens_weaken) simp
qed (auto simp: on_response_def intro: preservesD [OF pres_failure])

end

lemma xhr_gens_fuel: "xhr_gens (xcall_fuel L N n)"
proof (induction n)
  case (Suc n)
  then show ?case using xhr_gens.pres_call by (auto simp: xhr_gens_def)
qed (simp add: xhr_gens_def preserves_stuck)

interpretation gen: xhr_gens L "xcall_fuel L N n" N for L N n
  by (rule xhr_gens_fuel)

lemma gens_drop:
  assumes "gens k w"
  shows "gens k (w\<lparr>in_flight := remove1 a (in_flight w)\<rparr>)" "gens k (w\<lparr>bodies := remove1 b (bodies w)\<rparr>)"
    "gens k (w\<lparr>timers := remove1 c (timers w)\<rparr>)"
proof -
  have sub: "fst ` set (remove1 x xs) \<subseteq> fst ` set xs" for x :: "'x \<times> 'y" and xs
    by (simp add: image_mono set_remove1_subset)
  have "pending (w\<lparr>in_flight := remove1 a (in_flight w)\<rparr>) \<subseteq> pending w" "pending (w\<lparr>bodies := remove1 b (bodies w)\<rparr>) \<subseteq> pending w"
    "pending (w\<lparr>timers := remove1 c (timers w)\<rparr>) \<subseteq> pending w"
    unfolding pending_def by (simp_all add: sub set_remove1_subset le_supI1 le_supI2)
  then show "gens k (w\<lparr>in_flight := remove1 a (in_flight w)\<rparr>)" "gens k (w\<lparr>bodies := remove1 b (bodies w)\<rparr>)"
    "gens k (w\<lparr>timers := remove1 c (timers w)\<rparr>)"
    by (auto intro: gens_grow [OF assms])
qed

lemma gens_in_flight: "gens k w \<Longrightarrow> (g, q) \<in> set (in_flight w) \<Longrightarrow> g \<le> x_generation (obj w)"
  by (force simp: gens_def pending_def)

lemma gens_step: "xstep L N w w' \<Longrightarrow> gens k w \<Longrightarrow> gens k w'"
proof (induction rule: xstep.induct)
  case (call w n c)
  then show ?case by (rule preservesD [OF gen.calls])
next
  case (respond g q w n raw)
  then show ?case by (simp add: gen.gens_response gens_drop gens_in_flight)
qed (simp_all add: gens_drop preservesD [OF gen.pres_failure] preservesD [OF gen.pres_body] preservesD [OF gen.pres_timeout])

lemma gens_steps: "(xstep L N)\<^sup>*\<^sup>* w w' \<Longrightarrow> gens k w \<Longrightarrow> gens k w'"
  by (induction rule: rtranclp_induct) (auto intro: gens_step)

lemma gens_reachable: "xreachable L N w \<Longrightarrow> gens (x_generation (obj w)) w"
proof -
  have "xreachable L N w \<Longrightarrow> gens 0 w"
    by (induction rule: xreachable.induct) (simp add: start_xhr_def gens_def pending_def, rule gens_step)
  then show "xreachable L N w \<Longrightarrow> ?thesis" by (simp add: gens_def)
qed


section \<open>Listeners that only look\<close>

definition idle :: xlisteners where
  "idle e w = ([], False)"

lemma fire_idle [simp]: "fire idle call e = js_mod (\<lambda>w. w\<lparr>log := log w @ [e]\<rparr>)"
  by (simp add: fire_def idle_def fun_eq_iff js_defs)

lemma change_idle [simp]:
  "changeState idle call st = js_mod (\<lambda>w. w\<lparr>obj := (obj w)\<lparr>x_readyState := st\<rparr>, log := log w @ [ReadyStateChange st]\<rparr>)"
  by (simp add: changeState_def fun_eq_iff js_defs)

lemma clear_rest [simp]:
  "log (clearXHRTimeout w) = log w" "sends (clearXHRTimeout w) = sends w"
  "log (abort_controller w) = log w" "sends (abort_controller w) = sends w"
  by (simp_all add: clearXHRTimeout_def abort_controller_def split: option.split)

text \<open>Every end is paid for by a request: an active request may still end once.\<close>

definition ends_paid :: "xworld \<Rightarrow> bool" where
  "ends_paid w \<longleftrightarrow> count_list (log w) LoadEnd + (if x_sendFlag (obj w) then 1 else 0) \<le> sends w"

lemmas straight_defs = open_begin_def abort_xhr_begin_def error_begin_def timeout_begin_def body_finish_def
  send_begin_def headers_begin_def resetResponse_def Let_def

lemmas xcode_defs = xhr_open_def xhr_abort_def networkError_def acceptBody_def acceptHeaders_def handleTimeout_def
  on_failure_def on_body_def send_events_def

lemma paid_bodies: "ends_paid (w\<lparr>bodies := b\<rparr>) = ends_paid w" "ends_paid (w\<lparr>in_flight := f\<rparr>) = ends_paid w"
  "ends_paid (w\<lparr>timers := t\<rparr>) = ends_paid w"
  by (simp_all add: ends_paid_def)

lemma paid_parts:
  "ends_paid w \<Longrightarrow> ends_paid (snd (xhr_open idle call m url as w))"
  "ends_paid w \<Longrightarrow> ends_paid (snd (xhr_abort idle call w))"
  "ends_paid w \<Longrightarrow> ends_paid (snd (handleTimeout idle call g w))"
  "ends_paid w \<Longrightarrow> ends_paid (snd (on_failure idle call g w))"
  "ends_paid w \<Longrightarrow> ends_paid (snd (on_body idle call N g buf w))"
  by (auto simp: xcode_defs straight_defs js_defs ends_paid_def isCurrent_def split_beta split: if_splits)

lemma paid_response: "ends_paid w \<Longrightarrow> ends_paid (snd (on_response idle call N g raw w))"
proof (cases "rawToResponse (coders N) raw")
  case (Inr p)
  assume w: "ends_paid w"
  let ?hs = "append_pairs (map (\<lambda>(n, v). [n, v]) (sortedHeaderEntries (p_headers p))) []"
  show ?thesis
  proof (cases ?hs)
    case None
    let ?w = "w\<lparr>obj := (obj w)\<lparr>x_status := p_status p, x_statusText := p_statusText p, x_responseURL := p_url p\<rparr>\<rparr>"
    have "snd (on_response idle call N g raw w) = (if isCurrent g (obj w) then snd (on_failure idle call g ?w) else w)"
      using Inr None by (simp add: on_response_def acceptHeaders_def js_defs split: prod.split)
    moreover have "ends_paid ?w" using w by (simp add: ends_paid_def)
    ultimately show ?thesis using w paid_parts(4) by metis
  qed (use Inr w in \<open>simp add: on_response_def acceptHeaders_def js_defs headers_begin_def ends_paid_def split: if_splits\<close>)
qed (simp add: on_response_def paid_parts)

lemma paid_active: "x_sendFlag (obj w) \<Longrightarrow> ends_paid w \<Longrightarrow> ends_paid (snd (networkError idle call w))"
  by (simp add: networkError_def straight_defs js_defs ends_paid_def)

lemma paid_send_sync: "x_sendFlag (obj w) \<Longrightarrow> ends_paid w \<Longrightarrow> ends_paid (snd (send_sync idle call N q w))"
proof (cases "fetchSync N (nativeRequest q)")
  case (Some raw)
  assume w: "x_sendFlag (obj w)" "ends_paid w"
  let ?w = "w\<lparr>obj := (obj w)\<lparr>x_status := w_status raw, x_statusText := w_statusText raw, x_responseURL := w_url raw\<rparr>\<rparr>"
  have "append_pairs (map (\<lambda>(n, v). [n, v]) (w_headers raw)) [] = None \<Longrightarrow>
      snd (send_sync idle call N q w) = snd (networkError idle call ?w)"
    by (simp add: send_sync_def Some acceptHeaders_def js_defs)
  moreover have "ends_paid (snd (networkError idle call ?w))"
    using w by (intro paid_active) (simp_all add: ends_paid_def)
  moreover have "ends_paid (snd (send_sync idle call N q w))"
    if "append_pairs (map (\<lambda>(n, v). [n, v]) (w_headers raw)) [] = Some h" for h
    using that w by (simp add: send_sync_def Some acceptHeaders_def acceptBody_def straight_defs js_defs ends_paid_def)
  ultimately show ?thesis by (cases "append_pairs (map (\<lambda>(n, v). [n, v]) (w_headers raw)) []") simp_all
qed (simp add: send_sync_def js_catch_def js_throw_def paid_active)

lemma paid_send: "ends_paid w \<Longrightarrow> ends_paid (snd (xhr_send idle call N b w))"
proof (cases "not_open (obj w)")
  case False
  assume w: "ends_paid w"
  define b' where "b' = (if x_method (obj w) = ''GET'' \<or> x_method (obj w) = ''HEAD'' then NoBody else b)"
  define w1 where "w1 = snd (send_begin w)"
  have w1: "ends_paid w1" "x_sendFlag (obj w1)"
    using w False by (auto simp: w1_def send_begin_def resetResponse_def ends_paid_def not_open_def Let_def split: if_splits)
  show ?thesis
  proof (cases "xhr_request N b' (obj w1)")
    case (Inl e)
    then show ?thesis using False w1
      by (simp add: xhr_send_def js_defs b'_def w1_def split_beta Let_def)
  next
    case (Inr q)
    let ?n = "int (length (bodyBuffer (q_body q)))"
    define w2 where "w2 = w1\<lparr>log := log w1 @ [LoadStart, U LoadStart, U (Progress ?n ?n), U Load, U LoadEnd]\<rparr>"
    have "xhr_send idle call N b w =
        (if x_async (obj w1) then (Return (), send_async (fst (send_begin w)) q w2) else send_sync idle call N q w2)"
      using False Inr by (simp add: xhr_send_def js_defs send_events_def b'_def w1_def w2_def split_beta Let_def)
    moreover have "ends_paid w2" "x_sendFlag (obj w2)" using w1 by (simp_all add: w2_def ends_paid_def)
    moreover have "ends_paid (send_async g q w2) = ends_paid w2" for g by (simp add: send_async_def ends_paid_def Let_def)
    ultimately show ?thesis by (simp add: paid_send_sync)
  qed
qed (simp add: xhr_send_def js_defs)

lemma paid_setters:
  assumes "ends_paid w"
  shows "ends_paid (snd (setRequestHeader n v w))" "ends_paid (snd (overrideMimeType m w))"
    "ends_paid (snd (set_responseType t w))" "ends_paid (snd (set_timeout u w))"
  using assms
  by (auto simp: setRequestHeader_def overrideMimeType_def set_responseType_def set_timeout_def js_defs ends_paid_def Let_def
      split: option.split)

lemma paid_call: "ends_paid w \<Longrightarrow> ends_paid (snd (xcall_fuel idle N n c w))"
  by (cases n; cases c) (simp_all add: js_stuck_def run_xcall_def paid_parts paid_setters paid_send)

section \<open>The properties\<close>

text \<open>C7: The state machine of \<open>XMLHttpRequest\<close>, for any listeners, any calls and any order of answers:
  \<open>readyState\<close> is one of the five states; while a request is active (the send flag) it is OPENED,
  HEADERS\_RECEIVED or LOADING and there is a controller to abort it; in UNSENT and OPENED nothing of an
  earlier response can be seen; and every header of the request and the response is a valid one.\<close>

theorem xhr_state_machine:
  assumes "xreachable L N w"
  shows "x_readyState (obj w) \<le> 4 \<and>
    (x_sendFlag (obj w) \<longrightarrow> x_readyState (obj w) \<in> {1, 2, 3} \<and> x_controller (obj w) \<noteq> None) \<and>
    (x_readyState (obj w) \<le> 1 \<longrightarrow> x_status (obj w) = 0 \<and> x_responseText (obj w) = [] \<and> x_response (obj w) = NoResponse \<and>
       getAllResponseHeaders (obj w) = [] \<and> x_responseBuffer (obj w) = []) \<and>
    headers_ok (x_requestHeaders (obj w)) \<and> (\<forall>h. x_responseHeaders (obj w) = Some h \<longrightarrow> headers_ok h)"
  using xreachable_ok [OF assms] by (simp add: xhr_defs getAllResponseHeaders_def)

text \<open>A program that opens a request and sends it, for the witnesses.\<close>

definition plain_xnative :: xnative where
  "plain_xnative = \<lparr>coders = plain_natives, fetchSync = (\<lambda>_. None), json_valid = (\<lambda>_. True), to_number = (\<lambda>_. 0)\<rparr>"

definition opened :: xworld where
  "opened = snd (xcall_fuel idle plain_xnative 1 (XOpen ''GET'' ''/a'' None) start_xhr)"

definition sent :: xworld where
  "sent = snd (xcall_fuel idle plain_xnative 1 (XSend NoBody) opened)"

lemma opened_eval:
  "opened = start_xhr\<lparr>obj := new_XHR\<lparr>x_url := ''/a'', x_readyState := 1, x_generation := 1\<rparr>, log := [ReadyStateChange 1]\<rparr>"
  by (simp add: opened_def start_xhr_def new_XHR_def run_xcall_def xhr_open_def js_defs straight_defs abort_controller_def
      clearXHRTimeout_def to_upper_def upper_char_def forbidden_methods_def known_methods_def token_char_def One_nat_def
      is_lower_def is_upper_def char_code_def)

lemma sent_request: "\<exists>q. xhr_request plain_xnative NoBody (obj (snd (send_begin opened))) = Inr q"
proof -
  have "normalizeMethod ''GET'' = Inr ''GET''" by code_simp
  then show ?thesis
    by (simp add: opened_eval start_xhr_def new_XHR_def send_begin_def resetResponse_def xhr_request_def new_Request_def
        no_init_def Let_def pick_def prepare_body_def request_fields_def redirect_modes_def request_body_def)
qed

lemma sent_eval: "x_sendFlag (obj sent)" "fst ` set (in_flight sent) = {2}" "x_generation (obj sent) = 2"
  "count_list (log sent) LoadEnd = 0"
proof -
  obtain q where "xhr_request plain_xnative NoBody (obj (snd (send_begin opened))) = Inr q" using sent_request by blast
  then have sent: "sent = send_async 2 q ((snd (send_begin opened))\<lparr>log := log opened @ [LoadStart, U LoadStart,
      U (Progress (int (length (bodyBuffer (q_body q)))) (int (length (bodyBuffer (q_body q))))), U Load, U LoadEnd]\<rparr>)"
    by (simp add: sent_def run_xcall_def xhr_send_def js_defs send_events_def opened_eval new_XHR_def start_xhr_def not_open_def
        send_begin_def resetResponse_def One_nat_def numeral_2_eq_2 Let_def)
  show "x_sendFlag (obj sent)" "fst ` set (in_flight sent) = {2}" "x_generation (obj sent) = 2"
    "count_list (log sent) LoadEnd = 0"
    unfolding sent by (simp_all add: send_async_def send_begin_def resetResponse_def opened_eval start_xhr_def new_XHR_def Let_def)
qed

definition sample_raw :: raw_response where
  "sample_raw = \<lparr>w_status = 200, w_statusText = ''OK'', w_headers = [], w_url = ''/a'', w_redirected = False, w_body = [7]\<rparr>"

lemma sample_response:
  "\<exists>p. rawToResponse plain_natives sample_raw = Inr p \<and> p_status p = 200 \<and> bodyBuffer (p_body p) = [7]"
  by (simp add: rawToResponse_def sample_raw_def new_Response_def no_response_init_def null_body_status_def init_status_def
      init_statusText_def num_int_def status_bad_def is_crlf_def char_code_def initBody_def body_toBuffer_def)

definition abort_on_loading :: xlisteners where
  "abort_on_loading e w = (if e = ReadyStateChange 3 then [XAbort] else [], False)"

lemma sent_reachable: "xreachable idle plain_xnative sent"
  unfolding sent_def opened_def by (intro xreachable.next_step [OF _ xstep.call] xreachable.start)


theorem xhr_state_machine_witness: "x_sendFlag (obj sent) \<and> x_readyState (obj sent) \<in> {1, 2, 3}"
proof -
  have "x_sendFlag (obj sent)" by (simp add: sent_eval)
  then show ?thesis using xhr_state_machine [OF sent_reachable] by blast
qed

text \<open>The calls that give up what is pending.\<close>

fun gives_up :: "xcall \<Rightarrow> bool" where
  "gives_up XAbort = True"
| "gives_up (XOpen m url as) = (to_upper m \<notin> set forbidden_methods \<and> m \<noteq> [] \<and> list_all token_char m)"
| "gives_up _ = False"

lemma gives_up_newer:
  assumes "gens k w" and "gives_up c"
  shows "gens (Suc (x_generation (obj w))) (snd (xcall_fuel L N (Suc n) c w))"
proof -
  let ?k = "Suc (x_generation (obj w))" and ?call = "xcall_fuel L N n"
  have "?k = x_generation (obj (snd (abort_xhr_begin w)))" "?k = x_generation (obj (open_begin m url as w))" for m url as
    by (simp_all add: straight_defs)
  then have new: "gens ?k (snd (abort_xhr_begin w))" "gens ?k (open_begin m url as w)" for m url as
    using gens_parts(1,2) [OF assms(1)] by (simp_all add: gens_def)
  have rest: "preserves (gens ?k) (fire L ?call e)" "preserves (gens ?k) (js_when b (js_seq (fire L ?call e1) (js_seq (fire L ?call e2) (fire L ?call e3))))"
    for b e e1 e2 e3 by (intro pres_intro gen.pres_fire)+
  show ?thesis
    using assms(2) new preservesD [OF rest(1)] preservesD [OF rest(2)]
    by (cases c) (auto simp: run_xcall_def xhr_abort_def xhr_open_def js_seq_def js_bind_def js_step_def js_mod_def split_beta)
qed

text \<open>C8: A request that is given up is never heard of again. Once \<open>abort\<close>, or \<open>open\<close> with a method it accepts, was
  called, the answer, the body, the failure and the timeout of every request that was pending at that moment change nothing,
  whatever the listeners do, whatever other requests are sent on the object meanwhile and however
  much later they come in.\<close>

theorem given_up_request_is_silent:
  assumes "xreachable L N w" and "g \<in> pending w" and "gives_up c"
    and "(xstep L N)\<^sup>*\<^sup>* (snd (xcall_fuel L N (Suc n) c w)) w'"
  shows "on_response L call N g raw w' = (Return (), w') \<and> on_body L call N g buf w' = (Return (), w') \<and>
    on_failure L call g w' = (Return (), w') \<and> handleTimeout L call g w' = (Return (), w')"
proof -
  have "g \<le> x_generation (obj w)" using gens_reachable [OF assms(1)] assms(2) by (simp add: gens_def)
  moreover have "gens (Suc (x_generation (obj w))) w'"
    using gives_up_newer [OF gens_reachable [OF assms(1)] assms(3)] gens_steps [OF assms(4)] by blast
  ultimately have "\<not> isCurrent g (obj w')" by (simp add: isCurrent_def gens_def)
  then show ?thesis
    by (simp add: on_response_def on_body_def on_failure_def handleTimeout_def js_defs split: sum.split)
qed

theorem given_up_request_is_silent_witness:
  "on_body idle (xcall_fuel idle plain_xnative 1) plain_xnative 2 [1] (snd (xcall_fuel idle plain_xnative 1 XAbort sent)) =
     (Return (), snd (xcall_fuel idle plain_xnative 1 XAbort sent))"
proof -
  have "2 \<in> pending sent" by (simp add: sent_eval pending_def)
  moreover have "gives_up XAbort" by simp
  ultimately show ?thesis
    using given_up_request_is_silent [OF sent_reachable, of 2 XAbort 0] by (simp add: One_nat_def)
qed

text \<open>A successful asynchronous exchange, seen by listeners that only look: \<open>open\<close>, \<open>send\<close>, the answer and its body
  fire \<open>readystatechange\<close> for 1, 2, 3 and 4 once each and in this order, \<open>loadstart\<close>, the upload events, one
  \<open>progress\<close>, then \<open>load\<close> and \<open>loadend\<close>; at the end the object is DONE and inactive and shows the status, URL
  and text of the answer.\<close>

theorem exchange_events:
  assumes "to_upper m \<notin> set forbidden_methods" and "m \<noteq> []" and "list_all token_char m"
    and "w1 = snd (xcall_fuel idle N 1 (XOpen m url None) w)"
    and "w2 = snd (xcall_fuel idle N 1 (XSend b) w1)"
    and "xhr_request N (if x_method (obj w1) \<in> {''GET'', ''HEAD''} then NoBody else b) (obj (snd (send_begin w1))) = Inr q"
    and "rawToResponse (coders N) raw = Inr p"
    and "g = x_generation (obj w2)"
    and "w3 = snd (on_response idle call N g raw w2)" and "w4 = snd (on_body idle call N g (bodyBuffer (p_body p)) w3)"
  shows "(\<exists>n loaded tot. log w4 = log w @ [ReadyStateChange 1, LoadStart, U LoadStart, U (Progress n n), U Load, U LoadEnd,
      ReadyStateChange 2, ReadyStateChange 3, Progress loaded tot, ReadyStateChange 4, Load, LoadEnd]) \<and>
    in_flight w2 = in_flight w @ [(g, nativeRequest q)] \<and> bodies w3 = bodies w @ [(g, bodyBuffer (p_body p))] \<and>
    x_readyState (obj w4) = 4 \<and> \<not> x_sendFlag (obj w4) \<and> x_status (obj w4) = p_status p \<and>
    x_responseURL (obj w4) = p_url p \<and> x_responseBuffer (obj w4) = bodyBuffer (p_body p) \<and>
    x_responseText (obj w4) = nativeBodyText (coders N) (bodyBuffer (p_body p))"
proof -
  let ?n = "int (length (bodyBuffer (q_body q)))"
  obtain h where h: "append_pairs (map (\<lambda>(n, v). [n, v]) (sortedHeaderEntries (p_headers p))) [] = Some h"
    using copied_headers fuel.raw_headers_ok [OF assms(7)] by metis
  have w1: "w1 = (open_begin m url None w)\<lparr>log := log w @ [ReadyStateChange 1]\<rparr>"
    using assms(1-3) unfolding assms(4) by (simp add: run_xcall_def xhr_open_def js_defs open_begin_def Let_def)
  then have o1: "x_readyState (obj w1) = 1" "\<not> x_sendFlag (obj w1)" "x_async (obj w1)" "in_flight w1 = in_flight w" "bodies w1 = bodies w"
    "log w1 = log w @ [ReadyStateChange 1]"
    by (simp_all add: open_begin_def resetResponse_def Let_def)
  have w2: "w2 = send_async (Suc (x_generation (obj w1))) q ((snd (send_begin w1))\<lparr>log :=
      log w1 @ [LoadStart, U LoadStart, U (Progress ?n ?n), U Load, U LoadEnd]\<rparr>)"
    using assms(6) o1 unfolding assms(5)
    by (simp add: run_xcall_def xhr_send_def not_open_def send_events_def js_defs send_begin_def Let_def resetResponse_def split: if_splits)
  then have g: "g = Suc (x_generation (obj w1))" "isCurrent g (obj w2)" "bodies w2 = bodies w" "in_flight w2 = in_flight w @ [(g, nativeRequest q)]"
    "log w2 = log w1 @ [LoadStart, U LoadStart, U (Progress ?n ?n), U Load, U LoadEnd]"
    unfolding assms(8) using o1 by (simp_all add: send_async_def send_begin_def isCurrent_def resetResponse_def Let_def)
  have w3: "w3 = w2\<lparr>obj := (headers_begin (p_status p) (p_statusText p) (p_url p) h (obj w2))\<lparr>x_readyState := 2\<rparr>,
      log := log w2 @ [ReadyStateChange 2], bodies := bodies w2 @ [(g, bodyBuffer (p_body p))]\<rparr>"
    using g h unfolding assms(9) by (simp add: on_response_def assms(7) acceptHeaders_def js_defs)
  have "isCurrent g (obj w3)" using g(2) by (simp add: w3 isCurrent_def headers_begin_def)
  then show ?thesis
    using g o1 unfolding assms(10)
    by (simp add: on_body_def acceptBody_def js_defs body_finish_def Let_def w3 headers_begin_def)
qed


theorem exchange_events_witness:
  "\<exists>q w4. xhr_request plain_xnative NoBody (obj (snd (send_begin opened))) = Inr q \<and>
     w4 = snd (on_body idle (xcall_fuel idle plain_xnative 1) plain_xnative 2 [7] (snd (on_response idle (xcall_fuel idle plain_xnative 1) plain_xnative 2 sample_raw sent))) \<and>
     x_readyState (obj w4) = 4 \<and> x_status (obj w4) = 200 \<and> x_responseBuffer (obj w4) = [7]"
proof -
  obtain q where q: "xhr_request plain_xnative NoBody (obj (snd (send_begin opened))) = Inr q" using sent_request by blast
  obtain p where p: "rawToResponse plain_natives sample_raw = Inr p" "p_status p = 200" "bodyBuffer (p_body p) = [7]"
    using sample_response by blast
  have "to_upper ''GET'' \<notin> set forbidden_methods" "list_all token_char ''GET''"
    by (simp_all add: to_upper_def upper_char_def forbidden_methods_def token_char_def is_lower_def is_upper_def char_code_def)
  moreover have "(if x_method (obj opened) \<in> {''GET'', ''HEAD''} then NoBody else NoBody) = NoBody" by simp
  ultimately show ?thesis
    using exchange_events [of "''GET''" opened plain_xnative "''/a''" start_xhr sent NoBody q sample_raw p 2, OF _ _ _ opened_def sent_def _ _ _ refl refl]
      q p sent_eval(3) by (auto simp: plain_xnative_def)
qed

text \<open>Every request ends at most once, when the listeners only look: over any calls and any order of answers the number
  of \<open>loadend\<close> events, plus one while a request is active, is at most the number of requests sent.\<close>

theorem loadend_at_most_once:
  assumes "xreachable idle N w"
  shows "count_list (log w) LoadEnd + (if x_sendFlag (obj w) then 1 else 0) \<le> sends w"
proof -
  have "ends_paid w" using assms
  proof (induction rule: xreachable.induct)
    case (next_step w w')
    from next_step.hyps(2) next_step.IH show ?case
      by (cases rule: xstep.cases) (auto simp: paid_call intro!: paid_parts paid_response simp: paid_bodies)
  qed (simp add: start_xhr_def new_XHR_def ends_paid_def)
  then show ?thesis by (simp add: ends_paid_def)
qed

theorem loadend_at_most_once_witness: "count_list (log sent) LoadEnd + 1 \<le> sends sent"
  using loadend_at_most_once [OF sent_reachable] sent_eval(1) by simp

text \<open>C35: An \<open>abort\<close> while the body is handed over does not stop it. With a listener that calls \<open>abort\<close> in the LOADING
  state, \<open>acceptBody\<close> goes on after the abort: the object ends up DONE, and \<open>load\<close> and a second \<open>loadend\<close> are fired
  for the request that \<open>abort\<close> and \<open>loadend\<close> were already fired for. \<open>acceptBody\<close> does not test \<open>isCurrent\<close> again
  after it dispatched an event.\<close>

theorem abort_while_loading_is_overridden:
  assumes "isCurrent g (obj w)"
  shows "\<exists>tot. (let w' = snd (on_body abort_on_loading (xcall_fuel abort_on_loading N 1) N g buf w) in
    x_readyState (obj w') = 4 \<and>
    log w' = log w @ [ReadyStateChange 3, ReadyStateChange 0, AbortEvent, LoadEnd, Progress 0 tot,
      ReadyStateChange 4, Load, LoadEnd])"
  using assms
  by (simp add: on_body_def acceptBody_def changeState_def fire_def abort_on_loading_def js_defs run_xcall_def xhr_abort_def
      straight_defs One_nat_def isCurrent_def Let_def)

theorem abort_while_loading_is_overridden_witness:
  "count_list (log (snd (on_body abort_on_loading (xcall_fuel abort_on_loading plain_xnative 1) plain_xnative 2 [7] sent))) LoadEnd = 2"
proof -
  have "isCurrent 2 (obj sent)" by (simp add: isCurrent_def sent_eval)
  moreover have "count_list (log sent) LoadEnd = 0" by (rule sent_eval)
  ultimately show ?thesis
    using abort_while_loading_is_overridden [of 2 sent plain_xnative "[7]"] by (auto simp: Let_def)
qed

end
