(* ===== verification/Web_Events.thy ===== *)
theory Web_Events
  imports Events
begin

text \<open>
  \<open>Event\<close> and \<open>EventTarget\<close> of \<open>src/pkg/jsruntime/fetch/api.js\<close>, and the handler properties that
  \<open>defineEventHandler\<close> makes. A callback is a value of a type \<open>'c\<close>; running it tells whether it stopped the
  event with \<open>stopImmediatePropagation\<close>.
\<close>

section \<open>Events\<close>

record event =
  ev_type :: string
  ev_bubbles :: bool
  ev_cancelable :: bool
  ev_composed :: bool
  ev_defaultPrevented :: bool
  ev_stopped :: bool
  ev_immediateStopped :: bool

definition new_Event :: "string \<Rightarrow> bool \<Rightarrow> bool \<Rightarrow> bool \<Rightarrow> event" where
  "new_Event t bubbles cancelable composed = \<lparr>ev_type = t, ev_bubbles = bubbles, ev_cancelable = cancelable,
     ev_composed = composed, ev_defaultPrevented = False, ev_stopped = False, ev_immediateStopped = False\<rparr>"

definition preventDefault :: "event \<Rightarrow> event" where
  "preventDefault e = (if ev_cancelable e then e\<lparr>ev_defaultPrevented := True\<rparr> else e)"

definition stopPropagation :: "event \<Rightarrow> event" where
  "stopPropagation e = e\<lparr>ev_stopped := True\<rparr>"

definition stopImmediatePropagation :: "event \<Rightarrow> event" where
  "stopImmediatePropagation e = e\<lparr>ev_stopped := True, ev_immediateStopped := True\<rparr>"

section \<open>Listeners\<close>

text \<open>The Map of listeners of a target: for each type, the callbacks with their option \<open>once\<close>.\<close>

type_synonym 'c listeners = "(string \<times> ('c \<times> bool) list) list"

definition listeners_of :: "string \<Rightarrow> 'c listeners \<Rightarrow> ('c \<times> bool) list" where
  "listeners_of t ls = (case map_of ls t of None \<Rightarrow> [] | Some xs \<Rightarrow> xs)"

definition addEventListener :: "string \<Rightarrow> 'c \<Rightarrow> bool \<Rightarrow> 'c listeners \<Rightarrow> 'c listeners" where
  "addEventListener t cb once ls =
     (if list_ex (\<lambda>l. fst l = cb) (listeners_of t ls) then ls
      else map_set t (listeners_of t ls @ [(cb, once)]) ls)"

definition removeEventListener :: "string \<Rightarrow> 'c \<Rightarrow> 'c listeners \<Rightarrow> 'c listeners" where
  "removeEventListener t cb ls =
     (case map_of ls t of None \<Rightarrow> ls | Some xs \<Rightarrow> map_set t (filter (\<lambda>l. fst l \<noteq> cb) xs) ls)"

text \<open>The loop of \<open>dispatchEvent\<close> over the listeners of the moment of the call: a listener with \<open>once\<close> is
  removed before it runs. \<open>upd\<close> changes the listeners of the target in the state.\<close>

fun dispatch_loop :: "(('c listeners \<Rightarrow> 'c listeners) \<Rightarrow> 's \<Rightarrow> 's) \<Rightarrow> ('c \<Rightarrow> ('s, 'e, bool) js) \<Rightarrow> string \<Rightarrow>
    ('c \<times> bool) list \<Rightarrow> ('s, 'e, unit) js" where
  "dispatch_loop upd run t [] = js_ret ()"
| "dispatch_loop upd run t ((cb, once) # ls) =
     js_seq (js_when once (js_mod (upd (removeEventListener t cb))))
       (js_bind (run cb) (\<lambda>stopped. if stopped then js_ret () else dispatch_loop upd run t ls))"

definition dispatchEvent :: "('s \<Rightarrow> 'c listeners) \<Rightarrow> (('c listeners \<Rightarrow> 'c listeners) \<Rightarrow> 's \<Rightarrow> 's) \<Rightarrow>
    ('c \<Rightarrow> ('s, 'e, bool) js) \<Rightarrow> string \<Rightarrow> ('s, 'e, unit) js" where
  "dispatchEvent view upd run t = js_bind (js_get (\<lambda>s. listeners_of t (view s))) (dispatch_loop upd run t)"

text \<open>The setter of a handler property: the listener \<open>h\<close> that calls the handler leaves its place among the
  listeners and is added again at the end, when there is a handler before and after.\<close>

definition set_handler :: "string \<Rightarrow> 'c \<Rightarrow> bool \<Rightarrow> bool \<Rightarrow> 'c listeners \<Rightarrow> 'c listeners" where
  "set_handler t h had has ls =
     (let ls' = (if had then removeEventListener t h ls else ls) in if has then addEventListener t h False ls' else ls')"

section \<open>Lemmas\<close>

definition listeners_ok :: "'c listeners \<Rightarrow> bool" where
  "listeners_ok ls \<longleftrightarrow> (\<forall>t. distinct (map fst (listeners_of t ls)))"

lemma listeners_of_set [simp]: "listeners_of t (map_set t' xs ls) = (if t = t' then xs else listeners_of t ls)"
  by (simp add: listeners_of_def)

lemma listeners_of_remove:
  "listeners_of t (removeEventListener t' cb ls) =
     (if t = t' then filter (\<lambda>l. fst l \<noteq> cb) (listeners_of t ls) else listeners_of t ls)"
  by (auto simp: removeEventListener_def listeners_of_def split: option.split)

lemma listeners_of_add:
  "listeners_of t (addEventListener t' cb once ls) =
     (if t = t' \<and> cb \<notin> fst ` set (listeners_of t ls) then listeners_of t ls @ [(cb, once)] else listeners_of t ls)"
  by (auto simp: addEventListener_def list_ex_iff)

lemma listeners_ok_add: "listeners_ok ls \<Longrightarrow> listeners_ok (addEventListener t cb once ls)"
  by (auto simp: listeners_ok_def listeners_of_add)

lemma listeners_ok_remove: "listeners_ok ls \<Longrightarrow> listeners_ok (removeEventListener t cb ls)"
  by (auto simp: listeners_ok_def listeners_of_remove distinct_map_filter)

text \<open>What a dispatch keeps.\<close>

lemma preserves_dispatch_loop:
  assumes "\<And>cb. preserves I (run cb)" and "\<And>cb s. I s \<Longrightarrow> I (upd (removeEventListener t cb) s)"
  shows "preserves I (dispatch_loop upd run t ls)"
proof (induction ls)
  case (Cons l ls)
  then show ?case by (cases l) (auto intro!: pres_intro preserves_mod assms)
qed (simp add: preserves_ret)

lemma preserves_dispatch:
  assumes "\<And>cb. preserves I (run cb)" and "\<And>cb s. I s \<Longrightarrow> I (upd (removeEventListener t cb) s)"
  shows "preserves I (dispatchEvent view upd run t)"
  unfolding dispatchEvent_def by (intro pres_intro preserves_dispatch_loop assms)

section \<open>Properties\<close>

text \<open>A callback is registered at most once for a type, whatever is added and removed: adding it again
  has no effect, not even on its option \<open>once\<close>; removing it removes it; and other types and callbacks
  are not touched.\<close>

theorem listeners_registered_once:
  assumes "listeners_ok ls"
  shows "listeners_ok (addEventListener t cb once ls) \<and> listeners_ok (removeEventListener t cb ls) \<and>
     addEventListener t cb o2 (addEventListener t cb once ls) = addEventListener t cb once ls \<and>
     cb \<in> fst ` set (listeners_of t (addEventListener t cb once ls)) \<and>
     cb \<notin> fst ` set (listeners_of t (removeEventListener t cb ls)) \<and>
     (\<forall>c. c \<noteq> cb \<longrightarrow> (c \<in> fst ` set (listeners_of t (removeEventListener t cb ls)) \<longleftrightarrow> c \<in> fst ` set (listeners_of t ls)))"
proof -
  have "cb \<in> fst ` set (listeners_of t (addEventListener t cb once ls))"
    by (auto simp: listeners_of_add image_iff)
  moreover from this have "addEventListener t cb o2 (addEventListener t cb once ls) = addEventListener t cb once ls"
    unfolding addEventListener_def [of t cb o2] by (auto simp: list_ex_iff)
  moreover have "fst ` set (listeners_of t (removeEventListener t cb ls)) = fst ` set (listeners_of t ls) - {cb}"
    by (auto simp: listeners_of_remove)
  ultimately show ?thesis using assms by (simp add: listeners_ok_add listeners_ok_remove)
qed

theorem listeners_registered_once_witness:
  "addEventListener ''abort'' (5::nat) True (addEventListener ''abort'' 5 False []) = [(''abort'', [(5, False)])]"
proof -
  have "listeners_ok ([] :: nat listeners)" by (simp add: listeners_ok_def listeners_of_def)
  moreover have "addEventListener ''abort'' (5::nat) False [] = [(''abort'', [(5, False)])]" by code_simp
  ultimately show ?thesis using listeners_registered_once [of "[]" "''abort''" "5::nat" False True] by metis
qed

end
