(* ===== verification/Web_Abort.thy ===== *)
theory Web_Abort
  imports Web_Events
begin

text \<open>
  \<open>AbortSignal\<close> and \<open>AbortController\<close> of \<open>src/pkg/jsruntime/fetch/api.js\<close>. The signals of a program are a list, a
  signal is its index; its controller is the only other object with a reference to it, so \<open>controller.abort\<close>
  is \<open>abortSignal\<close> on the index. A listener of the program is a number: running it gives the calls it makes,
  which may depend on the state at its start, and whether it stops the event. The listeners that \<open>AbortSignal.any\<close> adds are
  \<open>Follow\<close>. Aborting runs listeners that may abort other signals and make new ones; the argument of the recursion
  bounds how deep, a theorem below shows how much is enough when no signals are made, and another that no bound is
  enough for a listener that makes one and aborts it.
\<close>

section \<open>\<open>DOMException\<close>\<close>

definition dom_codes :: "(string \<times> nat) list" where
  "dom_codes = [(''IndexSizeError'', 1), (''HierarchyRequestError'', 3), (''WrongDocumentError'', 4),
     (''InvalidCharacterError'', 5), (''NoModificationAllowedError'', 7), (''NotFoundError'', 8),
     (''NotSupportedError'', 9), (''InUseAttributeError'', 10), (''InvalidStateError'', 11),
     (''SyntaxError'', 12), (''InvalidModificationError'', 13), (''NamespaceError'', 14),
     (''InvalidAccessError'', 15), (''TypeMismatchError'', 17), (''SecurityError'', 18),
     (''NetworkError'', 19), (''AbortError'', 20), (''URLMismatchError'', 21),
     (''QuotaExceededError'', 22), (''TimeoutError'', 23), (''InvalidNodeTypeError'', 24),
     (''DataCloneError'', 25)]"

datatype reason = DOMException string string | Other nat

text \<open>The getter \<open>code\<close>.\<close>

definition dom_code :: "reason \<Rightarrow> nat" where
  "dom_code r = (case r of DOMException m name \<Rightarrow> (case map_of dom_codes name of Some c \<Rightarrow> c | None \<Rightarrow> 0) | Other _ \<Rightarrow> 0)"

section \<open>Signals\<close>

datatype abort_cb = UserCb nat | Follow nat nat | OnAbort nat

record signal =
  aborted :: bool
  abort_reason :: "reason option"
  s_listeners :: "abort_cb listeners"
  onabort :: "nat option"
  native_id :: nat

definition new_AbortSignal :: "nat \<Rightarrow> signal" where
  "new_AbortSignal k = \<lparr>aborted = False, abort_reason = None, s_listeners = [], onabort = None, native_id = k\<rparr>"

record aworld =
  signals :: "signal list"
  native_aborts :: "nat list" \<comment> \<open>the calls of \<open>nativeAbortSignal\<close>\<close>

type_synonym 'a acode = "(aworld, reason, 'a) js"

text \<open>The calls a program makes: aborting a signal, adding and removing listeners, setting \<open>onabort\<close>,
  \<open>throwIfAborted\<close>, and making signals: \<open>new AbortController\<close> (and \<open>AbortSignal.timeout\<close>, whose timer comes
  later), \<open>AbortSignal.abort\<close> and \<open>AbortSignal.any\<close>. A new signal gets the next number.\<close>

datatype acall = CAbort nat "reason option" | CListen nat nat bool | CUnlisten nat nat | CHandler nat "nat option"
  | CThrowIfAborted nat | CNew | CAbortNew "reason option" | CAny "nat list"

type_synonym listener_code = "nat \<Rightarrow> aworld \<Rightarrow> acall list \<times> bool"

definition mod_signal :: "nat \<Rightarrow> (signal \<Rightarrow> signal) \<Rightarrow> aworld \<Rightarrow> aworld" where
  "mod_signal s f w = (if s < length (signals w) then w\<lparr>signals := (signals w)[s := f (signals w ! s)]\<rparr> else w)"

definition upd_listeners :: "nat \<Rightarrow> (abort_cb listeners \<Rightarrow> abort_cb listeners) \<Rightarrow> aworld \<Rightarrow> aworld" where
  "upd_listeners s f = mod_signal s (\<lambda>g. g\<lparr>s_listeners := f (s_listeners g)\<rparr>)"

definition default_reason :: reason where
  "default_reason = DOMException ''This operation was aborted'' ''AbortError''"

text \<open>The straight-line part of \<open>abortSignal\<close>; false when the signal is aborted already.\<close>

definition abort_begin :: "nat \<Rightarrow> reason option \<Rightarrow> aworld \<Rightarrow> bool \<times> aworld" where
  "abort_begin s r w =
     (if aborted (signals w ! s) then (False, w)
      else (True, (mod_signal s (\<lambda>g. g\<lparr>aborted := True,
               abort_reason := Some (case r of None \<Rightarrow> default_reason | Some x \<Rightarrow> x)\<rparr>) w)
             \<lparr>native_aborts := native_aborts w @ [native_id (signals w ! s)]\<rparr>))"

text \<open>\<open>new AbortController\<close>, \<open>AbortSignal.abort\<close> and \<open>AbortSignal.any\<close>, over what aborts a signal. One that occurs twice in the
  argument of \<open>any\<close> gets two listeners in the code and one here: the second has nothing left to do.\<close>

definition add_signal :: "aworld \<Rightarrow> aworld" where
  "add_signal w = w\<lparr>signals := signals w @ [new_AbortSignal (length (signals w))]\<rparr>"

definition alloc_signal :: "nat acode" where
  "alloc_signal = js_step (\<lambda>w. (length (signals w), add_signal w))"

fun any_loop :: "(nat \<Rightarrow> reason option \<Rightarrow> unit acode) \<Rightarrow> nat \<Rightarrow> nat list \<Rightarrow> unit acode" where
  "any_loop ab t [] = js_ret ()"
| "any_loop ab t (s # ss) =
     js_bind (js_get (\<lambda>w. if s < length (signals w) then Some (signals w ! s) else None)) (\<lambda>known. case known of
       None \<Rightarrow> js_throw (Other 0)
     | Some g \<Rightarrow>
       if aborted g then ab t (abort_reason g)
       else js_seq (js_mod (upd_listeners s (addEventListener ''abort'' (Follow t s) True))) (any_loop ab t ss))"

definition make_any :: "(nat \<Rightarrow> reason option \<Rightarrow> unit acode) \<Rightarrow> nat list \<Rightarrow> nat acode" where
  "make_any ab ss = js_bind alloc_signal (\<lambda>t. js_seq (any_loop ab t ss) (js_ret t))"

definition make_aborted :: "(nat \<Rightarrow> reason option \<Rightarrow> unit acode) \<Rightarrow> reason option \<Rightarrow> nat acode" where
  "make_aborted ab r = js_bind alloc_signal (\<lambda>t. js_seq (ab t r) (js_ret t))"

text \<open>A call that neither aborts nor makes a signal.\<close>

definition simple_call :: "acall \<Rightarrow> unit acode" where
  "simple_call c = (case c of
       CListen s cb once \<Rightarrow> js_mod (upd_listeners s (addEventListener ''abort'' (UserCb cb) once))
     | CUnlisten s cb \<Rightarrow> js_mod (upd_listeners s (removeEventListener ''abort'' (UserCb cb)))
     | CHandler s h \<Rightarrow> js_mod (mod_signal s (\<lambda>g. g\<lparr>onabort := h,
         s_listeners := set_handler ''abort'' (OnAbort s) (onabort g \<noteq> None) (h \<noteq> None) (s_listeners g)\<rparr>))
     | CThrowIfAborted s \<Rightarrow> js_bind (js_get (\<lambda>w. (signals w ! s))) (\<lambda>g.
         if aborted g then js_throw (case abort_reason g of Some r \<Rightarrow> r | None \<Rightarrow> default_reason) else js_ret ())
     | _ \<Rightarrow> js_ret ())"

definition run_call :: "(nat \<Rightarrow> reason option \<Rightarrow> unit acode) \<Rightarrow> acall \<Rightarrow> unit acode" where
  "run_call ab c = (case c of
       CAbort s r \<Rightarrow> ab s r
     | CNew \<Rightarrow> js_seq alloc_signal (js_ret ())
     | CAbortNew r \<Rightarrow> js_seq (make_aborted ab r) (js_ret ())
     | CAny ss \<Rightarrow> js_seq (make_any ab ss) (js_ret ())
     | _ \<Rightarrow> simple_call c)"

definition run_user :: "listener_code \<Rightarrow> (nat \<Rightarrow> reason option \<Rightarrow> unit acode) \<Rightarrow> nat \<Rightarrow> bool acode" where
  "run_user U ab k = js_bind (js_get (U k)) (\<lambda>(calls, stop). js_seq (js_for calls (run_call ab)) (js_ret stop))"

text \<open>A listener: the program's, the one of \<open>AbortSignal.any\<close>, which passes the reason on, and the one that
  calls the property \<open>onabort\<close>.\<close>

definition run_listener :: "listener_code \<Rightarrow> (nat \<Rightarrow> reason option \<Rightarrow> unit acode) \<Rightarrow> abort_cb \<Rightarrow> bool acode" where
  "run_listener U ab cb = (case cb of
       UserCb k \<Rightarrow> run_user U ab k
     | Follow t src \<Rightarrow> js_bind (js_get (\<lambda>w. abort_reason (signals w ! src))) (\<lambda>r. js_seq (ab t r) (js_ret False))
     | OnAbort s \<Rightarrow> js_bind (js_get (\<lambda>w. onabort (signals w ! s))) (\<lambda>h.
         case h of None \<Rightarrow> js_ret False | Some k \<Rightarrow> run_user U ab k))"

definition abort_step :: "listener_code \<Rightarrow> (nat \<Rightarrow> reason option \<Rightarrow> unit acode) \<Rightarrow> nat \<Rightarrow> reason option \<Rightarrow> unit acode" where
  "abort_step U ab s r =
     js_bind (js_get (\<lambda>w. s < length (signals w))) (\<lambda>known.
       if \<not> known then js_throw (Other 0)
       else js_bind (js_step (abort_begin s r)) (\<lambda>go.
         if go then dispatchEvent (\<lambda>w. s_listeners (signals w ! s)) (upd_listeners s) (run_listener U ab) ''abort''
         else js_ret ()))"

fun abortSignal :: "listener_code \<Rightarrow> nat \<Rightarrow> nat \<Rightarrow> reason option \<Rightarrow> unit acode" where
  "abortSignal U 0 s r = js_stuck"
| "abortSignal U (Suc n) s r = abort_step U (abortSignal U n) s r"

text \<open>The static methods, as the program calls them.\<close>

definition signal_any :: "listener_code \<Rightarrow> nat \<Rightarrow> nat list \<Rightarrow> nat acode" where
  "signal_any U n ss = make_any (abortSignal U n) ss"

definition signal_abort :: "listener_code \<Rightarrow> nat \<Rightarrow> reason option \<Rightarrow> nat acode" where
  "signal_abort U n r = make_aborted (abortSignal U n) r"

declare abortSignal.simps [simp del]

section \<open>Signals stay aborted\<close>

definition stays_aborted :: "nat \<Rightarrow> reason option \<Rightarrow> aworld \<Rightarrow> bool" where
  "stays_aborted t r w \<longleftrightarrow> t < length (signals w) \<and> aborted (signals w ! t) \<and> abort_reason (signals w ! t) = r"

text \<open>The books of the runtime: the native side is told of each aborted signal once.\<close>

definition abort_ok :: "aworld \<Rightarrow> bool" where
  "abort_ok w \<longleftrightarrow> (\<forall>i < length (signals w). native_id (signals w ! i) = i \<and>
       (aborted (signals w ! i) \<longleftrightarrow> abort_reason (signals w ! i) \<noteq> None)) \<and>
     distinct (native_aborts w) \<and> set (native_aborts w) = {i. i < length (signals w) \<and> aborted (signals w ! i)}"

lemma mod_signal_length [simp]: "length (signals (mod_signal s f w)) = length (signals w)"
  by (simp add: mod_signal_def)

lemma mod_signal_nth:
  "t < length (signals w) \<Longrightarrow> signals (mod_signal s f w) ! t = (if t = s then f (signals w ! t) else signals w ! t)"
  by (simp add: mod_signal_def nth_list_update)

lemma mod_signal_natives [simp]: "native_aborts (mod_signal s f w) = native_aborts w"
  by (simp add: mod_signal_def)

text \<open>A change that is not an abort.\<close>

definition quiet :: "(signal \<Rightarrow> signal) \<Rightarrow> bool" where
  "quiet f \<longleftrightarrow> (\<forall>g. aborted (f g) = aborted g \<and> abort_reason (f g) = abort_reason g \<and> native_id (f g) = native_id g)"

lemma quiet_listeners: "quiet (\<lambda>g. g\<lparr>s_listeners := h (s_listeners g)\<rparr>)"
  by (simp add: quiet_def)

lemma quiet_keeps:
  assumes "quiet f"
  shows "stays_aborted t r w \<Longrightarrow> stays_aborted t r (mod_signal s f w)" and "abort_ok w \<Longrightarrow> abort_ok (mod_signal s f w)"
proof -
  have same: "aborted (signals (mod_signal s f w) ! i) = aborted (signals w ! i)"
    "abort_reason (signals (mod_signal s f w) ! i) = abort_reason (signals w ! i)"
    "native_id (signals (mod_signal s f w) ! i) = native_id (signals w ! i)" if "i < length (signals w)" for i
    using assms that by (simp_all add: mod_signal_nth quiet_def)
  show "stays_aborted t r w \<Longrightarrow> stays_aborted t r (mod_signal s f w)" by (simp add: stays_aborted_def same)
  show "abort_ok w \<Longrightarrow> abort_ok (mod_signal s f w)" by (auto simp: abort_ok_def same)
qed

lemma abort_begin_keeps:
  assumes "s < length (signals w)"
  shows "stays_aborted t r w \<Longrightarrow> stays_aborted t r (snd (abort_begin s r' w))"
    and "abort_ok w \<Longrightarrow> abort_ok (snd (abort_begin s r' w))"
  using assms
  by (auto simp: stays_aborted_def abort_ok_def abort_begin_def mod_signal_nth nth_list_update mod_signal_def split: if_splits)

lemma add_signal_keeps:
  "stays_aborted t r w \<Longrightarrow> stays_aborted t r (add_signal w)" "abort_ok w \<Longrightarrow> abort_ok (add_signal w)"
  by (auto simp: add_signal_def stays_aborted_def abort_ok_def nth_append new_AbortSignal_def less_Suc_eq)

text \<open>Listeners that make no signals.\<close>

definition makes_signal :: "acall \<Rightarrow> bool" where
  "makes_signal c = (case c of CNew \<Rightarrow> True | CAbortNew _ \<Rightarrow> True | CAny _ \<Rightarrow> True | _ \<Rightarrow> False)"

definition makes_none :: "listener_code \<Rightarrow> bool" where
  "makes_none U \<longleftrightarrow> (\<forall>k w. \<forall>c\<in>set (fst (U k w)). \<not> makes_signal c)"

text \<open>What is kept, as one interface: what quiet changes, the beginning of an abort and, if listeners make signals, a new
  signal keep, everything keeps.\<close>

locale abort_laws =
  fixes U :: listener_code and I :: "aworld \<Rightarrow> bool"
  assumes keep_quiet: "quiet f \<Longrightarrow> I w \<Longrightarrow> I (mod_signal s f w)"
    and keep_begin: "s < length (signals w) \<Longrightarrow> I w \<Longrightarrow> I (snd (abort_begin s r w))"
    and keep_new: "\<not> makes_none U \<Longrightarrow> I w \<Longrightarrow> I (add_signal w)"
begin

lemma pres_simple_call: "preserves I (simple_call c)"
proof (cases c)
  case (CThrowIfAborted s)
  then show ?thesis by (auto simp: simple_call_def intro!: pres_intro)
qed (auto simp: simple_call_def upd_listeners_def quiet_def intro!: preserves_mod keep_quiet pres_intro)

lemma pres_any_loop: "(\<And>s r. preserves I (ab s r)) \<Longrightarrow> preserves I (any_loop ab t ss)"
  by (induction ss)
    (auto simp: upd_listeners_def intro!: pres_intro preserves_mod keep_quiet quiet_listeners split: option.split)

lemma pres_call:
  assumes "\<And>s r. preserves I (ab s r)" and "makes_signal c \<Longrightarrow> \<not> makes_none U"
  shows "preserves I (run_call ab c)"
proof (cases "makes_signal c")
  case True
  then have "preserves I alloc_signal"
    using keep_new assms(2) unfolding alloc_signal_def by (auto simp: preserves_def pres_at_def js_step_def)
  then show ?thesis
    using True by (cases c)
      (auto simp: run_call_def make_any_def make_aborted_def makes_signal_def intro!: pres_intro assms(1) pres_any_loop)
next
  case False
  then show ?thesis
    using assms(1) pres_simple_call by (cases c) (simp_all add: run_call_def makes_signal_def)
qed

lemma pres_run_user:
  assumes "\<And>s r. preserves I (ab s r)"
  shows "preserves I (run_user U ab k)"
proof -
  have calls: "preserves I (js_for cs (run_call ab))" if "\<forall>c\<in>set cs. makes_signal c \<longrightarrow> \<not> makes_none U" for cs
    using that by (induction cs) (auto intro!: pres_intro pres_call assms)
  have "preserves I (js_seq (js_for (fst (U k w)) (run_call ab)) (js_ret (snd (U k w))))" for w
    by (intro pres_intro calls) (auto simp: makes_none_def)
  then show ?thesis
    by (auto simp: run_user_def preserves_def pres_at_def js_bind_def js_get_def case_prod_beta)
qed

lemma pres_run_listener:
  assumes "\<And>s r. preserves I (ab s r)"
  shows "preserves I (run_listener U ab cb)"
  using pres_run_user [of ab] assms unfolding run_listener_def by (cases cb) (auto intro!: pres_intro split: option.split)

lemma pres_dispatch_abort:
  "(\<And>s r. preserves I (ab s r)) \<Longrightarrow>
   preserves I (dispatchEvent (\<lambda>w. s_listeners (signals w ! s)) (upd_listeners s) (run_listener U ab) ''abort'')"
  by (rule preserves_dispatch) (auto simp: upd_listeners_def intro: pres_run_listener keep_quiet quiet_listeners)

lemma pres_abort: "preserves I (abortSignal U n s r)"
proof (induction n arbitrary: s r)
  case (Suc n)
  have "pres_at I (js_bind (js_step (abort_begin s r)) (\<lambda>go.
      if go then dispatchEvent (\<lambda>w. s_listeners (signals w ! s)) (upd_listeners s) (run_listener U (abortSignal U n)) ''abort''
      else js_ret ())) w" if "s < length (signals w)" for w
    by (rule pres_at_bind_step)
      (auto simp: keep_begin that intro!: preserves_at pres_dispatch_abort Suc.IH preserves_ret)
  then show ?case
    by (auto simp: abortSignal.simps abort_step_def preserves_def intro!: preserves_at [OF preserves_throw])
qed (simp add: abortSignal.simps preserves_stuck)

end

interpretation stays: abort_laws U "stays_aborted t r" for U t r
  by unfold_locales (auto intro: quiet_keeps abort_begin_keeps add_signal_keeps)

interpretation books: abort_laws U abort_ok for U
  by unfold_locales (auto intro: quiet_keeps abort_begin_keeps add_signal_keeps)

text \<open>After the beginning of an abort the signal is aborted, and it stays so.\<close>

lemma abort_done:
  assumes "s < length (signals w)"
  shows "stays_aborted s (if aborted (signals w ! s) then abort_reason (signals w ! s)
      else Some (case r of None \<Rightarrow> default_reason | Some x \<Rightarrow> x)) (snd (abortSignal U (Suc n) s r w))"
    (is "stays_aborted s ?r _")
proof -
  define w1 where "w1 = snd (abort_begin s r w)"
  have "stays_aborted s ?r w1"
    using assms by (auto simp: w1_def abort_begin_def stays_aborted_def mod_signal_def)
  moreover from this have "stays_aborted s ?r (snd (dispatchEvent (\<lambda>w. s_listeners (signals w ! s)) (upd_listeners s)
      (run_listener U (abortSignal U n)) ''abort'' w1))"
    using stays.pres_dispatch_abort [where ab = "abortSignal U n", OF stays.pres_abort] by (blast dest: preservesD)
  moreover have "snd (abortSignal U (Suc n) s r w) =
      (if aborted (signals w ! s) then w1
       else snd (dispatchEvent (\<lambda>w. s_listeners (signals w ! s)) (upd_listeners s) (run_listener U (abortSignal U n)) ''abort'' w1))"
    using assms
    by (simp add: abortSignal.simps abort_step_def js_bind_def js_get_def js_step_def js_ret_def w1_def abort_begin_def)
  ultimately show ?thesis by (cases "aborted (signals w ! s)") simp_all
qed

section \<open>Aborting ends\<close>

definition aborts :: "aworld \<Rightarrow> nat" where
  "aborts w = length (filter aborted (signals w))"

definition unaborted :: "aworld \<Rightarrow> nat" where
  "unaborted w = length (filter (\<lambda>g. \<not> aborted g) (signals w))"

lemma aborts_unaborted: "aborts w + unaborted w = length (signals w)"
  by (simp add: aborts_def unaborted_def sum_length_filter_compl)

text \<open>Code that revives no signal, and that has aborted at least \<open>k\<close> when the recursion is used up.\<close>

definition deep :: "nat \<Rightarrow> 'a acode \<Rightarrow> bool" where
  "deep k m \<longleftrightarrow> (\<forall>w. aborts w \<le> aborts (snd (m w)) \<and> (fst (m w) = Stuck \<longrightarrow> aborts w + k \<le> aborts (snd (m w))))"

lemma deep_bind:
  assumes "deep k m" and "\<And>x. deep k (f x)"
  shows "deep k (js_bind m f)"
  unfolding deep_def
proof (intro allI)
  fix w
  obtain o1 w1 where m: "m w = (o1, w1)" by fastforce
  then have w1: "aborts w \<le> aborts w1" "o1 = Stuck \<longrightarrow> aborts w + k \<le> aborts w1"
    using assms(1) by (auto simp: deep_def dest: spec [of _ w])
  show "aborts w \<le> aborts (snd (js_bind m f w)) \<and> (fst (js_bind m f w) = Stuck \<longrightarrow> aborts w + k \<le> aborts (snd (js_bind m f w)))"
  proof (cases o1)
    case (Return x)
    then have "aborts w1 \<le> aborts (snd (f x w1))" "fst (f x w1) = Stuck \<longrightarrow> aborts w1 + k \<le> aborts (snd (f x w1))"
      using assms(2) [of x] by (auto simp: deep_def)
    then show ?thesis using m w1 Return by (auto simp: js_bind_def)
  qed (use m w1 in \<open>auto simp: js_bind_def\<close>)
qed

lemma deep_basic:
  "deep k (js_ret x)" "deep k (js_throw e)" "deep k (js_get f)"
  by (simp_all add: deep_def js_ret_def js_throw_def js_get_def)

lemma deep_alloc: "deep k alloc_signal"
  by (simp add: deep_def alloc_signal_def js_step_def add_signal_def aborts_def new_AbortSignal_def)

lemma deep_seq: "deep k m \<Longrightarrow> deep k n \<Longrightarrow> deep k (js_seq m n)"
  unfolding js_seq_def by (rule deep_bind)

lemma deep_for: "(\<And>x. deep k (f x)) \<Longrightarrow> deep k (js_for xs f)"
  by (induction xs) (simp_all add: deep_basic deep_seq)

lemma aborts_quiet: "quiet f \<Longrightarrow> aborts (mod_signal s f w) = aborts w"
proof -
  assume "quiet f"
  then have "map aborted (signals (mod_signal s f w)) = map aborted (signals w)"
    by (simp add: quiet_def mod_signal_def map_update list_update_same_conv)
  then have "length (filter id (map aborted (signals (mod_signal s f w)))) = length (filter id (map aborted (signals w)))"
    by simp
  then show ?thesis by (simp add: aborts_def filter_map comp_def)
qed

lemma deep_quiet: "quiet f \<Longrightarrow> deep k (js_mod (mod_signal s f))"
  by (simp add: deep_def js_mod_def aborts_quiet)

lemmas deep_intro = deep_bind deep_seq deep_for deep_basic deep_alloc deep_quiet quiet_listeners

lemma deep_listener:
  assumes "\<And>s r. deep k (ab s r)"
  shows "deep k (run_listener U ab cb)"
proof -
  have simple: "deep k (simple_call c)" for c
    by (cases c) (auto simp: simple_call_def upd_listeners_def quiet_def intro!: deep_intro)
  have loop: "deep k (any_loop ab t ss)" for t ss
    by (induction ss) (auto simp: upd_listeners_def intro!: deep_intro assms split: option.split)
  have "deep k (run_call ab c)" for c
    by (cases c) (auto simp: run_call_def make_any_def make_aborted_def intro!: deep_intro simple loop assms)
  then have "deep k (run_user U ab j)" for j
    unfolding run_user_def by (auto intro!: deep_intro)
  then show ?thesis
    unfolding run_listener_def by (cases cb) (auto intro!: deep_intro assms split: option.split)
qed

lemma deep_dispatch:
  assumes "\<And>s r. deep k (ab s r)"
  shows "deep k (dispatchEvent (\<lambda>w. s_listeners (signals w ! s)) (upd_listeners s) (run_listener U ab) ''abort'')"
proof -
  have "deep k (dispatch_loop (upd_listeners s) (run_listener U ab) ''abort'' ls)" for ls
  proof (induction ls)
    case (Cons l ls)
    then show ?case
      by (cases l) (auto simp: js_when_def upd_listeners_def intro!: deep_intro deep_listener assms)
  qed (simp add: deep_basic)
  then show ?thesis unfolding dispatchEvent_def by (intro deep_bind deep_basic)
qed

lemma aborts_begin:
  assumes "s < length (signals w)" and "\<not> aborted (signals w ! s)"
  shows "aborts (snd (abort_begin s r w)) = Suc (aborts w)"
proof -
  have split: "signals w = take s (signals w) @ signals w ! s # drop (Suc s) (signals w)"
    using assms(1) by (rule id_take_nth_drop)
  have "aborts w = length (filter aborted (take s (signals w))) + length (filter aborted (drop (Suc s) (signals w)))"
    unfolding aborts_def by (subst split) (simp add: assms(2))
  then show ?thesis
    using assms by (simp add: abort_begin_def mod_signal_def aborts_def upd_conv_take_nth_drop)
qed

lemma deep_abort: "deep n (abortSignal U n s r)"
proof (induction n arbitrary: s r)
  case (Suc n)
  show ?case unfolding deep_def
  proof (intro allI)
    fix w
    show "aborts w \<le> aborts (snd (abortSignal U (Suc n) s r w)) \<and>
      (fst (abortSignal U (Suc n) s r w) = Stuck \<longrightarrow> aborts w + Suc n \<le> aborts (snd (abortSignal U (Suc n) s r w)))"
    proof (cases "s < length (signals w) \<and> \<not> aborted (signals w ! s)")
      case True
      define w1 where "w1 = snd (abort_begin s r w)"
      have w1: "aborts w1 = Suc (aborts w)" using aborts_begin True by (simp add: w1_def)
      have "deep n (dispatchEvent (\<lambda>w. s_listeners (signals w ! s)) (upd_listeners s) (run_listener U (abortSignal U n)) ''abort'')"
        by (rule deep_dispatch) (rule Suc.IH)
      then have "aborts w1 \<le> aborts (snd (dispatchEvent (\<lambda>w. s_listeners (signals w ! s)) (upd_listeners s) (run_listener U (abortSignal U n)) ''abort'' w1)) \<and>
        (fst (dispatchEvent (\<lambda>w. s_listeners (signals w ! s)) (upd_listeners s) (run_listener U (abortSignal U n)) ''abort'' w1) = Stuck \<longrightarrow>
         aborts w1 + n \<le> aborts (snd (dispatchEvent (\<lambda>w. s_listeners (signals w ! s)) (upd_listeners s) (run_listener U (abortSignal U n)) ''abort'' w1)))"
        by (simp add: deep_def)
      moreover have "abortSignal U (Suc n) s r w =
          dispatchEvent (\<lambda>w. s_listeners (signals w ! s)) (upd_listeners s) (run_listener U (abortSignal U n)) ''abort'' w1"
        using True by (simp add: abortSignal.simps abort_step_def js_bind_def js_get_def js_step_def w1_def abort_begin_def)
      ultimately show ?thesis using w1 by auto
    qed (auto simp: abortSignal.simps abort_step_def js_bind_def js_get_def js_step_def js_throw_def js_ret_def abort_begin_def)
  qed
qed (simp add: deep_def abortSignal.simps js_stuck_def)

lemma makes_none_laws: "makes_none U \<Longrightarrow> abort_laws U (\<lambda>w. length (signals w) = m)"
  by unfold_locales (auto simp: abort_begin_def)

section \<open>\<open>AbortSignal.any\<close> follows\<close>

lemma length_laws: "abort_laws U (\<lambda>w. t < length (signals w))"
  by unfold_locales (auto simp: abort_begin_def add_signal_def)

definition never_stops :: "listener_code \<Rightarrow> bool" where
  "never_stops U \<longleftrightarrow> (\<forall>k w. \<not> snd (U k w))"

lemma listener_goes_on: "never_stops U \<Longrightarrow> run_listener U ab cb w = (Return b, w') \<Longrightarrow> \<not> b"
  by (cases cb)
    (auto simp: run_listener_def run_user_def never_stops_def js_bind_def js_seq_def js_get_def js_ret_def
      split: prod.splits outcome.splits option.splits, (metis snd_conv)+)

lemma follow_aborts:
  assumes "t < length (signals w)"
  shows "\<exists>r. stays_aborted t r (snd (run_listener U (abortSignal U (Suc n)) (Follow t src) w))"
proof -
  have "snd (run_listener U (abortSignal U (Suc n)) (Follow t src) w) =
      snd (abortSignal U (Suc n) t (abort_reason (signals w ! src)) w)"
    by (simp add: run_listener_def js_bind_def js_seq_def js_get_def js_ret_def split: prod.split outcome.split)
  then show ?thesis using abort_done [OF assms] by metis
qed

lemma loop_aborts:
  assumes "never_stops U" and "Follow t src \<in> fst ` set ls" and "t < length (signals w)"
    and "dispatch_loop (upd_listeners s) (run_listener U (abortSignal U (Suc n))) ''abort'' ls w = (Return (), w')"
  shows "aborted (signals w' ! t)"
  using assms(2-4)
proof (induction ls arbitrary: w)
  case (Cons l ls)
  obtain cb once where l: "l = (cb, once)" by (cases l)
  define w1 where "w1 = (if once then upd_listeners s (removeEventListener ''abort'' cb) w else w)"
  obtain b w2 where w2: "run_listener U (abortSignal U (Suc n)) cb w1 = (Return b, w2)"
    and rest: "\<not> b \<Longrightarrow> dispatch_loop (upd_listeners s) (run_listener U (abortSignal U (Suc n))) ''abort'' ls w2 = (Return (), w')"
    using Cons.prems(3)
    by (auto simp: l w1_def js_seq_def js_bind_def js_when_def js_mod_def js_ret_def split: prod.splits outcome.splits if_splits)
  have len: "t < length (signals w1)" using Cons.prems(2) by (simp add: w1_def upd_listeners_def)
  have rest': "dispatch_loop (upd_listeners s) (run_listener U (abortSignal U (Suc n))) ''abort'' ls w2 = (Return (), w')"
    using rest listener_goes_on [OF assms(1) w2] by blast
  show ?case
  proof (cases "cb = Follow t src")
    case True
    then obtain q where "stays_aborted t q w2" using follow_aborts [OF len, of U n src] w2 by auto
    moreover have "preserves (stays_aborted t q) (dispatch_loop (upd_listeners s) (run_listener U (abortSignal U (Suc n))) ''abort'' ls)"
      by (rule preserves_dispatch_loop)
        (auto simp: upd_listeners_def intro: stays.pres_run_listener stays.pres_abort stays.keep_quiet quiet_listeners)
    ultimately have "stays_aborted t q w'" using preservesD rest' by (metis snd_conv)
    then show ?thesis by (simp add: stays_aborted_def)
  next
    case False
    have "t < length (signals w2)"
      using preservesD [OF abort_laws.pres_run_listener [OF length_laws, where ab = "abortSignal U (Suc n)",
            OF abort_laws.pres_abort [OF length_laws]] len, of U cb] w2 by simp
    then show ?thesis using Cons.IH rest' Cons.prems(1) False by (auto simp: l)
  qed
qed simp

lemma abort_aborts_follower:
  assumes "never_stops U" and "s < length (signals w)" and "\<not> aborted (signals w ! s)" and "t < length (signals w)"
    and "Follow t s \<in> fst ` set (listeners_of ''abort'' (s_listeners (signals w ! s)))"
    and "abortSignal U (Suc (Suc n)) s r w = (Return (), w')"
  shows "aborted (signals w' ! t)"
proof -
  define w1 where "w1 = snd (abort_begin s r w)"
  have "s_listeners (signals w1 ! s) = s_listeners (signals w ! s)" "length (signals w1) = length (signals w)"
    using assms(2,3) by (simp_all add: w1_def abort_begin_def mod_signal_nth)
  moreover have "dispatch_loop (upd_listeners s) (run_listener U (abortSignal U (Suc n))) ''abort''
      (listeners_of ''abort'' (s_listeners (signals w1 ! s))) w1 = (Return (), w')"
    using assms(2,3,6) by (simp add: abortSignal.simps abort_step_def dispatchEvent_def js_bind_def js_get_def js_step_def w1_def abort_begin_def)
  ultimately show ?thesis using loop_aborts [OF assms(1)] assms(4,5) by metis
qed

text \<open>When no signal of the argument is aborted, \<open>any\<close> only adds its listeners.\<close>

definition unaborted_in :: "nat list \<Rightarrow> aworld \<Rightarrow> bool" where
  "unaborted_in ss w \<longleftrightarrow> (\<forall>s\<in>set ss. s < length (signals w) \<and> \<not> aborted (signals w ! s))"

lemma any_loop_listens:
  assumes "unaborted_in ss w"
  shows "\<exists>w'. any_loop ab t ss w = (Return (), w') \<and> length (signals w') = length (signals w) \<and>
     (\<forall>i < length (signals w). aborted (signals w' ! i) = aborted (signals w ! i)) \<and>
     (\<forall>i < length (signals w). i \<in> set ss \<or> Follow t i \<in> fst ` set (listeners_of ''abort'' (s_listeners (signals w ! i))) \<longrightarrow>
        Follow t i \<in> fst ` set (listeners_of ''abort'' (s_listeners (signals w' ! i))))"
  using assms
proof (induction ss arbitrary: w)
  case (Cons s ss)
  define w1 where "w1 = upd_listeners s (addEventListener ''abort'' (Follow t s) True) w"
  have s: "s < length (signals w)" "\<not> aborted (signals w ! s)" using Cons.prems by (auto simp: unaborted_in_def)
  have ab: "aborted (signals w1 ! i) = aborted (signals w ! i)" if "i < length (signals w)" for i
    using that by (simp add: w1_def upd_listeners_def mod_signal_nth)
  have len: "length (signals w1) = length (signals w)" by (simp add: w1_def upd_listeners_def)
  have "unaborted_in ss w1" using Cons.prems ab by (auto simp: unaborted_in_def len)
  from Cons.IH [OF this] obtain w' where w': "any_loop ab t ss w1 = (Return (), w')" "length (signals w') = length (signals w)"
    "\<forall>i < length (signals w). aborted (signals w' ! i) = aborted (signals w1 ! i)"
    "\<forall>i < length (signals w). i \<in> set ss \<or> Follow t i \<in> fst ` set (listeners_of ''abort'' (s_listeners (signals w1 ! i))) \<longrightarrow>
        Follow t i \<in> fst ` set (listeners_of ''abort'' (s_listeners (signals w' ! i)))"
    by (auto simp: len)
  moreover have "any_loop ab t (s # ss) w = any_loop ab t ss w1"
    using s by (simp add: js_bind_def js_seq_def js_get_def js_mod_def w1_def)
  moreover have "Follow t i \<in> fst ` set (listeners_of ''abort'' (s_listeners (signals w1 ! i)))"
    if "i < length (signals w)" "i = s \<or> Follow t i \<in> fst ` set (listeners_of ''abort'' (s_listeners (signals w ! i)))" for i
    using that by (auto simp: w1_def upd_listeners_def mod_signal_nth listeners_of_add)
  ultimately show ?case using ab by auto
qed (auto simp: js_ret_def)

section \<open>Properties\<close>

text \<open>C30: A signal is aborted at most once. Whatever the listeners do, and also when they throw: after
  \<open>abort(reason)\<close> the signal is aborted, with the reason it had if it was aborted before and otherwise with
  the given one (or an \<open>AbortError\<close>); a signal that was aborted before keeps its reason; and the native
  side has been told of every aborted signal exactly once.\<close>

theorem abort_takes_effect_once:
  fixes U :: listener_code and n s :: nat and r :: "reason option" and w :: aworld
  assumes "s < length (signals w)" and "abort_ok w"
  defines "w' \<equiv> snd (abortSignal U (Suc n) s r w)"
  shows "aborted (signals w' ! s) \<and>
     abort_reason (signals w' ! s) = (if aborted (signals w ! s) then abort_reason (signals w ! s)
        else Some (case r of None \<Rightarrow> default_reason | Some x \<Rightarrow> x)) \<and>
     (\<forall>t < length (signals w). aborted (signals w ! t) \<longrightarrow>
        aborted (signals w' ! t) \<and> abort_reason (signals w' ! t) = abort_reason (signals w ! t)) \<and>
     distinct (native_aborts w') \<and> set (native_aborts w') = {i. i < length (signals w') \<and> aborted (signals w' ! i)}"
proof -
  have "stays_aborted t (abort_reason (signals w ! t)) w'" if "t < length (signals w)" "aborted (signals w ! t)" for t
    unfolding w'_def by (rule preservesD [OF stays.pres_abort]) (simp add: stays_aborted_def that)
  moreover have "abort_ok w'" unfolding w'_def using books.pres_abort assms(2) by (rule preservesD)
  ultimately show ?thesis
    using abort_done [OF assms(1), of r U n] by (simp add: stays_aborted_def abort_ok_def w'_def)
qed

text \<open>Two signals, the second follows the first; a listener of the second aborts the first again.\<close>

definition two_signals :: aworld where
  "two_signals = \<lparr>signals = [(new_AbortSignal 0)\<lparr>s_listeners := [(''abort'', [(Follow 1 0, True)])]\<rparr>,
     (new_AbortSignal 1)\<lparr>s_listeners := [(''abort'', [(UserCb 0, False)])]\<rparr>], native_aborts = []\<rparr>"

definition abort_again :: listener_code where
  "abort_again k w = ([CAbort 0 (Some (Other 5))], False)"

lemma two_signals_ok: "abort_ok two_signals"
  by (auto simp: abort_ok_def two_signals_def new_AbortSignal_def less_Suc_eq nth_Cons split: nat.splits)

theorem abort_takes_effect_once_witness:
  "abort_reason (signals (snd (abortSignal abort_again 3 0 (Some (Other 7)) two_signals)) ! 0) = Some (Other 7)"
  using abort_takes_effect_once [OF _ two_signals_ok, of 0 abort_again 2 "Some (Other 7)"]
  by (simp add: two_signals_def new_AbortSignal_def numeral_3_eq_3 numeral_2_eq_2)

text \<open>C31: Aborting ends when listeners make no signals. However they abort signals, and each other's, the recursion is then no
  deeper than one more than the number of signals that are not yet aborted. With listeners that do make signals, by \<open>new AbortController\<close>,
  \<open>AbortSignal.abort\<close> or \<open>AbortSignal.any\<close>, it goes deeper than that only if so many were made: a recursion that is \<open>n\<close> deep has used up \<open>n\<close>
  signals, those that were not aborted before and new ones.\<close>

theorem abort_terminates:
  fixes U :: listener_code and n s :: nat and r :: "reason option" and w :: aworld
  defines "w' \<equiv> snd (abortSignal U n s r w)"
  shows "(fst (abortSignal U n s r w) = Stuck \<longrightarrow> n + length (signals w) \<le> unaborted w + length (signals w')) \<and>
    ((\<forall>k v. \<forall>c\<in>set (fst (U k v)). c \<noteq> CNew \<and> (\<forall>q. c \<noteq> CAbortNew q) \<and> (\<forall>ss. c \<noteq> CAny ss)) \<and> unaborted w < n \<longrightarrow>
      fst (abortSignal U n s r w) \<noteq> Stuck)"
proof -
  have deep: "n + length (signals w) \<le> unaborted w + length (signals w')" if "fst (abortSignal U n s r w) = Stuck"
  proof -
    have "aborts w + n \<le> aborts w'"
      using deep_abort [of n U s r] that by (simp add: deep_def w'_def)
    then show ?thesis using aborts_unaborted [of w] aborts_unaborted [of w'] by linarith
  qed
  moreover have "fst (abortSignal U n s r w) \<noteq> Stuck"
    if U: "\<forall>k v. \<forall>c\<in>set (fst (U k v)). c \<noteq> CNew \<and> (\<forall>q. c \<noteq> CAbortNew q) \<and> (\<forall>ss. c \<noteq> CAny ss)" and "unaborted w < n"
  proof
    assume "fst (abortSignal U n s r w) = Stuck"
    moreover have "makes_none U" using U by (auto simp: makes_none_def makes_signal_def split: acall.split)
    then have "length (signals w') = length (signals w)"
      using preservesD [OF abort_laws.pres_abort [OF makes_none_laws]] by (simp add: w'_def)
    ultimately show False using deep \<open>unaborted w < n\<close> by simp
  qed
  ultimately show ?thesis by blast
qed

theorem abort_terminates_witness: "fst (abortSignal abort_again 3 0 None two_signals) \<noteq> Stuck"
  using abort_terminates [where U = abort_again and n = 3 and s = 0 and r = None and w = two_signals]
  by (simp add: unaborted_def two_signals_def new_AbortSignal_def abort_again_def)

text \<open>A listener that makes a controller, adds itself to its signal and aborts it never comes to an end.\<close>

definition abort_a_new_one :: listener_code where
  "abort_a_new_one k w = (let t = length (signals w) in ([CNew, CListen t 0 False, CAbort t None], False))"

theorem abort_may_not_end:
  assumes "s < length (signals w)" and "\<not> aborted (signals w ! s)" and "s_listeners (signals w ! s) = [(''abort'', [(UserCb 0, False)])]"
  shows "fst (abortSignal abort_a_new_one n s r w) = Stuck"
  using assms
proof (induction n arbitrary: s r w)
  case (Suc n)
  define w1 where "w1 = snd (abort_begin s r w)"
  define t where "t = length (signals w1)"
  define w2 where "w2 = upd_listeners t (addEventListener ''abort'' (UserCb 0) False) (add_signal w1)"
  have go: "fst (abort_begin s r w)" "s_listeners (signals w1 ! s) = [(''abort'', [(UserCb 0, False)])]"
    using Suc.prems by (simp_all add: w1_def abort_begin_def mod_signal_nth)
  have "t < length (signals w2)" "\<not> aborted (signals w2 ! t)" "s_listeners (signals w2 ! t) = [(''abort'', [(UserCb 0, False)])]"
    by (simp_all add: w2_def t_def add_signal_def upd_listeners_def mod_signal_nth new_AbortSignal_def addEventListener_def listeners_of_def)
  then obtain w3 where stuck: "abortSignal abort_a_new_one n t None w2 = (Stuck, w3)"
    using Suc.IH [of t w2 None] by (metis prod.collapse)
  obtain w4 where "abort_begin s r w = (True, w4)" "w4 = w1" using go(1) by (cases "abort_begin s r w") (auto simp: w1_def)
  moreover have "abort_a_new_one 0 w1 = ([CNew, CListen t 0 False, CAbort t None], False)"
    by (simp add: abort_a_new_one_def t_def Let_def)
  ultimately show ?case
    using Suc.prems(1) go(2) stuck
    by (simp add: abortSignal.simps abort_step_def dispatchEvent_def listeners_of_def run_listener_def run_user_def
        run_call_def simple_call_def alloc_signal_def js_defs w2_def t_def)
qed (simp add: abortSignal.simps js_stuck_def)

text \<open>A signal made by \<open>AbortSignal.any\<close> follows its sources: if none of them was aborted when it was made,
  then after any of them is aborted and the abort returns, it is aborted too, whatever the other
  listeners do (as long as none stops the event).\<close>

theorem any_signal_follows:
  assumes "never_stops U" and "unaborted_in ss w" and "s \<in> set ss" and "signal_any U n ss w = (Return t, w1)"
    and "abortSignal U (Suc (Suc k)) s r w1 = (Return (), w2)"
  shows "aborted (signals w2 ! t)"
proof -
  define w0 where "w0 = w\<lparr>signals := signals w @ [new_AbortSignal (length (signals w))]\<rparr>"
  have "unaborted_in ss w0" using assms(2) by (auto simp: unaborted_in_def w0_def nth_append)
  from any_loop_listens [OF this, of "abortSignal U n" "length (signals w)"]
  obtain w' where w': "any_loop (abortSignal U n) (length (signals w)) ss w0 = (Return (), w')"
    "length (signals w') = length (signals w0)"
    "\<forall>i < length (signals w0). aborted (signals w' ! i) = aborted (signals w0 ! i)"
    "\<forall>i < length (signals w0). i \<in> set ss \<longrightarrow>
       Follow (length (signals w)) i \<in> fst ` set (listeners_of ''abort'' (s_listeners (signals w' ! i)))" by blast
  then have "t = length (signals w)" "w1 = w'"
    using assms(4) by (simp_all add: signal_any_def make_any_def add_signal_def alloc_signal_def js_bind_def js_seq_def js_step_def js_ret_def w0_def)
  moreover have "s < length (signals w0)" "\<not> aborted (signals w0 ! s)"
    using \<open>unaborted_in ss w0\<close> assms(3) by (auto simp: unaborted_in_def)
  ultimately show ?thesis
    using abort_aborts_follower [OF assms(1) _ _ _ _ assms(5)] w' assms(3) by (auto simp: w0_def)
qed

definition one_signal :: aworld where
  "one_signal = \<lparr>signals = [new_AbortSignal 0], native_aborts = []\<rparr>"

definition idle_listeners :: listener_code where
  "idle_listeners k w = ([], False)"

theorem any_signal_follows_witness:
  "\<exists>w1 w2. signal_any idle_listeners 5 [0] one_signal = (Return 1, w1) \<and>
     abortSignal idle_listeners 5 0 None w1 = (Return (), w2) \<and> aborted (signals w2 ! 1)"
proof -
  obtain w1 where w1: "signal_any idle_listeners 5 [0] one_signal = (Return 1, w1)"
    "w1 = \<lparr>signals = [(new_AbortSignal 0)\<lparr>s_listeners := [(''abort'', [(Follow 1 0, True)])]\<rparr>, new_AbortSignal 1], native_aborts = []\<rparr>"
    by (simp add: signal_any_def make_any_def add_signal_def alloc_signal_def one_signal_def js_defs upd_listeners_def mod_signal_def new_AbortSignal_def
        addEventListener_def listeners_of_def)
  obtain w2 where w2: "abortSignal idle_listeners 5 0 None w1 = (Return (), w2)"
    by (simp add: w1(2) numeral_eq_Suc abortSignal.simps abort_step_def abort_begin_def mod_signal_def new_AbortSignal_def dispatchEvent_def
        listeners_of_def run_listener_def upd_listeners_def removeEventListener_def js_defs)
  have "never_stops idle_listeners" "unaborted_in [0] one_signal"
    by (simp_all add: never_stops_def idle_listeners_def unaborted_in_def one_signal_def new_AbortSignal_def)
  then have "aborted (signals w2 ! 1)"
    using any_signal_follows [OF _ _ _ w1(1), of 0 3 None w2] w2 by (simp add: numeral_eq_Suc)
  with w1 w2 show ?thesis by blast
qed

end
