(* ===== verification/Fs_Read.thy ===== *)
theory Fs_Read
  imports Stream_Properties
begin

text \<open>
  \<open>createReadStream\<close> (\<open>src/pkg/jsruntime/fs/streams.js\<close>): a readable stream over a file.

  The variables that the closures share are a record with the readable stream as one field; the stream is
  an object of the stream model, and the closures work on it with the functions of that model. The
  native calls of \<open>fs\<close> that are under way are lists; their callbacks run in any order (the relation
  \<open>rstep\<close>). The file does not change while it is read, a native read returns the bytes at its position, at
  most as many as asked for, and none only at the end of the file. The
  options \<open>highWaterMark\<close>, \<open>start\<close> and \<open>end\<close> are natural numbers.

  The listeners of \<open>open\<close> run between the two halves of the callback of \<open>fs.open\<close>; other steps may happen
  there. Everything else a consumer does (reading, flowing, destroying) is a step of its own.
\<close>

section \<open>The state\<close>

record read_options =
  ro_highWaterMark :: nat
  ro_autoClose :: bool
  ro_start :: nat
  ro_end :: "nat option"

datatype phase = Opening | Emitting | Opened

record read_file =
  rf_source :: stream
  rf_fd :: "nat option"
  rf_position :: nat
  rf_finished :: bool
  rf_openEmitted :: bool
  rf_phase :: phase
  rf_reads :: "(nat \<times> nat \<times> nat) list" \<comment> \<open>descriptor, position and size of the native reads under way\<close>
  rf_closed :: "nat list" \<comment> \<open>the descriptors \<open>fs.close\<close> was called with\<close>
  rf_closing :: "val list" \<comment> \<open>the callbacks of \<open>fs.close\<close> that will complete a destruction\<close>

definition createReadStream :: "read_options \<Rightarrow> read_file" where
  "createReadStream opts = \<lparr>rf_source = new_Readable (no_options\<lparr>o_highWaterMark := Some (Fin (int (ro_highWaterMark opts))),
       o_read := Some (User 0), o_destroy := Some (User 1)\<rparr>),
     rf_fd = None, rf_position = ro_start opts, rf_finished = False, rf_openEmitted = False, rf_phase = Opening,
     rf_reads = [], rf_closed = [], rf_closing = []\<rparr>"

section \<open>What the closures do to the stream\<close>

text \<open>\<open>source.push(chunk)\<close> for a chunk with bytes, and \<open>source.push(null)\<close>; the tasks they schedule are steps of
  their own.\<close>

definition source_push :: "bytes \<Rightarrow> stream \<Rightarrow> stream" where
  "source_push bs ob = (if r_destroyed (rstate ob) then ob else push_chunk (VBuf bs) ob)"

definition source_push_null :: "stream \<Rightarrow> stream" where
  "source_push_null ob =
     (if r_destroyed (rstate ob) then ob
      else let ob' = ob\<lparr>rstate := push_end (rstate ob)\<rparr>
        in if \<not> r_endEmitted (rstate ob) \<and> r_length (rstate ob) = Fin 0 then snd (emitEnd_begin ob') else ob')"

text \<open>The option \<open>destroy\<close> of the stream, and \<open>source.destroy(err)\<close>, which calls it.\<close>

definition destroy_hook :: "val \<Rightarrow> read_file \<Rightarrow> read_file" where
  "destroy_hook err s = (case rf_fd s of
       Some k \<Rightarrow>
         if \<not> rf_finished s then s\<lparr>rf_fd := None, rf_closed := rf_closed s @ [k], rf_closing := rf_closing s @ [err]\<rparr>
         else s\<lparr>rf_source := snd (complete_begin err (rf_source s))\<rparr>
     | None \<Rightarrow> s\<lparr>rf_source := snd (complete_begin err (rf_source s))\<rparr>)"

definition source_destroy :: "val \<Rightarrow> read_file \<Rightarrow> read_file" where
  "source_destroy err s = (case destroy_begin err (rf_source s) of
       (already, ob) \<Rightarrow> if already then s else destroy_hook (if truthy err then err else VNull) (s\<lparr>rf_source := ob\<rparr>))"

definition read_fail :: "val \<Rightarrow> read_file \<Rightarrow> read_file" where
  "read_fail err s = (if rf_finished s then s else source_destroy err (s\<lparr>rf_finished := True\<rparr>))"

definition read_finish :: "read_options \<Rightarrow> read_file \<Rightarrow> read_file" where
  "read_finish opts s =
     (if rf_finished s then s
      else let s' = s\<lparr>rf_finished := True, rf_source := source_push_null (rf_source s)\<rparr>
        in case rf_fd s' of
          Some k \<Rightarrow> if ro_autoClose opts then s'\<lparr>rf_fd := None, rf_closed := rf_closed s' @ [k]\<rparr> else s'
        | None \<Rightarrow> s')"

definition past_end :: "read_options \<Rightarrow> nat \<Rightarrow> bool" where
  "past_end opts pos = (case ro_end opts of None \<Rightarrow> False | Some e \<Rightarrow> e < pos)"

definition remaining :: "read_options \<Rightarrow> nat \<Rightarrow> nat" where
  "remaining opts pos = (case ro_end opts of
       None \<Rightarrow> ro_highWaterMark opts | Some e \<Rightarrow> min (ro_highWaterMark opts) (e - pos + 1))"

definition readChunk :: "read_options \<Rightarrow> read_file \<Rightarrow> read_file" where
  "readChunk opts s = (case rf_fd s of
       None \<Rightarrow> s
     | Some k \<Rightarrow>
         if rf_finished s then s
         else if past_end opts (rf_position s) then read_finish opts s
         else s\<lparr>rf_reads := rf_reads s @ [(k, rf_position s, remaining opts (rf_position s))]\<rparr>)"

section \<open>The callbacks\<close>

text \<open>The callback of \<open>fs.read\<close> without an error: \<open>bs\<close> is what was read.\<close>

definition on_read :: "read_options \<Rightarrow> bytes \<Rightarrow> read_file \<Rightarrow> read_file" where
  "on_read opts bs s =
     (let s' = s\<lparr>rf_position := rf_position s + length bs\<rparr>
      in if bs = [] then read_finish opts s' else s'\<lparr>rf_source := source_push bs (rf_source s')\<rparr>)"

definition on_open :: "nat \<Rightarrow> read_file \<Rightarrow> read_file" where
  "on_open k s = s\<lparr>rf_fd := Some k, rf_openEmitted := True, rf_phase := Emitting\<rparr>"

text \<open>\<open>_maybeRead\<close> calls the option \<open>read\<close> only under these conditions, and marks the stream as reading.\<close>

definition may_read :: "rstate \<Rightarrow> bool" where
  "may_read r \<longleftrightarrow> \<not> r_reading r \<and> \<not> r_ended r \<and> \<not> r_destroyed r \<and> \<not> num_ge (r_length r) (r_highWaterMark r)"

definition read_hook :: "read_options \<Rightarrow> read_file \<Rightarrow> read_file" where
  "read_hook opts s = readChunk opts (s\<lparr>rf_source := (rf_source s)\<lparr>rstate := (rstate (rf_source s))\<lparr>r_reading := True\<rparr>\<rparr>\<rparr>)"

text \<open>What a native read may return.\<close>

definition native_read :: "bytes \<Rightarrow> nat \<Rightarrow> nat \<Rightarrow> bytes \<Rightarrow> bool" where
  "native_read data pos sz bs \<longleftrightarrow> bs = take (length bs) (drop pos data) \<and> length bs \<le> sz \<and>
     (bs = [] \<longrightarrow> sz = 0 \<or> length data \<le> pos)"

text \<open>With \<open>calm\<close> the consumer does not ask for data while a native read is under way or the \<open>open\<close> event is being
  emitted.\<close>

inductive rstep :: "read_options \<Rightarrow> bytes \<Rightarrow> bool \<Rightarrow> read_file \<Rightarrow> read_file \<Rightarrow> bool" for opts data calm where
  open_ok: "rf_phase s = Opening \<Longrightarrow> rstep opts data calm s (on_open k s)"
| open_failed: "rf_phase s = Opening \<Longrightarrow> truthy e \<Longrightarrow> rstep opts data calm s (read_fail e (s\<lparr>rf_phase := Opened\<rparr>))"
| first_read: "rf_phase s = Emitting \<Longrightarrow> rstep opts data calm s (readChunk opts (s\<lparr>rf_phase := Opened\<rparr>))"
| hook: "may_read (rstate (rf_source s)) \<Longrightarrow> calm \<longrightarrow> rf_reads s = [] \<and> rf_phase s \<noteq> Emitting \<Longrightarrow>
    rstep opts data calm s (read_hook opts s)"
| read_ok: "(k, pos, sz) \<in> set (rf_reads s) \<Longrightarrow> native_read data pos sz bs \<Longrightarrow>
    rstep opts data calm s (on_read opts bs (s\<lparr>rf_reads := remove1 (k, pos, sz) (rf_reads s)\<rparr>))"
| read_failed: "(k, pos, sz) \<in> set (rf_reads s) \<Longrightarrow> truthy e \<Longrightarrow>
    rstep opts data calm s (read_fail e (s\<lparr>rf_reads := remove1 (k, pos, sz) (rf_reads s)\<rparr>))"
| flow: "rstep opts data calm s (s\<lparr>rf_source := snd (flow_shift (rf_source s))\<rparr>)"
| read: "positive_size n \<Longrightarrow> rstep opts data calm s (s\<lparr>rf_source := snd (read_take n (rf_source s))\<rparr>)"
| emit_end: "r_ended (rstate (rf_source s)) \<Longrightarrow> r_buffer (rstate (rf_source s)) = [] \<Longrightarrow>
    rstep opts data calm s (s\<lparr>rf_source := snd (emitEnd_begin (rf_source s))\<rparr>)"
| destroy: "rstep opts data calm s (source_destroy e s)"
| close_done: "e \<in> set (rf_closing s) \<Longrightarrow>
    rstep opts data calm s (s\<lparr>rf_closing := remove1 e (rf_closing s), rf_source := snd (complete_begin e (rf_source s))\<rparr>)"

inductive rreachable :: "read_options \<Rightarrow> bytes \<Rightarrow> bool \<Rightarrow> read_file \<Rightarrow> bool" for opts data calm where
  start: "rreachable opts data calm (createReadStream opts)"
| next_step: "rreachable opts data calm s \<Longrightarrow> rstep opts data calm s s' \<Longrightarrow> rreachable opts data calm s'"

end
