(* ===== verification/Fs_Read_Spec.thy ===== *)
theory Fs_Read_Spec
  imports Fs_Read
begin

text \<open>
  What a file stream promises: the consumer gets the bytes of the file between \<open>start\<close> and \<open>end\<close>, in order, and
  all of them before \<open>end\<close>; and what it does when the consumer asks at the wrong moment, and with the
  descriptor of the file.
\<close>

section \<open>The stream as the file code sees it\<close>

abbreviation pushed_bytes :: "stream \<Rightarrow> bytes" where
  "pushed_bytes ob \<equiv> buffer_bytes (pushed (history ob))"

lemma pushed_append [simp]: "pushed (xs @ ys) = pushed xs @ pushed ys" "delivered (xs @ ys) = delivered xs @ delivered ys"
  by (induction xs) auto

lemma no_unshift_append [simp]: "no_unshift (xs @ ys) \<longleftrightarrow> no_unshift xs \<and> no_unshift ys"
  by (simp add: no_unshift_def)

text \<open>Nothing is pushed after \<open>end\<close>.\<close>

definition quiet_end :: "obs list \<Rightarrow> bool" where
  "quiet_end h \<longleftrightarrow> pushed (dropWhile (\<lambda>x. x \<noteq> EmitEnd) h) = []"

lemma quiet_end_snoc [simp]: "quiet_end (h @ [x]) \<longleftrightarrow> quiet_end h \<and> (EmitEnd \<in> set h \<longrightarrow> pushed [x] = [])"
proof (cases "EmitEnd \<in> set h")
  case True
  then have "dropWhile (\<lambda>x. x \<noteq> EmitEnd) (h @ [x]) = dropWhile (\<lambda>x. x \<noteq> EmitEnd) h @ [x]"
    by (intro dropWhile_append1) simp_all
  with True show ?thesis by (simp add: quiet_end_def)
next
  case False
  then have d: "dropWhile (\<lambda>x. x \<noteq> EmitEnd) (h @ [x]) = dropWhile (\<lambda>x. x \<noteq> EmitEnd) [x]" "dropWhile (\<lambda>x. x \<noteq> EmitEnd) h = []"
    using dropWhile_append2 [of h "\<lambda>x. x \<noteq> EmitEnd" "[x]"] False by (metis, auto)
  show ?thesis unfolding quiet_end_def d by (simp add: False)
qed

text \<open>So the queue is empty ever after.\<close>

lemma quiet_end_empty:
  assumes "deque_run om h [] = Some q" and "EmitEnd \<in> set h" and "quiet_end h" and "no_unshift h"
  shows "q = []"
  using assms
proof (induction h arbitrary: q rule: rev_induct)
  case (snoc x h)
  then obtain q' where q': "deque_run om h [] = Some q'" "deque_step om x q' = Some q" by (auto split: option.splits)
  show ?case
  proof (cases "EmitEnd \<in> set h")
    case True
    then have "q' = []" using snoc q' by auto
    then show ?thesis using q'(2) snoc.prems True by (cases x) (auto simp: no_unshift_def split: if_splits)
  next
    case False
    then show ?thesis using q'(2) snoc.prems(2) by (auto split: if_splits)
  qed
qed simp

definition src_ok :: "stream \<Rightarrow> bool" where
  "src_ok ob \<longleftrightarrow> has_r ob \<and> \<not> has_w ob \<and> \<not> r_objectMode (rstate ob) \<and> readable_ok 0 ob \<and>
     chunks_ok False (history ob) \<and> no_unshift (history ob) \<and> quiet_end (history ob) \<and>
     (EmitEnd \<in> set (history ob) \<longleftrightarrow> r_endEmitted (rstate ob))"

text \<open>An operation that pushes nothing and changes none of the flags the file code depends on.\<close>

definition same_push :: "stream \<Rightarrow> stream \<Rightarrow> bool" where
  "same_push a b \<longleftrightarrow> pushed (history a) = pushed (history b) \<and> r_ended (rstate a) = r_ended (rstate b) \<and>
     r_destroyed (rstate a) = r_destroyed (rstate b) \<and> r_endEmitted (rstate a) = r_endEmitted (rstate b)"

lemma complete_src: "src_ok ob \<Longrightarrow> src_ok (snd (complete_begin e ob)) \<and> same_push ob (snd (complete_begin e ob))"
  using readable.begin_complete [of 0 ob e]
  by (auto simp: src_ok_def same_push_def complete_begin_def set_errored_def Let_def no_unshift_def)

lemma flow_src: "src_ok ob \<Longrightarrow> src_ok (snd (flow_shift ob)) \<and> same_push ob (snd (flow_shift ob))"
  using readable_ok_flow [of 0 ob]
  by (auto simp: src_ok_def same_push_def flow_shift_def Let_def no_unshift_def split: list.splits)

lemma read_take_flags:
  "r_ended (rstate (snd (read_take n ob))) = r_ended (rstate ob) \<and> r_destroyed (rstate (snd (read_take n ob))) = r_destroyed (rstate ob) \<and>
   r_endEmitted (rstate (snd (read_take n ob))) = r_endEmitted (rstate ob) \<and>
   (EmitEnd \<in> set (history (snd (read_take n ob))) \<longleftrightarrow> EmitEnd \<in> set (history ob))"
  by (auto simp: read_take_def read_bytes_def Let_def split: list.splits option.splits prod.splits sum.splits)

lemma read_src:
  "src_ok ob \<Longrightarrow> positive_size n \<Longrightarrow> src_ok (snd (read_take n ob)) \<and> same_push ob (snd (read_take n ob))"
  using readable_ok_read [of 0 ob n]
  by (auto simp: src_ok_def same_push_def read_take_def read_bytes_def Let_def no_unshift_def
      split: list.splits option.splits prod.splits sum.splits)

lemma emitEnd_src:
  assumes "src_ok ob" and "r_ended (rstate ob)" and "r_buffer (rstate ob) = [] \<or> r_length (rstate ob) = Fin 0"
  shows "src_ok (snd (emitEnd_begin ob)) \<and> pushed (history (snd (emitEnd_begin ob))) = pushed (history ob) \<and>
    r_ended (rstate (snd (emitEnd_begin ob))) \<and> r_destroyed (rstate (snd (emitEnd_begin ob))) = r_destroyed (rstate ob) \<and>
    r_endEmitted (rstate (snd (emitEnd_begin ob))) = (r_endEmitted (rstate ob) \<or> \<not> r_destroyed (rstate ob))"
  using assms readable.begin_emitEnd [of 0 ob]
  by (auto simp: src_ok_def emitEnd_begin_def no_unshift_def drained_def)

lemma push_src:
  assumes "src_ok ob" and "\<not> r_endEmitted (rstate ob)"
  shows "src_ok (source_push bs ob) \<and> r_ended (rstate (source_push bs ob)) = r_ended (rstate ob) \<and>
    r_destroyed (rstate (source_push bs ob)) = r_destroyed (rstate ob) \<and>
    r_endEmitted (rstate (source_push bs ob)) = r_endEmitted (rstate ob) \<and>
    pushed_bytes (source_push bs ob) = pushed_bytes ob @ (if r_destroyed (rstate ob) then [] else bs)"
  using assms readable_ok_push [of 0 ob "VBuf bs"]
  by (auto simp: src_ok_def source_push_def push_chunk_def no_unshift_def Let_def chunk_ok_def is_bytes_def)

lemma push_null_src:
  assumes "src_ok ob"
  shows "src_ok (source_push_null ob) \<and> pushed (history (source_push_null ob)) = pushed (history ob) \<and>
    r_destroyed (rstate (source_push_null ob)) = r_destroyed (rstate ob) \<and>
    (r_ended (rstate ob) \<or> \<not> r_destroyed (rstate ob) \<longrightarrow> r_ended (rstate (source_push_null ob))) \<and>
    (r_endEmitted (rstate (source_push_null ob)) \<longrightarrow> r_endEmitted (rstate ob) \<or> \<not> r_destroyed (rstate ob))"
proof -
  define ob' where "ob' = ob\<lparr>rstate := push_end (rstate ob)\<rparr>"
  have ob': "src_ok ob'" "r_ended (rstate ob')" "history ob' = history ob" "r_destroyed (rstate ob') = r_destroyed (rstate ob)"
    "r_endEmitted (rstate ob') = r_endEmitted (rstate ob)" "r_length (rstate ob') = r_length (rstate ob)"
    using assms readable.end_push [of 0 ob] by (auto simp: src_ok_def ob'_def push_end_def)
  then show ?thesis
    using assms emitEnd_src [of ob'] by (auto simp: source_push_null_def Let_def ob'_def [symmetric])
qed

lemma destroy_src:
  assumes "src_ok ob"
  shows "src_ok (snd (destroy_begin e ob)) \<and> pushed (history (snd (destroy_begin e ob))) = pushed (history ob) \<and>
    r_destroyed (rstate (snd (destroy_begin e ob))) \<and>
    r_endEmitted (rstate (snd (destroy_begin e ob))) = r_endEmitted (rstate ob)"
  using assms readable.begin_destroy [of 0 ob e]
  by (auto simp: src_ok_def destroy_begin_def destroy_r_def already_destroyed_def)

section \<open>The invariant of a calm consumer\<close>

definition file_part :: "read_options \<Rightarrow> bytes \<Rightarrow> bytes" where
  "file_part opts data = (case ro_end opts of
       None \<Rightarrow> drop (ro_start opts) data
     | Some e \<Rightarrow> take (Suc e - ro_start opts) (drop (ro_start opts) data))"

text \<open>How far the stream is: \<open>part\<close> is to be pushed, \<open>got\<close> bytes of it were read, \<open>bs\<close> were pushed.\<close>

definition progress :: "bytes \<Rightarrow> nat \<Rightarrow> bytes \<Rightarrow> bool \<Rightarrow> bool \<Rightarrow> bool \<Rightarrow> bool \<Rightarrow> bool" where
  "progress part got bs destroyed ended endEmitted finished \<longleftrightarrow>
     (\<exists>n. bs = take n part) \<and> (\<not> destroyed \<longrightarrow> bs = take got part) \<and>
     (finished \<and> \<not> destroyed \<or> endEmitted \<longrightarrow> bs = part) \<and> (ended \<and> \<not> destroyed \<or> endEmitted \<longrightarrow> finished)"

abbreviation progress_ok :: "read_options \<Rightarrow> bytes \<Rightarrow> read_file \<Rightarrow> stream \<Rightarrow> bool" where
  "progress_ok opts data s ob \<equiv> progress (file_part opts data) (rf_position s - ro_start opts) (pushed_bytes ob)
     (r_destroyed (rstate ob)) (r_ended (rstate ob)) (r_endEmitted (rstate ob)) (rf_finished s)"

definition reads_ok :: "read_options \<Rightarrow> read_file \<Rightarrow> bool" where
  "reads_ok opts s \<longleftrightarrow> ro_start opts \<le> rf_position s \<and> length (rf_reads s) \<le> 1 \<and>
     (rf_phase s \<noteq> Opened \<or> rf_finished s \<longrightarrow> rf_reads s = []) \<and> (rf_phase s = Opening \<longrightarrow> rf_fd s = None) \<and>
     list_all (\<lambda>(k, pos, sz). pos = rf_position s \<and> \<not> past_end opts pos \<and> sz = remaining opts pos) (rf_reads s)"

definition rf_ok :: "read_options \<Rightarrow> bytes \<Rightarrow> read_file \<Rightarrow> bool" where
  "rf_ok opts data s \<longleftrightarrow> src_ok (rf_source s) \<and> progress_ok opts data s (rf_source s) \<and> reads_ok opts s"

text \<open>What a native read returns is the next piece of the part.\<close>

lemma native_read_next:
  assumes "native_read data pos (remaining opts pos) bs" and "\<not> past_end opts pos" and "ro_start opts \<le> pos"
    and "0 < ro_highWaterMark opts"
  shows "take (pos - ro_start opts) (file_part opts data) @ bs = take (pos + length bs - ro_start opts) (file_part opts data) \<and>
    (bs = [] \<longrightarrow> take (pos - ro_start opts) (file_part opts data) = file_part opts data)"
proof -
  let ?got = "pos - ro_start opts"
  have bs: "bs = take (length bs) (drop pos data)" "length bs \<le> remaining opts pos"
    using assms(1) by (auto simp: native_read_def)
  have "take (length bs) (drop ?got (file_part opts data)) = bs"
  proof (cases "ro_end opts")
    case None
    then show ?thesis using bs assms(3) by (simp add: file_part_def)
  next
    case (Some e)
    have "pos \<le> e" using assms(2) Some by (simp add: past_end_def)
    then have "length bs \<le> Suc e - ro_start opts - ?got" using bs(2) Some assms(3) by (auto simp: remaining_def)
    then show ?thesis using bs(1) Some assms(3) by (simp add: file_part_def drop_take min_absorb1)
  qed
  then have "take ?got (file_part opts data) @ bs = take (?got + length bs) (file_part opts data)"
    by (metis take_add)
  moreover have "take ?got (file_part opts data) = file_part opts data" if "bs = []"
  proof -
    have "remaining opts pos \<noteq> 0" using assms(4) by (auto simp: remaining_def split: option.split)
    then have "length data \<le> pos" using assms(1) that by (simp add: native_read_def)
    then show ?thesis using assms(3) by (auto simp: file_part_def split: option.split)
  qed
  ultimately show ?thesis using assms(3) by (simp add: algebra_simps)
qed

lemma past_end_all: "past_end opts pos \<Longrightarrow> take (pos - ro_start opts) (file_part opts data) = file_part opts data"
  by (auto simp: past_end_def file_part_def split: option.splits)

lemma reads_ok_simps [simp]:
  "reads_ok opts (s\<lparr>rf_source := ob\<rparr>) = reads_ok opts s" "reads_ok opts (s\<lparr>rf_closed := c\<rparr>) = reads_ok opts s"
  "reads_ok opts (s\<lparr>rf_closing := d\<rparr>) = reads_ok opts s"
  by (simp_all add: reads_ok_def)

lemma reads_ok_closed: "reads_ok opts s \<Longrightarrow> reads_ok opts (s\<lparr>rf_fd := None\<rparr>)"
  by (simp add: reads_ok_def)

lemma rf_same_push:
  "rf_ok opts data s \<Longrightarrow> src_ok ob \<Longrightarrow> same_push (rf_source s) ob \<Longrightarrow> rf_ok opts data (s\<lparr>rf_source := ob\<rparr>)"
  by (simp add: rf_ok_def same_push_def)

lemma progress_destroyed: "progress part got bs d en ee fin \<Longrightarrow> (fin \<longrightarrow> fin') \<Longrightarrow> progress part got' bs True en' ee fin'"
  by (auto simp: progress_def)

lemma rf_destroy_begin:
  "rf_ok opts data s \<Longrightarrow> rf_ok opts data (s\<lparr>rf_source := snd (destroy_begin e (rf_source s))\<rparr>)"
  using destroy_src [of "rf_source s" e] by (auto simp: rf_ok_def elim: progress_destroyed)

lemma rf_complete: "rf_ok opts data s \<Longrightarrow> rf_ok opts data (s\<lparr>rf_source := snd (complete_begin e (rf_source s))\<rparr>)"
  using complete_src [of "rf_source s" e] by (intro rf_same_push) (auto simp: rf_ok_def)

lemma rf_hook: "rf_ok opts data s \<Longrightarrow> rf_ok opts data (destroy_hook e s)"
  using rf_complete [of opts data s e]
  by (auto simp: destroy_hook_def rf_ok_def reads_ok_closed split: option.split)

lemma rf_destroy: "rf_ok opts data s \<Longrightarrow> rf_ok opts data (source_destroy e s)"
  using rf_destroy_begin [of opts data s e] by (auto simp: source_destroy_def split_beta intro: rf_hook)

lemma progress_end:
  assumes "progress part got bs d en ee fin" and "\<not> d \<longrightarrow> bs = part" and "ee' \<longrightarrow> ee \<or> \<not> d"
  shows "progress part got bs d en' ee' True"
  using assms by (auto simp: progress_def)

lemma rf_finish:
  assumes "rf_ok opts data s" and "rf_reads s = []"
    and "\<not> r_destroyed (rstate (rf_source s)) \<longrightarrow> pushed_bytes (rf_source s) = file_part opts data"
  shows "rf_ok opts data (read_finish opts s)"
proof -
  let ?ob = "source_push_null (rf_source s)"
  have "progress (file_part opts data) (rf_position s - ro_start opts) (pushed_bytes ?ob)
      (r_destroyed (rstate ?ob)) (r_ended (rstate ?ob)) (r_endEmitted (rstate ?ob)) True"
    using assms push_null_src [of "rf_source s"] by (auto simp: rf_ok_def intro: progress_end)
  then have "rf_ok opts data (s\<lparr>rf_finished := True, rf_source := ?ob\<rparr>)"
    using assms push_null_src [of "rf_source s"] by (simp add: rf_ok_def reads_ok_def)
  then show ?thesis
    using assms(1) by (auto simp: read_finish_def Let_def rf_ok_def reads_ok_closed split: option.split)
qed

lemma rf_readChunk:
  assumes "rf_ok opts data s" and "rf_reads s = []" and "rf_phase s = Opened \<or> rf_fd s = None"
  shows "rf_ok opts data (readChunk opts s)"
proof -
  have "rf_ok opts data (read_finish opts s)" if "past_end opts (rf_position s)"
    using assms(1,2) past_end_all [OF that] by (intro rf_finish) (auto simp: rf_ok_def progress_def)
  moreover have "rf_ok opts data (s\<lparr>rf_reads := [(k, rf_position s, remaining opts (rf_position s))]\<rparr>)"
    if "rf_fd s = Some k" "\<not> rf_finished s" "\<not> past_end opts (rf_position s)" for k
    using assms that by (auto simp: rf_ok_def reads_ok_def)
  ultimately show ?thesis using assms(1,2) by (auto simp: readChunk_def split: option.split)
qed

lemma progress_fail:
  "progress part got bs d en ee False \<Longrightarrow> progress part got bs True True ee True"
  by (auto simp: progress_def)

text \<open>A failure marks the stream as finished and destroys it at once.\<close>

lemma rf_fail:
  assumes "rf_ok opts data s" and "rf_reads s = []"
  shows "rf_ok opts data (read_fail e s)"
proof (cases "rf_finished s")
  case False
  define s1 where "s1 = s\<lparr>rf_finished := True, rf_source := snd (destroy_begin e (rf_source s))\<rparr>"
  have "rf_ok opts data s1"
    using assms False destroy_src [of "rf_source s" e]
    by (auto simp: s1_def rf_ok_def reads_ok_def elim: progress_destroyed)
  moreover have "read_fail e s = (if fst (destroy_begin e (rf_source s)) then s1 else destroy_hook (if truthy e then e else VNull) s1)"
    using False by (simp add: read_fail_def source_destroy_def s1_def split_beta destroy_begin_def)
  ultimately show ?thesis using rf_hook by simp
qed (simp add: read_fail_def assms)

lemma rf_on_read:
  assumes "rf_ok opts data s" and "(k, pos, sz) \<in> set (rf_reads s)" and "native_read data pos sz bs"
    and "0 < ro_highWaterMark opts"
  shows "rf_ok opts data (on_read opts bs (s\<lparr>rf_reads := remove1 (k, pos, sz) (rf_reads s)\<rparr>))"
proof -
  define s1 where "s1 = s\<lparr>rf_reads := [], rf_position := pos + length bs\<rparr>"
  have reads: "rf_reads s = [(k, pos, sz)]"
    using assms(1,2) by (cases "rf_reads s") (auto simp: rf_ok_def reads_ok_def)
  then have r: "pos = rf_position s" "ro_start opts \<le> pos" "\<not> past_end opts pos" "sz = remaining opts pos"
    "\<not> rf_finished s" "rf_phase s = Opened"
    using assms(1) by (auto simp: rf_ok_def reads_ok_def)
  have piece: "take (pos - ro_start opts) (file_part opts data) @ bs = take (pos + length bs - ro_start opts) (file_part opts data)"
    "bs = [] \<longrightarrow> take (pos - ro_start opts) (file_part opts data) = file_part opts data"
    using native_read_next [of data pos opts bs] assms(3,4) r by auto
  have on: "on_read opts bs (s\<lparr>rf_reads := remove1 (k, pos, sz) (rf_reads s)\<rparr>) =
      (if bs = [] then read_finish opts s1 else s1\<lparr>rf_source := source_push bs (rf_source s1)\<rparr>)"
    using reads r(1) by (simp add: on_read_def s1_def Let_def)
  have s1: "src_ok (rf_source s1)" "reads_ok opts s1" using assms(1) r by (auto simp: rf_ok_def reads_ok_def s1_def)
  show ?thesis
  proof (cases "bs = []")
    case True
    then have "rf_ok opts data s1" using assms(1) s1 r(1) by (simp add: rf_ok_def s1_def)
    moreover from this have "\<not> r_destroyed (rstate (rf_source s1)) \<longrightarrow> pushed_bytes (rf_source s1) = file_part opts data"
      using piece True r by (auto simp: rf_ok_def progress_def s1_def)
    ultimately show ?thesis using True on rf_finish [of opts data s1] by (simp add: s1_def)
  next
    case False
    let ?ob = "source_push bs (rf_source s)"
    have "\<not> r_endEmitted (rstate (rf_source s))" using assms(1) r(5) by (auto simp: rf_ok_def progress_def)
    note push = push_src [OF _ this, of bs]
    have "progress_ok opts data s1 ?ob"
      using push assms(1) piece(1) r by (auto simp: rf_ok_def progress_def s1_def)
    then show ?thesis using False on s1 push assms(1) by (simp add: rf_ok_def s1_def)
  qed
qed


lemma rf_step:
  assumes "rf_ok opts data s" and "rstep opts data True s s'" and "0 < ro_highWaterMark opts"
  shows "rf_ok opts data s'"
  using assms(2)
proof (cases rule: rstep.cases)
  case (open_ok k)
  then show ?thesis using assms(1) by (simp add: on_open_def rf_ok_def reads_ok_def)
next
  case (open_failed e)
  have "rf_ok opts data (s\<lparr>rf_phase := Opened\<rparr>)" "rf_reads (s\<lparr>rf_phase := Opened\<rparr>) = []"
    using assms(1) open_failed by (auto simp: rf_ok_def reads_ok_def)
  then show ?thesis using open_failed rf_fail by simp
next
  case first_read
  have "rf_ok opts data (s\<lparr>rf_phase := Opened\<rparr>)" "rf_reads (s\<lparr>rf_phase := Opened\<rparr>) = []"
    using assms(1) first_read by (auto simp: rf_ok_def reads_ok_def)
  then show ?thesis using first_read rf_readChunk by simp
next
  case hook
  let ?s = "s\<lparr>rf_source := (rf_source s)\<lparr>rstate := (rstate (rf_source s))\<lparr>r_reading := True\<rparr>\<rparr>\<rparr>"
  have "src_ok (rf_source ?s)" "same_push (rf_source s) (rf_source ?s)"
    using assms(1) readable.frame [of 0 "rf_source s" "rf_source ?s"]
    by (auto simp: rf_ok_def src_ok_def same_push_def same_core_def)
  then have "rf_ok opts data ?s" using rf_same_push [OF assms(1)] by simp
  moreover have "rf_phase s = Opened \<or> rf_fd s = None" using hook assms(1) by (cases "rf_phase s") (auto simp: rf_ok_def reads_ok_def)
  ultimately show ?thesis using hook unfolding read_hook_def by (auto intro!: rf_readChunk)
next
  case (read_ok k pos sz bs)
  then show ?thesis using rf_on_read [OF assms(1)] assms(3) by simp
next
  case (read_failed k pos sz e)
  then have "remove1 (k, pos, sz) (rf_reads s) = []"
    using assms(1) by (cases "rf_reads s") (auto simp: rf_ok_def reads_ok_def)
  moreover from this have "rf_ok opts data (s\<lparr>rf_reads := remove1 (k, pos, sz) (rf_reads s)\<rparr>)"
    using assms(1) by (auto simp: rf_ok_def reads_ok_def)
  ultimately show ?thesis using read_failed rf_fail by simp
next
  case flow
  then show ?thesis using assms(1) flow_src [of "rf_source s"] rf_same_push [OF assms(1)] by (simp add: rf_ok_def)
next
  case (read n)
  then show ?thesis using assms(1) read_src [of "rf_source s" n] rf_same_push [OF assms(1)] by (simp add: rf_ok_def)
next
  case emit_end
  then show ?thesis
    using assms(1) emitEnd_src [of "rf_source s"] by (auto simp: rf_ok_def progress_def)
next
  case (destroy e)
  then show ?thesis using rf_destroy [OF assms(1)] by simp
next
  case (close_done e)
  then show ?thesis using rf_complete [OF assms(1), of e] by (simp add: rf_ok_def)
qed

lemma rf_reachable:
  assumes "rreachable opts data True s" and "0 < ro_highWaterMark opts"
  shows "rf_ok opts data s"
  using assms(1)
proof (induction rule: rreachable.induct)
  case start
  show ?case
    by (simp add: createReadStream_def rf_ok_def src_ok_def readable_ok_new reads_ok_def progress_def)
      (simp add: new_Readable_def bare_stream_def initReadableState_def no_options_def no_unshift_def quiet_end_def)
qed (use rf_step assms(2) in blast)

section \<open>Properties\<close>

text \<open>C10: A file stream delivers the file. If the consumer does not start to read between the \<open>open\<close> event and the
  first chunk, then whatever sizes the native reads return and however the consumer reads, pauses or destroys the stream: the
  bytes it got are a prefix of the bytes of the file from \<open>start\<close> to \<open>end\<close> inclusive, and when \<open>end\<close> was
  emitted they are all of them. (The water mark is not zero.)\<close>

theorem read_stream_delivers_file:
  assumes "rreachable opts data True s" and "0 < ro_highWaterMark opts"
  shows "\<exists>rest. buffer_bytes (delivered (history (rf_source s))) @ rest =
      (case ro_end opts of None \<Rightarrow> drop (ro_start opts) data
       | Some e \<Rightarrow> take (Suc e - ro_start opts) (drop (ro_start opts) data)) \<and>
    (EmitEnd \<in> set (history (rf_source s)) \<longrightarrow> rest = [])"
proof -
  let ?ob = "rf_source s"
  have ok: "src_ok ?ob" and prog: "progress_ok opts data s ?ob" and reads: "reads_ok opts s"
    using rf_reachable [OF assms] by (auto simp: rf_ok_def)
  then have run: "deque_run False (history ?ob) [] = Some (flat False (r_buffer (rstate ?ob)))"
    by (auto simp: src_ok_def readable_ok_def Let_def)
  then have "flat False (pushed (history ?ob)) = flat False (delivered (history ?ob)) @ flat False (r_buffer (rstate ?ob))"
    using deque_without_unshift [of False "history ?ob" "[]"] ok by (simp add: src_ok_def)
  then have split: "pushed_bytes ?ob = buffer_bytes (delivered (history ?ob)) @ buffer_bytes (r_buffer (rstate ?ob))"
    unfolding flat_bytes map_append [symmetric] by (rule map_injective) (simp add: inj_def)
  obtain n where n: "pushed_bytes ?ob = take n (file_part opts data)" using prog by (auto simp: progress_def)
  have "buffer_bytes (r_buffer (rstate ?ob)) = [] \<and> pushed_bytes ?ob = file_part opts data" if "EmitEnd \<in> set (history ?ob)"
    using quiet_end_empty [OF run that] ok prog that by (auto simp: src_ok_def flat_bytes progress_def)
  with split n have "\<exists>rest. buffer_bytes (delivered (history ?ob)) @ rest = file_part opts data \<and>
      (EmitEnd \<in> set (history ?ob) \<longrightarrow> rest = [])"
    by (metis append.assoc append.right_neutral append_take_drop_id)
  then show ?thesis by (simp add: file_part_def)
qed

text \<open>Runs that can be evaluated: a step as an action, the reads under way by their index.\<close>

datatype raction = ROpen nat | RFirst | RHook | RRead nat bytes | RReadFail nat | RFlow | REnd | RDestroy

fun rexec :: "read_options \<Rightarrow> bytes \<Rightarrow> bool \<Rightarrow> raction \<Rightarrow> read_file \<Rightarrow> read_file option" where
  "rexec opts data calm (ROpen k) s = (if rf_phase s = Opening then Some (on_open k s) else None)"
| "rexec opts data calm RFirst s = (if rf_phase s = Emitting then Some (readChunk opts (s\<lparr>rf_phase := Opened\<rparr>)) else None)"
| "rexec opts data calm RHook s =
     (if may_read (rstate (rf_source s)) \<and> (calm \<longrightarrow> rf_reads s = [] \<and> rf_phase s \<noteq> Emitting) then Some (read_hook opts s) else None)"
| "rexec opts data calm (RRead i bs) s =
     (if i < length (rf_reads s) \<and> native_read data (fst (snd (rf_reads s ! i))) (snd (snd (rf_reads s ! i))) bs
      then Some (on_read opts bs (s\<lparr>rf_reads := remove1 (rf_reads s ! i) (rf_reads s)\<rparr>)) else None)"
| "rexec opts data calm (RReadFail i) s =
     (if i < length (rf_reads s) then Some (read_fail (VErr Error ''EIO'') (s\<lparr>rf_reads := remove1 (rf_reads s ! i) (rf_reads s)\<rparr>)) else None)"
| "rexec opts data calm RFlow s = Some (s\<lparr>rf_source := snd (flow_shift (rf_source s))\<rparr>)"
| "rexec opts data calm REnd s =
     (if r_ended (rstate (rf_source s)) \<and> r_buffer (rstate (rf_source s)) = []
      then Some (s\<lparr>rf_source := snd (emitEnd_begin (rf_source s))\<rparr>) else None)"
| "rexec opts data calm RDestroy s = Some (source_destroy VUndef s)"

fun rrun :: "read_options \<Rightarrow> bytes \<Rightarrow> bool \<Rightarrow> raction list \<Rightarrow> read_file \<Rightarrow> read_file option" where
  "rrun opts data calm [] s = Some s"
| "rrun opts data calm (a # as) s = (case rexec opts data calm a s of None \<Rightarrow> None | Some s' \<Rightarrow> rrun opts data calm as s')"

lemma rexec_step: "rexec opts data calm a s = Some s' \<Longrightarrow> rstep opts data calm s s'"
proof (cases a)
  case (RRead i bs)
  assume "rexec opts data calm a s = Some s'"
  with RRead show ?thesis
    using rstep.read_ok [of "fst (rf_reads s ! i)" "fst (snd (rf_reads s ! i))" "snd (snd (rf_reads s ! i))" s data bs opts calm]
    by (auto split: if_splits)
next
  case (RReadFail i)
  assume "rexec opts data calm a s = Some s'"
  with RReadFail show ?thesis
    using rstep.read_failed [of "fst (rf_reads s ! i)" "fst (snd (rf_reads s ! i))" "snd (snd (rf_reads s ! i))" s "VErr Error ''EIO''" opts data calm]
    by (auto split: if_splits)
qed (auto split: if_splits intro: rstep.intros)

lemma rrun_reachable: "rrun opts data calm as s = Some s' \<Longrightarrow> rreachable opts data calm s \<Longrightarrow> rreachable opts data calm s'"
  by (induction as arbitrary: s) (auto split: option.splits dest: rexec_step intro: rreachable.next_step)

lemmas rrun_start = rrun_reachable [OF _ rreachable.start]

lemmas read_eval = createReadStream_def new_Readable_def bare_stream_def initReadableState_def no_options_def
  pick_hwm_def pick_hook_def on_open_def readChunk_def read_hook_def may_read_def past_end_def remaining_def on_read_def native_read_def
  source_push_def push_chunk_def chunkLength_def source_push_null_def push_end_def emitEnd_begin_def flow_shift_def
  read_finish_def read_fail_def source_destroy_def destroy_begin_def destroy_r_def already_destroyed_def destroy_hook_def
  complete_begin_def set_errored_def Let_def

definition by_two :: read_options where
  "by_two = \<lparr>ro_highWaterMark = 2, ro_autoClose = True, ro_start = 0, ro_end = None\<rparr>"

definition all_read :: read_file where
  "all_read = the (rrun by_two [1, 2, 3] True [RHook, ROpen 5, RFirst, RRead 0 [1, 2], RFlow, RHook, RRead 0 [3], RFlow,
     RHook, RRead 0 [], REnd] (createReadStream by_two))"

lemma all_read_run:
  "rrun by_two [1, 2, 3] True [RHook, ROpen 5, RFirst, RRead 0 [1, 2], RFlow, RHook, RRead 0 [3], RFlow,
     RHook, RRead 0 [], REnd] (createReadStream by_two) = Some all_read"
  "history (rf_source all_read) = [Pushed (VBuf [1, 2]), Delivered (VBuf [1, 2]), Pushed (VBuf [3]), Delivered (VBuf [3]), EmitEnd]"
  by (simp_all add: all_read_def by_two_def read_eval)

theorem read_stream_delivers_file_witness:
  "buffer_bytes (delivered (history (rf_source all_read))) = [1, 2, 3] \<and> EmitEnd \<in> set (history (rf_source all_read))"
  using read_stream_delivers_file [OF rrun_start [OF all_read_run(1)]] all_read_run(2) by (simp add: by_two_def)

text \<open>C36: A consumer that starts at the wrong moment corrupts the data. If it begins to read after the callback of \<open>fs.open\<close> issued the
  first native read and before that read completed (for instance by adding a \<open>data\<close> listener in the \<open>open\<close> event), the code
  issues a second native read at the same position: for a file with the bytes 1, 2, 3, 4 read two at a time
  the consumer gets 1, 2, 1, 2 and then \<open>end\<close>. The first read does not mark the stream as
  reading, and the position moves only when a read completes.\<close>

theorem read_stream_can_duplicate:
  "\<exists>s. rreachable by_two [1, 2, 3, 4] False s \<and> EmitEnd \<in> set (history (rf_source s)) \<and>
     buffer_bytes (delivered (history (rf_source s))) = [1, 2, 1, 2]"
proof (intro exI conjI)
  define s where "s = the (rrun by_two [1, 2, 3, 4] False [ROpen 5, RFirst, RHook, RRead 0 [1, 2], RRead 0 [1, 2], RFlow, RFlow,
     RHook, RRead 0 [], REnd] (createReadStream by_two))"
  have "rrun by_two [1, 2, 3, 4] False [ROpen 5, RFirst, RHook, RRead 0 [1, 2], RRead 0 [1, 2], RFlow, RFlow,
     RHook, RRead 0 [], REnd] (createReadStream by_two) = Some s"
    by (simp add: s_def by_two_def read_eval)
  then show "rreachable by_two [1, 2, 3, 4] False s" by (rule rrun_start)
  show "EmitEnd \<in> set (history (rf_source s))" "buffer_bytes (delivered (history (rf_source s))) = [1, 2, 1, 2]"
    by (simp_all add: s_def by_two_def read_eval)
qed

section \<open>The descriptor\<close>

definition fd_ok :: "read_options \<Rightarrow> read_file \<Rightarrow> bool" where
  "fd_ok opts s \<longleftrightarrow> (let ob = rf_source s in
     has_r ob \<and> \<not> has_w ob \<and> length (rf_closed s) \<le> 1 \<and> (rf_fd s \<noteq> None \<longrightarrow> rf_closed s = []) \<and>
     (rf_phase s = Opening \<longrightarrow> rf_fd s = None \<and> rf_closed s = [] \<and> rf_reads s = [] \<and> \<not> rf_finished s \<and> \<not> r_endEmitted (rstate ob)) \<and>
     (r_ended (rstate ob) \<and> \<not> r_destroyed (rstate ob) \<longrightarrow> rf_finished s) \<and>
     (ro_autoClose opts \<and> (rf_finished s \<and> \<not> r_destroyed (rstate ob) \<or> r_endEmitted (rstate ob)) \<longrightarrow> rf_fd s = None) \<and>
     (EmitEnd \<in> set (history ob) \<longrightarrow> r_endEmitted (rstate ob)))"

lemmas fd_defs = fd_ok_def Let_def

lemma fd_hook: "fd_ok opts s \<Longrightarrow> fd_ok opts (destroy_hook e s)"
  by (auto simp: destroy_hook_def fd_defs complete_begin_def set_errored_def split: option.split)

lemma fd_destroy: "fd_ok opts s \<Longrightarrow> fd_ok opts (source_destroy e s)"
  by (auto simp: source_destroy_def split_beta intro!: fd_hook)
    (auto simp: fd_defs destroy_begin_def destroy_r_def already_destroyed_def)

lemma fd_fail: "fd_ok opts s \<Longrightarrow> rf_phase s \<noteq> Opening \<Longrightarrow> fd_ok opts (read_fail e s)"
  by (cases "r_destroyed (rstate (rf_source s))")
    (auto simp: read_fail_def source_destroy_def split_beta destroy_begin_def already_destroyed_def fd_defs destroy_r_def
      destroy_hook_def complete_begin_def set_errored_def split: option.split)

lemma fd_finish: "fd_ok opts s \<Longrightarrow> rf_phase s \<noteq> Opening \<Longrightarrow> fd_ok opts (read_finish opts s)"
  by (auto simp: read_finish_def fd_defs source_push_null_def push_end_def emitEnd_begin_def split: option.split)

lemma fd_readChunk: "fd_ok opts s \<Longrightarrow> fd_ok opts (readChunk opts s)"
proof (cases "rf_fd s")
  case (Some k)
  assume s: "fd_ok opts s"
  with Some have "rf_phase s \<noteq> Opening" by (auto simp: fd_defs)
  then have "fd_ok opts (read_finish opts s)" "fd_ok opts (s\<lparr>rf_reads := rs\<rparr>)" for rs
    using s fd_finish by (simp_all add: fd_defs)
  then show ?thesis using Some s by (simp add: readChunk_def)
qed (simp add: readChunk_def)

lemma fd_step:
  assumes "rstep opts data calm s s'" and "fd_ok opts s"
  shows "fd_ok opts s'"
  using assms(1)
proof (cases rule: rstep.cases)
  case (open_ok k)
  then show ?thesis using assms(2) by (auto simp: fd_defs on_open_def)
next
  case (open_failed e)
  have "fd_ok opts (s\<lparr>rf_phase := Opened\<rparr>)" using assms(2) by (auto simp: fd_defs)
  then show ?thesis using open_failed fd_fail by simp
next
  case first_read
  have "fd_ok opts (s\<lparr>rf_phase := Opened\<rparr>)" using assms(2) by (auto simp: fd_defs)
  then show ?thesis using first_read fd_readChunk by simp
next
  case hook
  have "fd_ok opts (s\<lparr>rf_source := (rf_source s)\<lparr>rstate := (rstate (rf_source s))\<lparr>r_reading := True\<rparr>\<rparr>\<rparr>)"
    using assms(2) by (auto simp: fd_defs)
  then show ?thesis using hook fd_readChunk by (simp add: read_hook_def)
next
  case (read_ok k pos sz bs)
  let ?s = "s\<lparr>rf_reads := remove1 (k, pos, sz) (rf_reads s), rf_position := rf_position s + length bs\<rparr>"
  have s: "fd_ok opts ?s" "rf_phase s \<noteq> Opening" using assms(2) read_ok(2) by (auto simp: fd_defs)
  then have "fd_ok opts (?s\<lparr>rf_source := source_push bs (rf_source s)\<rparr>)"
    by (auto simp: fd_defs source_push_def push_chunk_def)
  then show ?thesis using read_ok s fd_finish [OF s(1)] by (auto simp: on_read_def Let_def)
next
  case (read_failed k pos sz e)
  let ?s = "s\<lparr>rf_reads := remove1 (k, pos, sz) (rf_reads s)\<rparr>"
  have "fd_ok opts ?s" "rf_phase ?s \<noteq> Opening" using assms(2) read_failed(2) by (auto simp: fd_defs)
  then show ?thesis using read_failed fd_fail by simp
next
  case flow
  then show ?thesis using assms(2) by (auto simp: fd_defs flow_shift_def split: list.split)
next
  case (read n)
  then show ?thesis using assms(2) read_take_flags [of n "rf_source s"] by (simp add: fd_defs)
next
  case emit_end
  then show ?thesis using assms(2) by (auto simp: fd_defs emitEnd_begin_def)
next
  case (destroy e)
  then show ?thesis using fd_destroy [OF assms(2)] by simp
next
  case (close_done e)
  then show ?thesis using assms(2) by (auto simp: fd_defs complete_begin_def set_errored_def)
qed

text \<open>A file stream closes its file at most once, and, with \<open>autoClose\<close>, it has closed it when it emits \<open>end\<close>: for any consumer
  and any answers of the native side.\<close>

theorem read_stream_closes_file:
  assumes "rreachable opts data calm s"
  shows "length (rf_closed s) \<le> 1 \<and> (rf_fd s \<noteq> None \<longrightarrow> rf_closed s = []) \<and>
    (EmitEnd \<in> set (history (rf_source s)) \<and> ro_autoClose opts \<longrightarrow> rf_fd s = None)"
proof -
  have "fd_ok opts s" using assms
  proof (induction rule: rreachable.induct)
    case start
    show ?case by (simp add: fd_defs createReadStream_def new_Readable_def bare_stream_def initReadableState_def)
  qed (rule fd_step)
  then show ?thesis by (auto simp: fd_defs)
qed

theorem read_stream_closes_file_witness: "EmitEnd \<in> set (history (rf_source all_read)) \<and> rf_fd all_read = None"
  using read_stream_closes_file [OF rrun_start [OF all_read_run(1)]] all_read_run(2) by (simp add: by_two_def)

text \<open>A stream that is destroyed and waits for nothing does nothing more.\<close>

definition stopped :: "nat \<Rightarrow> read_file \<Rightarrow> bool" where
  "stopped k s \<longleftrightarrow> rf_phase s = Opened \<and> rf_reads s = [] \<and> rf_fd s = Some k \<and> rf_closed s = [] \<and>
     has_r (rf_source s) \<and> r_destroyed (rstate (rf_source s))"

lemma stopped_step: "rstep opts data calm s s' \<Longrightarrow> stopped k s \<Longrightarrow> stopped k s'"
  by (induction rule: rstep.induct)
    (auto simp: stopped_def may_read_def flow_shift_def read_take_flags emitEnd_begin_def source_destroy_def
      destroy_begin_def already_destroyed_def complete_begin_def set_errored_def Let_def split: list.splits)

lemma stopped_for_ever: "(rstep opts data calm)\<^sup>*\<^sup>* s s' \<Longrightarrow> stopped k s \<Longrightarrow> stopped k s'"
  by (induction rule: rtranclp_induct) (auto intro: stopped_step)

text \<open>The descriptor leaks, although \<open>autoClose\<close> is set: after a native read failed (\<open>fail\<close> marks the stream as finished before
  it destroys it, and the hook closes only an unfinished stream), and when the stream is destroyed before the file is open (the hook has nothing to close
  yet, and nothing closes the file once it is open). In both cases the file is open, and no later step
  closes it.\<close>

theorem read_stream_leaks_descriptor:
  "(\<exists>s. rreachable by_two [1, 2, 3] True s \<and> rrun by_two [1, 2, 3] True [ROpen 5, RFirst, RReadFail 0] (createReadStream by_two) = Some s \<and>
      {s'. (rstep by_two [1, 2, 3] True)\<^sup>*\<^sup>* s s'} \<subseteq> {s'. rf_fd s' = Some 5 \<and> rf_closed s' = []}) \<and>
   (\<exists>s. rreachable by_two [1, 2, 3] True s \<and> rrun by_two [1, 2, 3] True [RDestroy, ROpen 5, RFirst, RRead 0 [1, 2]] (createReadStream by_two) = Some s \<and>
      {s'. (rstep by_two [1, 2, 3] True)\<^sup>*\<^sup>* s s'} \<subseteq> {s'. rf_fd s' = Some 5 \<and> rf_closed s' = []})"
proof -
  have ex: "\<exists>s. rreachable by_two [1, 2, 3] True s \<and> rrun by_two [1, 2, 3] True as (createReadStream by_two) = Some s \<and>
      {s'. (rstep by_two [1, 2, 3] True)\<^sup>*\<^sup>* s s'} \<subseteq> {s'. rf_fd s' = Some 5 \<and> rf_closed s' = []}"
    if "rrun by_two [1, 2, 3] True as (createReadStream by_two) = Some s" "stopped 5 s" for as s
    using that rrun_start [OF that(1)] stopped_for_ever [OF _ that(2)] by (auto simp: stopped_def)
  let ?a = "the (rrun by_two [1, 2, 3] True [ROpen 5, RFirst, RReadFail 0] (createReadStream by_two))"
  let ?b = "the (rrun by_two [1, 2, 3] True [RDestroy, ROpen 5, RFirst, RRead 0 [1, 2]] (createReadStream by_two))"
  have "rrun by_two [1, 2, 3] True [ROpen 5, RFirst, RReadFail 0] (createReadStream by_two) = Some ?a" "stopped 5 ?a"
    by (simp_all add: by_two_def read_eval stopped_def)
  moreover have "rrun by_two [1, 2, 3] True [RDestroy, ROpen 5, RFirst, RRead 0 [1, 2]] (createReadStream by_two) = Some ?b" "stopped 5 ?b"
    by (simp_all add: by_two_def read_eval stopped_def)
  ultimately show ?thesis using ex by blast
qed

end
