(* ===== verification/Fs_Write.thy ===== *)
theory Fs_Write
  imports Stream_Properties
begin

text \<open>
  \<open>createWriteStream\<close> (\<open>src/pkg/jsruntime/fs/streams.js\<close>): a writable stream into a file, and what it promises.

  The shared variables are a record with the writable stream as one field, an object of the stream model. A
  write that waits for the file to open, or is under way in the native \<open>fs\<close>, is the chunk with the number of
  the completion callback of the stream (\<open>onwrite\<close> of \<open>_doWrite\<close>). A native write appends the
  chunk at the position of the descriptor, or fails after a part of it. Native callbacks run in any
  order with the calls of the program (the relation \<open>wstep\<close>), and also between the two halves of the
  callback of \<open>fs.open\<close>, where the listeners of \<open>open\<close> run. The other listeners of the
  stream and the callbacks of the writes do not call back into it before the code that calls them is done.
\<close>

section \<open>The state\<close>

datatype wphase = WOpening | WEmitting | WOpened

datatype close_cb = FinalClose nat | DestroyClose val

record write_file =
  wf_dest :: stream
  wf_fd :: "nat option"
  wf_pending :: "(val \<times> nat) list"
  wf_openEmitted :: bool
  wf_phase :: wphase
  wf_queued :: "(val \<times> nat) list" \<comment> \<open>\<open>queued\<close> and \<open>index\<close> of the loop that drains \<open>pending\<close>\<close>
  wf_index :: nat
  wf_native :: "(nat option \<times> val \<times> nat \<times> bool) list" \<comment> \<open>descriptor, chunk, callback, and whether the loop issued it\<close>
  wf_closing :: "close_cb list"
  wf_closed :: "nat list"
  wf_data :: bytes \<comment> \<open>what the file got\<close>

definition createWriteStream :: "jsnum option \<Rightarrow> write_file" where
  "createWriteStream hwm = \<lparr>wf_dest = new_Writable (no_options\<lparr>o_highWaterMark := hwm, o_write := Some (User 0),
       o_final := Some (User 1), o_destroy := Some (User 2)\<rparr>),
     wf_fd = None, wf_pending = [], wf_openEmitted = False, wf_phase = WOpening, wf_queued = [], wf_index = 0,
     wf_native = [], wf_closing = [], wf_closed = [], wf_data = []\<rparr>"

section \<open>The options of the stream\<close>

definition writeChunk :: "val \<Rightarrow> nat \<Rightarrow> bool \<Rightarrow> write_file \<Rightarrow> write_file" where
  "writeChunk chunk k loop s = s\<lparr>wf_native := wf_native s @ [(wf_fd s, chunk, k, loop)]\<rparr>"

definition write_hook :: "val \<Rightarrow> nat \<Rightarrow> write_file \<Rightarrow> write_file" where
  "write_hook chunk k s =
     (if wf_fd s = None then s\<lparr>wf_pending := wf_pending s @ [(chunk, k)]\<rparr> else writeChunk chunk k False s)"

text \<open>\<open>dest.destroy(err)\<close> with the option \<open>destroy\<close>.\<close>

definition wdestroy_hook :: "val \<Rightarrow> write_file \<Rightarrow> write_file" where
  "wdestroy_hook err s = (case wf_fd s of
       Some f \<Rightarrow> s\<lparr>wf_fd := None, wf_closed := wf_closed s @ [f], wf_closing := wf_closing s @ [DestroyClose err]\<rparr>
     | None \<Rightarrow> s\<lparr>wf_dest := snd (complete_begin err (wf_dest s))\<rparr>)"

definition dest_destroy :: "val \<Rightarrow> write_file \<Rightarrow> write_file" where
  "dest_destroy err s = (case destroy_begin err (wf_dest s) of
       (already, ob) \<Rightarrow> if already then s else wdestroy_hook (if truthy err then err else VNull) (s\<lparr>wf_dest := destroy_clear ob\<rparr>))"

text \<open>The callback of \<open>_final\<close>, and the option \<open>final\<close>.\<close>

definition final_done :: "nat \<Rightarrow> write_file \<Rightarrow> write_file" where
  "final_done k s = (case final_called k (wf_dest s) of
       (go, ob) \<Rightarrow> if go then s\<lparr>wf_dest := snd (finish_begin ob)\<rparr> else s\<lparr>wf_dest := ob\<rparr>)"

definition final_hook :: "bool \<Rightarrow> nat \<Rightarrow> write_file \<Rightarrow> write_file" where
  "final_hook autoClose k s = (case wf_fd s of
       Some f \<Rightarrow> if autoClose then s\<lparr>wf_fd := None, wf_closed := wf_closed s @ [f], wf_closing := wf_closing s @ [FinalClose k]\<rparr>
                 else final_done k s
     | None \<Rightarrow> final_done k s)"

definition dest_maybeFinish :: "bool \<Rightarrow> write_file \<Rightarrow> write_file" where
  "dest_maybeFinish autoClose s =
     (if may_finish (wstate (wf_dest s))
      then case final_begin (wf_dest s) of (k, ob) \<Rightarrow> final_hook autoClose k (s\<lparr>wf_dest := ob\<rparr>) else s)"

definition dest_doWrite :: "write_file \<Rightarrow> write_file" where
  "dest_doWrite s = (case doWrite_begin (wf_dest s) of
       (None, ob) \<Rightarrow> s
     | (Some (k, chunk, _), ob) \<Rightarrow> write_hook chunk k (s\<lparr>wf_dest := ob\<rparr>))"

text \<open>The completion callback number \<open>k\<close> of the stream, with an error or without.\<close>

definition on_write :: "bool \<Rightarrow> nat \<Rightarrow> val \<Rightarrow> write_file \<Rightarrow> write_file" where
  "on_write autoClose k err s = (case onwrite_begin k (wf_dest s) of
       (None, ob) \<Rightarrow> s
     | (Some i, ob) \<Rightarrow>
         let s' = s\<lparr>wf_dest := ob\<rparr> in
         if truthy err then dest_destroy err s'
         else if w_destroyed (wstate ob) then s'
         else if w_pending (wstate ob) \<noteq> [] then dest_doWrite s'
         else dest_maybeFinish autoClose (s'\<lparr>wf_dest := snd (drain_begin ob)\<rparr>))"

section \<open>The callbacks of the native side\<close>

definition drain :: "write_file \<Rightarrow> write_file" where
  "drain s = (if wf_index s < length (wf_queued s)
     then case wf_queued s ! wf_index s of (chunk, k) \<Rightarrow> writeChunk chunk k True (s\<lparr>wf_index := Suc (wf_index s)\<rparr>)
     else s)"

definition fail_items :: "bool \<Rightarrow> (val \<times> nat) list \<Rightarrow> val \<Rightarrow> write_file \<Rightarrow> write_file" where
  "fail_items autoClose items err s = fold (\<lambda>i. on_write autoClose (snd i) err) items s"

definition failPending :: "bool \<Rightarrow> val \<Rightarrow> write_file \<Rightarrow> write_file" where
  "failPending autoClose err s = fail_items autoClose (wf_pending s) err (s\<lparr>wf_pending := []\<rparr>)"

text \<open>The callback of \<open>fs.open\<close> up to the event \<open>open\<close>, and after it.\<close>

definition on_wopen :: "nat \<Rightarrow> write_file \<Rightarrow> write_file" where
  "on_wopen f s = s\<lparr>wf_phase := WEmitting, wf_fd := Some f, wf_openEmitted := True\<rparr>"

definition after_wopen :: "write_file \<Rightarrow> write_file" where
  "after_wopen s = (let s' = s\<lparr>wf_phase := WOpened\<rparr> in
     if wf_pending s' = [] then s'
     else drain (s'\<lparr>wf_queued := wf_pending s', wf_pending := [], wf_index := 0\<rparr>))"

definition on_wopen_failed :: "bool \<Rightarrow> val \<Rightarrow> write_file \<Rightarrow> write_file" where
  "on_wopen_failed autoClose err s = dest_destroy err (failPending autoClose err (s\<lparr>wf_phase := WOpened\<rparr>))"

text \<open>The callback of \<open>fs.write\<close>: the one of the loop passes a failure on to the writes still queued.\<close>

definition on_native :: "bool \<Rightarrow> nat \<Rightarrow> bool \<Rightarrow> val \<Rightarrow> write_file \<Rightarrow> write_file" where
  "on_native autoClose k loop err s =
     (if \<not> loop then on_write autoClose k err s
      else if truthy err then
        dest_destroy err (on_write autoClose k err
          (fail_items autoClose (drop (wf_index s) (wf_queued s)) err (s\<lparr>wf_index := max (wf_index s) (length (wf_queued s))\<rparr>)))
      else drain (on_write autoClose k VUndef s))"

definition on_closed :: "close_cb \<Rightarrow> write_file \<Rightarrow> write_file" where
  "on_closed c s = (case c of FinalClose k \<Rightarrow> final_done k s | DestroyClose e \<Rightarrow> s\<lparr>wf_dest := snd (complete_begin e (wf_dest s))\<rparr>)"

text \<open>The calls of the program that matter here: \<open>write\<close> of a byte chunk, \<open>cork\<close>, \<open>uncork\<close>, \<open>end\<close> and \<open>destroy\<close>.\<close>

definition dest_write :: "item \<Rightarrow> write_file \<Rightarrow> write_file" where
  "dest_write i s = (case accept_item i (wf_dest s) of
       (corked, ob) \<Rightarrow> let s' = s\<lparr>wf_dest := ob\<rparr> in
         if corked then s' else let s2 = dest_doWrite s' in s2\<lparr>wf_dest := snd (write_result (wf_dest s2))\<rparr>)"

definition dest_uncork :: "write_file \<Rightarrow> write_file" where
  "dest_uncork s = (case uncork_begin (wf_dest s) of
       (go, ob) \<Rightarrow> if go then dest_doWrite (s\<lparr>wf_dest := ob\<rparr>) else s\<lparr>wf_dest := ob\<rparr>)"

definition dest_end :: "bool \<Rightarrow> write_file \<Rightarrow> write_file" where
  "dest_end autoClose s = dest_maybeFinish autoClose (s\<lparr>wf_dest := set_ended (wf_dest s)\<rparr>)"

inductive wstep :: "bool \<Rightarrow> write_file \<Rightarrow> write_file \<Rightarrow> bool" for autoClose where
  open_ok: "wf_phase s = WOpening \<Longrightarrow> wstep autoClose s (on_wopen f s)"
| open_emitted: "wf_phase s = WEmitting \<Longrightarrow> wstep autoClose s (after_wopen s)"
| open_failed: "wf_phase s = WOpening \<Longrightarrow> truthy e \<Longrightarrow> wstep autoClose s (on_wopen_failed autoClose e s)"
| native_ok: "(Some f, chunk, k, loop) \<in> set (wf_native s) \<Longrightarrow>
    wstep autoClose s (on_native autoClose k loop VUndef
      (s\<lparr>wf_native := remove1 (Some f, chunk, k, loop) (wf_native s), wf_data := wf_data s @ bytes_of chunk\<rparr>))"
| native_failed: "(fo, chunk, k, loop) \<in> set (wf_native s) \<Longrightarrow> truthy e \<Longrightarrow>
    wstep autoClose s (on_native autoClose k loop e
      (s\<lparr>wf_native := remove1 (fo, chunk, k, loop) (wf_native s), wf_data := wf_data s @ take n (bytes_of chunk)\<rparr>))"
| closed: "c \<in> set (wf_closing s) \<Longrightarrow> wstep autoClose s (on_closed c (s\<lparr>wf_closing := remove1 c (wf_closing s)\<rparr>))"
| write_call: "\<not> w_destroyed (wstate (wf_dest s)) \<Longrightarrow> \<not> w_ended (wstate (wf_dest s)) \<Longrightarrow> is_bytes (fst i) \<Longrightarrow>
    wstep autoClose s (dest_write i s)"
| cork_call: "wstep autoClose s (s\<lparr>wf_dest := (wf_dest s)\<lparr>wstate := (wstate (wf_dest s))\<lparr>w_corked := w_corked (wstate (wf_dest s)) + 1\<rparr>\<rparr>\<rparr>)"
| uncork_call: "wstep autoClose s (dest_uncork s)"
| end_call: "\<not> w_destroyed (wstate (wf_dest s)) \<Longrightarrow> \<not> w_ended (wstate (wf_dest s)) \<Longrightarrow> wstep autoClose s (dest_end autoClose s)"
| destroy: "wstep autoClose s (dest_destroy e s)"

inductive wreachable :: "bool \<Rightarrow> jsnum option \<Rightarrow> write_file \<Rightarrow> bool" for autoClose hwm where
  start: "wreachable autoClose hwm (createWriteStream hwm)"
| next_step: "wreachable autoClose hwm s \<Longrightarrow> wstep autoClose s s' \<Longrightarrow> wreachable autoClose hwm s'"

end
