(* ===== verification/Fs_Write_Spec.thy ===== *)
theory Fs_Write_Spec
  imports Fs_Write "HOL-Library.Sublist"
begin

text \<open>
  What a stream into a file promises. The writable stream is a serial writer (\<open>writable_ok\<close>), so at most one chunk
  is in the hands of the file code; it waits for the file to open or is under way in the native \<open>fs\<close>. From
  this follow the contents of the file and when it is closed.
\<close>

section \<open>The invariant\<close>

definition in_flight :: "write_file \<Rightarrow> (val \<times> nat) list" where
  "in_flight s = wf_pending s @ drop (wf_index s) (wf_queued s) @ map (\<lambda>(_, c, k, _). (c, k)) (wf_native s)"

definition frame_items :: "stream \<Rightarrow> (val \<times> nat) list" where
  "frame_items ob = (case wframe ob of None \<Rightarrow> [] | Some (k, i) \<Rightarrow> [(fst i, k)])"

text \<open>The variables of the file code.\<close>

definition shell_ok :: "write_file \<Rightarrow> bool" where
  "shell_ok s \<longleftrightarrow>
     (wf_phase s = WOpening \<longrightarrow> wf_fd s = None \<and> wf_native s = [] \<and> wf_closed s = []) \<and>
     (wf_phase s \<noteq> WOpened \<longrightarrow> wf_queued s = []) \<and> (wf_phase s = WOpened \<longrightarrow> wf_pending s = []) \<and>
     length (wf_closed s) \<le> 1 \<and> (wf_fd s \<noteq> None \<longrightarrow> wf_closed s = []) \<and>
     (\<forall>k. FinalClose k \<in> set (wf_closing s) \<longrightarrow> wf_closed s \<noteq> [])"

text \<open>The state, with the writes \<open>xs\<close> already taken from the native side and not yet reported to the stream.\<close>

definition wfile_ok :: "bool \<Rightarrow> (val \<times> nat) list \<Rightarrow> write_file \<Rightarrow> bool" where
  "wfile_ok ac xs s \<longleftrightarrow> (let ob = wf_dest s in
     writable_ok 0 ob \<and> has_w ob \<and> \<not> has_r ob \<and> shell_ok s \<and> xs @ in_flight s = frame_items ob \<and>
     (wf_phase s = WOpening \<longrightarrow> written (history ob) = []) \<and>
     (ac \<and> w_finished (wstate ob) \<and> accepted (history ob) \<noteq> [] \<longrightarrow> wf_closed s \<noteq> []))"

text \<open>With the file closed, the stream does not write any more.\<close>

definition parked_ok :: "write_file \<Rightarrow> bool" where
  "parked_ok s \<longleftrightarrow> (wf_phase s \<noteq> WOpening \<and> wf_fd s = None \<longrightarrow>
     w_destroyed (wstate (wf_dest s)) \<or> Writable_Spec.idle (wstate (wf_dest s)) \<and> wf_closed s \<noteq> [])"

definition data_ok :: "write_file \<Rightarrow> bool" where
  "data_ok s \<longleftrightarrow> (let ob = wf_dest s in
     wf_data s = buffer_bytes (written (history ob)) \<or>
     w_destroyed (wstate ob) \<and> \<not> w_finished (wstate ob) \<and> frame_items ob = [] \<and>
       prefix (wf_data s) (buffer_bytes (accepted (history ob))))"

lemmas wfile_defs = wfile_ok_def shell_ok_def Let_def in_flight_def frame_items_def

lemma accepted_append [simp]: "accepted (xs @ ys) = accepted xs @ accepted ys" "written (xs @ ys) = written xs @ written ys"
  by (induction xs) auto

lemma writable_writer:
  assumes "writable_ok t ob"
  shows "\<exists>rest. accepted (history ob) = written (history ob) @ map fst (frame_items ob) @ rest \<and>
    (w_finished (wstate ob) \<longrightarrow> frame_items ob = [] \<and> rest = [] \<and> w_ended (wstate ob)) \<and>
    (w_finished (wstate ob) \<longleftrightarrow> EmitFinish \<in> set (history ob)) \<and>
    (\<not> w_destroyed (wstate ob) \<longrightarrow> rest = map fst (queued ob))"
proof -
  obtain wr where wr: "writer_run (history ob) new_writer = Some wr"
    and p: "in_progress wr = map_option (\<lambda>f. fst (snd f)) (wframe ob)" "finish_emitted wr = w_finished (wstate ob)"
    "\<not> w_destroyed (wstate ob) \<longrightarrow> waiting wr = map fst (queued ob)"
    using assms by (auto simp: writable_ok_def writable_queue_def split: option.splits)
  have "unwritten new_writer = []" "\<not> finish_emitted new_writer" by (simp_all add: unwritten_def new_writer_def)
  moreover have "unwritten wr = map fst (frame_items ob) @ waiting wr"
    using p(1) by (auto simp: unwritten_def frame_items_def split: option.splits)
  moreover have "w_finished (wstate ob) \<longrightarrow> w_ended (wstate ob)"
    using assms by (auto simp: writable_ok_def writable_flags_def Let_def)
  ultimately show ?thesis using writer_order [OF wr] writer_finished [OF wr] p(2,3) by (intro exI [of _ "waiting wr"]) auto
qed

section \<open>The operations keep it\<close>

lemma frame_idle: "writable_ok t ob \<Longrightarrow> \<not> w_writing (wstate ob) \<Longrightarrow> wframe ob = None"
  by (simp add: writable_ok_def writable_flags_def Let_def del: not_None_eq)

lemma wfile_dest: "wfile_ok ac xs s \<Longrightarrow> has_w (wf_dest s) \<and> \<not> has_r (wf_dest s) \<and> writable_ok 0 (wf_dest s)"
  by (simp add: wfile_ok_def Let_def)

text \<open>A new object of the stream, with the same file.\<close>

lemma wfile_update:
  assumes "wfile_ok ac xs s" and "writable_ok 0 ob" and "has_w ob = has_w (wf_dest s)" "has_r ob = has_r (wf_dest s)"
    and "wframe ob = wframe (wf_dest s)" and "written (history ob) = written (history (wf_dest s))"
    and "ac \<and> w_finished (wstate ob) \<and> accepted (history ob) \<noteq> [] \<Longrightarrow>
      wf_closed s \<noteq> [] \<or> w_finished (wstate (wf_dest s)) \<and> accepted (history (wf_dest s)) \<noteq> []"
  shows "wfile_ok ac xs (s\<lparr>wf_dest := ob\<rparr>)"
proof -
  have same: "in_flight (s\<lparr>wf_dest := ob\<rparr>) = in_flight s" "frame_items ob = frame_items (wf_dest s)"
    "shell_ok (s\<lparr>wf_dest := ob\<rparr>) = shell_ok s"
    by (simp_all add: in_flight_def frame_items_def shell_ok_def assms(5))
  have old: "has_w (wf_dest s)" "\<not> has_r (wf_dest s)" "shell_ok s" "xs @ in_flight s = frame_items (wf_dest s)"
    "wf_phase s = WOpening \<Longrightarrow> written (history (wf_dest s)) = []"
    "ac \<Longrightarrow> w_finished (wstate (wf_dest s)) \<Longrightarrow> accepted (history (wf_dest s)) \<noteq> [] \<Longrightarrow> wf_closed s \<noteq> []"
    using assms(1) by (simp_all add: wfile_ok_def Let_def)
  then have "ac \<and> w_finished (wstate ob) \<and> accepted (history ob) \<noteq> [] \<longrightarrow> wf_closed s \<noteq> []"
    using assms(7) by blast
  with old assms(2) show ?thesis by (simp add: wfile_ok_def Let_def same assms(3,4,6))
qed

lemma ok_destroy_hook: "wfile_ok ac xs s \<Longrightarrow> wfile_ok ac xs (wdestroy_hook e s)"
proof (cases "wf_fd s")
  case None
  assume "wfile_ok ac xs s"
  with None show ?thesis using writable.begin_complete [of 0 "wf_dest s" e]
    by (auto simp: wdestroy_hook_def wfile_defs complete_begin_def set_errored_def)
qed (auto simp: wdestroy_hook_def wfile_defs)

lemma ok_destroy:
  assumes "wfile_ok ac xs s"
  shows "wfile_ok ac xs (dest_destroy e s)"
proof (cases "already_destroyed (wf_dest s)")
  case False
  let ?d = "snd (destroy_begin e (wf_dest s))"
  have "w_destroyed (wstate ?d)" using wfile_dest [OF assms] False by (simp add: destroy_begin_def destroy_w_def)
  then have "writable_ok 0 (destroy_clear ?d)" using wfile_dest [OF assms] by (simp add: writable_ok_clear writable_ok_destroy)
  then have "wfile_ok ac xs (s\<lparr>wf_dest := destroy_clear ?d\<rparr>)"
    by (rule wfile_update [OF assms]) (simp_all add: destroy_begin_def destroy_w_def destroy_clear_def False split: if_splits)
  then show ?thesis using ok_destroy_hook by (simp add: dest_destroy_def split_beta destroy_begin_def False)
qed (simp add: dest_destroy_def destroy_begin_def assms)

lemma destroy_dest:
  assumes "has_w (wf_dest s)" "\<not> has_r (wf_dest s)"
  shows "w_destroyed (wstate (wf_dest (dest_destroy e s)))" "wf_data (dest_destroy e s) = wf_data s"
    "w_finished (wstate (wf_dest (dest_destroy e s))) = w_finished (wstate (wf_dest s))"
    "written (history (wf_dest (dest_destroy e s))) = written (history (wf_dest s))"
    "accepted (history (wf_dest (dest_destroy e s))) = accepted (history (wf_dest s))"
    "frame_items (wf_dest (dest_destroy e s)) = frame_items (wf_dest s)"
  using assms by (auto simp: dest_destroy_def wdestroy_hook_def destroy_begin_def destroy_w_def destroy_clear_def already_destroyed_def
      complete_begin_def set_errored_def Let_def frame_items_def split: option.splits)

lemma parked_destroy: "has_w (wf_dest s) \<Longrightarrow> \<not> has_r (wf_dest s) \<Longrightarrow> parked_ok (dest_destroy e s)"
  using destroy_dest(1) by (simp add: parked_ok_def)

lemma data_destroy: "has_w (wf_dest s) \<Longrightarrow> \<not> has_r (wf_dest s) \<Longrightarrow> data_ok s \<Longrightarrow> data_ok (dest_destroy e s)"
  using destroy_dest [of s e] by (auto simp: data_ok_def Let_def)

text \<open>The three parts for a state between two steps.\<close>

definition wf_inv :: "bool \<Rightarrow> write_file \<Rightarrow> bool" where
  "wf_inv ac s \<longleftrightarrow> wfile_ok ac [] s \<and> parked_ok s \<and> data_ok s"

lemma inv_dest: "wf_inv ac s \<Longrightarrow> has_w (wf_dest s) \<and> \<not> has_r (wf_dest s) \<and> writable_ok 0 (wf_dest s)"
  using wfile_dest unfolding wf_inv_def by blast

lemma inv_update:
  assumes "wf_inv ac s" and "writable_ok 0 ob" and "has_w ob = has_w (wf_dest s)" "has_r ob = has_r (wf_dest s)"
    and "wframe ob = wframe (wf_dest s)" and "history ob = history (wf_dest s) @ xs" and "written xs = []"
    and "w_finished (wstate ob) = w_finished (wstate (wf_dest s))" "w_destroyed (wstate ob) = w_destroyed (wstate (wf_dest s))"
    and "accepted xs \<noteq> [] \<Longrightarrow> \<not> w_finished (wstate ob)"
    and "Writable_Spec.idle (wstate (wf_dest s)) \<longrightarrow> Writable_Spec.idle (wstate ob)"
  shows "wf_inv ac (s\<lparr>wf_dest := ob\<rparr>)"
proof -
  have old: "wfile_ok ac [] s" "parked_ok s" "data_ok s" using assms(1) by (simp_all add: wf_inv_def)
  have "wfile_ok ac [] (s\<lparr>wf_dest := ob\<rparr>)" using assms(6-10) by (intro wfile_update [OF old(1) assms(2-5)]) auto
  moreover have "parked_ok (s\<lparr>wf_dest := ob\<rparr>)" using old(2) assms(9,11) by (auto simp: parked_ok_def)
  moreover have "data_ok (s\<lparr>wf_dest := ob\<rparr>)" using old(3) by (auto simp: data_ok_def Let_def frame_items_def assms(5-9))
  ultimately show ?thesis by (simp add: wf_inv_def)
qed

lemma inv_destroy: "wf_inv ac s \<Longrightarrow> wf_inv ac (dest_destroy e s)"
  by (frule inv_dest) (simp add: wf_inv_def ok_destroy parked_destroy data_destroy)

lemma write_hook_fields [simp]:
  "wf_dest (write_hook c k s) = wf_dest s" "wf_phase (write_hook c k s) = wf_phase s" "wf_fd (write_hook c k s) = wf_fd s"
  "wf_closed (write_hook c k s) = wf_closed s" "wf_data (write_hook c k s) = wf_data s"
  by (simp_all add: write_hook_def writeChunk_def)

lemma write_hook_shell:
  assumes "shell_ok s" and "in_flight s = []" and "wf_phase s = WOpening \<or> wf_fd s \<noteq> None"
  shows "shell_ok (write_hook c k s)" "in_flight (write_hook c k s) = [(c, k)]"
  using assms by (auto simp: shell_ok_def in_flight_def write_hook_def writeChunk_def)

lemma inv_doWrite:
  assumes "wf_inv ac s"
  shows "wf_inv ac (dest_doWrite s)"
proof (cases "w_destroyed (wstate (wf_dest s)) \<or> w_writing (wstate (wf_dest s)) \<or> w_pending (wstate (wf_dest s)) = []")
  case True
  then show ?thesis using assms by (auto simp: dest_doWrite_def doWrite_begin_def Let_def split: list.split)
next
  case False
  then obtain i rest where i: "w_pending (wstate (wf_dest s)) = i # rest" by (cases "w_pending (wstate (wf_dest s))") auto
  let ?ob = "snd (doWrite_begin (wf_dest s))"
  have step: "dest_doWrite s = write_hook (fst i) (wcount (wf_dest s)) (s\<lparr>wf_dest := ?ob\<rparr>)"
    using False i by (cases i) (simp add: dest_doWrite_def doWrite_begin_def Let_def)
  have ok: "writable_ok 0 ?ob" "wframe (wf_dest s) = None"
    using inv_dest [OF assms] writable_ok_doWrite frame_idle False by blast+
  have ob: "wframe ?ob = Some (wcount (wf_dest s), i)" "history ?ob = history (wf_dest s) @ [Started (fst i)]"
    "has_w ?ob = has_w (wf_dest s)" "has_r ?ob = has_r (wf_dest s)" "w_finished (wstate ?ob) = w_finished (wstate (wf_dest s))"
    "w_destroyed (wstate ?ob) = w_destroyed (wstate (wf_dest s))"
    using False i by (simp_all add: doWrite_begin_def Let_def)
  have fd: "wf_phase s = WOpening \<or> wf_fd s \<noteq> None"
    using assms False by (auto simp: wf_inv_def parked_ok_def Writable_Spec.idle_def)
  have old: "wfile_ok ac [] s" "data_ok s" using assms by (simp_all add: wf_inv_def)
  then have shell: "shell_ok (s\<lparr>wf_dest := ?ob\<rparr>)" "in_flight (s\<lparr>wf_dest := ?ob\<rparr>) = []"
    using ok(2) by (simp_all add: wfile_ok_def Let_def shell_ok_def in_flight_def frame_items_def)
  have "wfile_ok ac [] (dest_doWrite s)"
    using old(1) ok(1) ob write_hook_shell [OF shell] fd unfolding step by (simp add: wfile_ok_def Let_def frame_items_def)
  moreover have "parked_ok (dest_doWrite s)" using fd by (auto simp: step parked_ok_def)
  moreover have "data_ok (dest_doWrite s)" using old(2) False ob by (simp add: step data_ok_def Let_def)
  ultimately show ?thesis by (simp add: wf_inv_def)
qed

lemma inv_final_done:
  assumes "wf_inv ac s" and "ac \<longrightarrow> accepted (history (wf_dest s)) \<noteq> [] \<longrightarrow> wf_closed s \<noteq> []"
  shows "wf_inv ac (final_done k s)"
proof (cases "fst (final_called k (wf_dest s))")
  case True
  let ?ob = "snd (finish_begin (snd (final_called k (wf_dest s))))"
  have step: "final_done k s = s\<lparr>wf_dest := ?ob\<rparr>" using True by (simp add: final_done_def split_beta)
  have "0 < fcount (snd (final_called k (wf_dest s)))" using True by (auto simp: final_called_def split: if_splits)
  moreover have "writable_ok 0 (snd (final_called k (wf_dest s)))"
    using inv_dest [OF assms(1)] writable.called_final by blast
  ultimately have "writable_ok 0 ?ob" using writable_ok_finish by blast
  then have "wfile_ok ac [] (final_done k s)" unfolding step
    using assms by (intro wfile_update) (auto simp: wf_inv_def final_called_def finish_begin_def)
  moreover have "parked_ok (final_done k s)" "data_ok (final_done k s)" unfolding step
    using assms by (auto simp: wf_inv_def parked_ok_def data_ok_def Let_def final_called_def finish_begin_def Writable_Spec.idle_def frame_items_def)
  ultimately show ?thesis by (simp add: wf_inv_def)
qed (use assms in \<open>auto simp: final_done_def final_called_def split: if_splits\<close>)

lemma inv_maybeFinish:
  assumes "wf_inv ac s"
  shows "wf_inv ac (dest_maybeFinish ac s)"
proof (cases "may_finish (wstate (wf_dest s))")
  case True
  let ?s = "s\<lparr>wf_dest := snd (final_begin (wf_dest s))\<rparr>"
  have idle: "Writable_Spec.idle (wstate (wf_dest s))" "\<not> w_destroyed (wstate (wf_dest s))" "\<not> w_writing (wstate (wf_dest s))"
    using True by (simp_all add: may_finish_def Writable_Spec.idle_def)
  have inv: "wf_inv ac ?s"
    using assms wfile_update [of ac "[]" s "snd (final_begin (wf_dest s))"] writable_ok_final True inv_dest [OF assms]
    by (auto simp: wf_inv_def parked_ok_def data_ok_def Let_def frame_items_def final_begin_def)
  have "wf_closed s \<noteq> []" if "wf_fd s = None" "accepted (history (wf_dest s)) \<noteq> []"
  proof (cases "wf_phase s = WOpening")
    case True
    have "frame_items (wf_dest s) = []" "queued (wf_dest s) = []"
      using frame_idle [of 0] inv_dest [OF assms] idle by (simp_all add: frame_items_def queued_def Writable_Spec.idle_def)
    then show ?thesis using writable_writer [of 0 "wf_dest s"] inv_dest [OF assms] that True assms idle(2)
      by (auto simp: wf_inv_def wfile_ok_def Let_def)
  next
    case False
    then show ?thesis using assms that(1) idle(2) by (simp add: wf_inv_def parked_ok_def)
  qed
  then have done_case: "wf_inv ac (final_done k ?s)" if "wf_fd s = None \<or> \<not> ac" for k
    using inv_final_done [OF inv] that by (auto simp: final_begin_def)
  have "wf_inv ac (?s\<lparr>wf_fd := None, wf_closed := wf_closed s @ [f], wf_closing := wf_closing s @ [FinalClose k]\<rparr>)"
    if "wf_fd s = Some f" for f k
    using inv idle that by (auto simp: wf_inv_def wfile_defs parked_ok_def data_ok_def final_begin_def Writable_Spec.idle_def)
  then show ?thesis using True done_case
    by (auto simp: dest_maybeFinish_def final_begin_def final_hook_def split: option.split)
qed (simp add: dest_maybeFinish_def assms)

text \<open>The completion callback of the write that the native side has answered.\<close>

lemma onwrite_reported:
  assumes "wfile_ok ac [(c, k)] s" and "wf_phase s \<noteq> WOpening"
  obtains i ob where "onwrite_begin k (wf_dest s) = (Some i, ob)" "wfile_ok ac [] (s\<lparr>wf_dest := ob\<rparr>)"
    "history ob = history (wf_dest s) @ [Wrote c]" "frame_items ob = []" "\<not> w_finished (wstate ob)"
    "w_destroyed (wstate ob) = w_destroyed (wstate (wf_dest s))" "w_writing (wstate (wf_dest s))"
proof -
  let ?d = "wf_dest s"
  let ?ob = "snd (onwrite_begin k ?d)"
  have d: "writable_ok 0 ?d" "frame_items ?d = [(c, k)]" "in_flight s = []" using assms(1) by (auto simp: wfile_ok_def Let_def frame_items_def split: option.splits)
  then obtain i where i: "wframe ?d = Some (k, i)" "fst i = c" by (auto simp: frame_items_def split: option.splits)
  have fin: "\<not> w_finished (wstate ?d)" using writable_writer [OF d(1)] d(2) by auto
  have ob: "onwrite_begin k ?d = (Some i, ?ob)" "history ?ob = history ?d @ [Wrote c]" "wframe ?ob = None"
    "w_finished (wstate ?ob) = w_finished (wstate ?d)" "w_destroyed (wstate ?ob) = w_destroyed (wstate ?d)" "has_w ?ob = has_w ?d" "has_r ?ob = has_r ?d"
    using i by (simp_all add: onwrite_begin_def)
  have "wfile_ok ac [] (s\<lparr>wf_dest := ?ob\<rparr>)"
    using assms ob(3-) fin d(3) writable_ok_onwrite [OF d(1)]
    by (simp add: wfile_ok_def Let_def shell_ok_def in_flight_def frame_items_def)
  moreover have "w_writing (wstate ?d)" using d(1) i(1) by (auto simp: writable_ok_def writable_flags_def Let_def)
  ultimately show thesis using that [OF ob(1)] ob fin by (simp add: frame_items_def)
qed

lemma inv_on_write_failed:
  assumes "wfile_ok ac [(c, k)] s" and "wf_phase s \<noteq> WOpening" and "truthy e"
    and "prefix (wf_data s) (buffer_bytes (accepted (history (wf_dest s))))"
  shows "wf_inv ac (on_write ac k e s)"
proof -
  obtain i ob where ob: "onwrite_begin k (wf_dest s) = (Some i, ob)" "wfile_ok ac [] (s\<lparr>wf_dest := ob\<rparr>)"
    "history ob = history (wf_dest s) @ [Wrote c]" "frame_items ob = []" "\<not> w_finished (wstate ob)"
    using onwrite_reported [OF assms(1,2)] by metis
  let ?s = "s\<lparr>wf_dest := ob\<rparr>"
  have step: "on_write ac k e s = dest_destroy e ?s" using ob(1) assms(3) by (simp add: on_write_def)
  have w: "has_w (wf_dest ?s)" "\<not> has_r (wf_dest ?s)" using wfile_dest [OF ob(2)] by simp_all
  have "data_ok (dest_destroy e ?s)" using destroy_dest [OF w, of e] ob assms(4) by (simp add: data_ok_def Let_def)
  then show ?thesis unfolding step wf_inv_def using ok_destroy [OF ob(2)] parked_destroy [OF w] by simp
qed

lemma inv_on_write:
  assumes "wfile_ok ac [(c, k)] s" and "wf_phase s \<noteq> WOpening" and "parked_ok s" and "\<not> truthy e"
    and "wf_data s = buffer_bytes (written (history (wf_dest s))) @ bytes_of c"
  shows "wf_inv ac (on_write ac k e s)"
proof -
  obtain i ob where ob: "onwrite_begin k (wf_dest s) = (Some i, ob)" "wfile_ok ac [] (s\<lparr>wf_dest := ob\<rparr>)"
    "history ob = history (wf_dest s) @ [Wrote c]" "w_destroyed (wstate ob) = w_destroyed (wstate (wf_dest s))" "w_writing (wstate (wf_dest s))"
    using onwrite_reported [OF assms(1,2)] by metis
  let ?s = "s\<lparr>wf_dest := ob\<rparr>" and ?t = "s\<lparr>wf_dest := snd (drain_begin ob)\<rparr>"
  have s: "wf_inv ac ?s" using ob assms(2,3,5) by (auto simp: wf_inv_def parked_ok_def data_ok_def Writable_Spec.idle_def)
  have "writable_ok 0 (snd (drain_begin ob))"
    using inv_dest [OF s] writable.frame by (auto simp: drain_begin_def same_core_def Let_def)
  then have "wf_inv ac ?t" using inv_update [OF s, of "snd (drain_begin ob)" "[]"]
    by (auto simp: drain_begin_def Let_def Writable_Spec.idle_def)
  then show ?thesis using ob(1) assms(4) s inv_doWrite [OF s] inv_maybeFinish [of ac ?t] by (simp add: on_write_def Let_def)
qed

section \<open>The steps\<close>

lemma inv_write:
  assumes "wf_inv ac s" and "\<not> w_destroyed (wstate (wf_dest s))" "\<not> w_ended (wstate (wf_dest s))"
  shows "wf_inv ac (dest_write i s)"
proof -
  let ?ob = "snd (accept_item i (wf_dest s))"
  have d: "writable_ok 0 (wf_dest s)" using inv_dest [OF assms(1)] by simp
  then have "\<not> w_finished (wstate (wf_dest s))" "\<not> Writable_Spec.idle (wstate (wf_dest s))"
    using assms(3) by (auto simp: writable_ok_def writable_flags_def Writable_Spec.idle_def Let_def)
  then have s: "wf_inv ac (s\<lparr>wf_dest := ?ob\<rparr>)" using writable_ok_accept [OF d assms(2,3)]
    by (intro inv_update [OF assms(1), of _ "[Accepted (fst i)]"]) (auto simp: accept_item_def Let_def)
  have result: "wf_inv ac (t\<lparr>wf_dest := snd (write_result (wf_dest t))\<rparr>)" if "wf_inv ac t" for t
  proof -
    have "writable_ok 0 (snd (write_result (wf_dest t)))"
      using inv_dest [OF that] writable.frame by (auto simp: write_result_def same_core_def Let_def)
    then show ?thesis by (intro inv_update [OF that, of _ "[]"]) (auto simp: write_result_def Let_def Writable_Spec.idle_def)
  qed
  show ?thesis using s result [OF inv_doWrite [OF s]] by (simp add: dest_write_def split_beta Let_def)
qed

lemma inv_end:
  assumes "wf_inv ac s" and "\<not> w_ended (wstate (wf_dest s))"
  shows "wf_inv ac (dest_end ac s)"
  unfolding dest_end_def using inv_dest [OF assms(1)] writable.ended_set [OF _ assms(2)]
  by (intro inv_maybeFinish inv_update [OF assms(1), of _ "[]"]) (auto simp: set_ended_def Writable_Spec.idle_def)

lemma inv_cork:
  assumes "wf_inv ac s"
  shows "wf_inv ac (s\<lparr>wf_dest := (wf_dest s)\<lparr>wstate := (wstate (wf_dest s))\<lparr>w_corked := w_corked (wstate (wf_dest s)) + 1\<rparr>\<rparr>\<rparr>)"
  using inv_dest [OF assms] writable.cork_inc
  by (intro inv_update [OF assms, of _ "[]"]) (auto simp: Writable_Spec.idle_def)

lemma inv_uncork:
  assumes "wf_inv ac s"
  shows "wf_inv ac (dest_uncork s)"
proof -
  have "wf_inv ac (s\<lparr>wf_dest := snd (uncork_begin (wf_dest s))\<rparr>)"
    using inv_dest [OF assms] writable_ok_uncork
    by (intro inv_update [OF assms, of _ "[]"]) (auto simp: uncork_begin_def Let_def Writable_Spec.idle_def)
  then show ?thesis using inv_doWrite by (simp add: dest_uncork_def split_beta)
qed

lemma inv_closed:
  assumes "wf_inv ac s" and "c \<in> set (wf_closing s)"
  shows "wf_inv ac (on_closed c (s\<lparr>wf_closing := remove1 c (wf_closing s)\<rparr>))"
proof -
  let ?s = "s\<lparr>wf_closing := remove1 c (wf_closing s)\<rparr>"
  have s: "wf_inv ac ?s" using assms(1) set_remove1_subset [of c "wf_closing s"]
    by (auto simp: wf_inv_def wfile_defs parked_ok_def data_ok_def)
  show ?thesis
  proof (cases c)
    case (FinalClose k)
    then have "wf_closed ?s \<noteq> []" using assms by (auto simp: wf_inv_def wfile_ok_def shell_ok_def Let_def)
    then show ?thesis using FinalClose inv_final_done [OF s] by (simp add: on_closed_def)
  next
    case (DestroyClose e)
    have "wf_inv ac (?s\<lparr>wf_dest := snd (complete_begin e (wf_dest s))\<rparr>)"
      using inv_dest [OF assms(1)] writable.begin_complete
      by (intro inv_update [OF s, of _ "if dcalled (wf_dest s) \<or> \<not> already_destroyed (wf_dest s) then [] else
            [Completed (if truthy e then e else if truthy (derr (wf_dest s)) then derr (wf_dest s) else VNull)]"])
        (auto simp: complete_begin_def set_errored_def Let_def Writable_Spec.idle_def)
    then show ?thesis using DestroyClose by (simp add: on_closed_def)
  qed
qed

lemma one_in_flight:
  assumes "wf_inv ac s" and "(fo, c, k, loop) \<in> set (wf_native s)"
  shows "wf_native s = [(fo, c, k, loop)]" "wf_pending s = []" "drop (wf_index s) (wf_queued s) = []"
    "frame_items (wf_dest s) = [(c, k)]" "wf_phase s \<noteq> WOpening"
    "wf_data s = buffer_bytes (written (history (wf_dest s)))"
proof -
  have ok: "in_flight s = frame_items (wf_dest s)" "shell_ok s" "data_ok s" using assms(1) by (simp_all add: wf_inv_def wfile_ok_def Let_def)
  have "length (frame_items (wf_dest s)) \<le> 1" by (simp add: frame_items_def split: option.split)
  then have "length (wf_pending s) + length (drop (wf_index s) (wf_queued s)) + length (wf_native s) \<le> 1"
    unfolding ok(1) [symmetric] by (simp add: in_flight_def)
  moreover obtain n ns where n: "wf_native s = n # ns" using assms(2) by (cases "wf_native s") auto
  ultimately have l: "ns = []" "length (wf_pending s) = 0" "length (drop (wf_index s) (wf_queued s)) = 0" by simp_all
  with n assms(2) show one: "wf_native s = [(fo, c, k, loop)]" "wf_pending s = []" "drop (wf_index s) (wf_queued s) = []"
    by simp_all
  then show "frame_items (wf_dest s) = [(c, k)]" using ok(1) by (simp add: in_flight_def)
  then show "wf_data s = buffer_bytes (written (history (wf_dest s)))" using ok(3) by (simp add: data_ok_def Let_def)
  show "wf_phase s \<noteq> WOpening" using ok(2) one(1) by (auto simp: shell_ok_def)
qed

lemma native_taken:
  assumes "wf_inv ac s" and "(fo, c, k, loop) \<in> set (wf_native s)"
  shows "wfile_ok ac [(c, k)] (s\<lparr>wf_native := remove1 (fo, c, k, loop) (wf_native s), wf_data := d\<rparr>)"
    "parked_ok (s\<lparr>wf_native := remove1 (fo, c, k, loop) (wf_native s), wf_data := d\<rparr>)"
    "wfile_ok ac [(c, k)] (s\<lparr>wf_native := remove1 (fo, c, k, loop) (wf_native s), wf_data := d,
       wf_index := max (wf_index s) (length (wf_queued s))\<rparr>)"
  using assms(1) one_in_flight [OF assms(1,2)] unfolding wf_inv_def
  by (simp_all add: wfile_ok_def shell_ok_def Let_def in_flight_def parked_ok_def)

lemma on_write_queue [simp]:
  "wf_queued (on_write ac k e s) = wf_queued s" "wf_index (on_write ac k e s) = wf_index s"
  by (simp_all add: on_write_def dest_destroy_def wdestroy_hook_def dest_doWrite_def write_hook_def writeChunk_def dest_maybeFinish_def
      final_hook_def final_done_def Let_def split: option.split prod.split)

lemma drain_idle: "drop (wf_index s) (wf_queued s) = [] \<Longrightarrow> drain s = s"
  by (simp add: drain_def)

lemma inv_native:
  assumes "wf_inv ac s" and "(Some f, c, k, loop) \<in> set (wf_native s)"
  shows "wf_inv ac (on_native ac k loop VUndef
    (s\<lparr>wf_native := remove1 (Some f, c, k, loop) (wf_native s), wf_data := wf_data s @ bytes_of c\<rparr>))" (is "wf_inv ac (on_native ac k loop VUndef ?t)")
proof -
  note one = one_in_flight [OF assms]
  have "wf_inv ac (on_write ac k VUndef ?t)"
    by (rule inv_on_write [OF native_taken(1) [OF assms] _ native_taken(2) [OF assms]]) (use one in simp_all)
  moreover have "drain (on_write ac k VUndef ?t) = on_write ac k VUndef ?t" using one(3) by (intro drain_idle) simp
  ultimately show ?thesis by (cases loop) (simp_all add: on_native_def)
qed

lemma accepted_prefix:
  assumes "wf_inv ac s" and "frame_items (wf_dest s) = [(c, k)]"
  shows "prefix (buffer_bytes (written (history (wf_dest s))) @ take n (bytes_of c)) (buffer_bytes (accepted (history (wf_dest s))))"
proof -
  obtain rest where "accepted (history (wf_dest s)) = written (history (wf_dest s)) @ [c] @ rest"
    using writable_writer [of 0 "wf_dest s"] inv_dest [OF assms(1)] assms(2) by auto
  moreover have "prefix (take n (bytes_of c)) (bytes_of c @ x)" for x by (meson prefix_order.trans prefixI take_is_prefix)
  ultimately show ?thesis by simp
qed

lemma inv_native_failed:
  assumes "wf_inv ac s" and "(fo, c, k, loop) \<in> set (wf_native s)" and "truthy e"
  shows "wf_inv ac (on_native ac k loop e
    (s\<lparr>wf_native := remove1 (fo, c, k, loop) (wf_native s), wf_data := wf_data s @ take n (bytes_of c)\<rparr>))" (is "wf_inv ac (on_native ac k loop e ?t)")
proof -
  note one = one_in_flight [OF assms(1,2)]
  have p: "prefix (wf_data ?t) (buffer_bytes (accepted (history (wf_dest s))))" using accepted_prefix [OF assms(1) one(4)] one(6) by simp
  have "wf_inv ac (on_write ac k e ?t)"
    by (rule inv_on_write_failed [OF native_taken(1) [OF assms(1,2)] _ assms(3)]) (use one p in simp_all)
  moreover have "wf_inv ac (on_write ac k e (?t\<lparr>wf_index := max (wf_index s) (length (wf_queued s))\<rparr>))"
    by (rule inv_on_write_failed [OF native_taken(3) [OF assms(1,2)] _ assms(3)]) (use one p in simp_all)
  ultimately show ?thesis using assms(3) one(3) inv_destroy by (cases loop) (simp_all add: on_native_def fail_items_def)
qed

lemma inv_open:
  assumes "wf_inv ac s" and "wf_phase s = WOpening"
  shows "wf_inv ac (on_wopen f s)"
  using assms by (auto simp: wf_inv_def wfile_ok_def shell_ok_def Let_def in_flight_def parked_ok_def data_ok_def on_wopen_def)

lemma frame_cases:
  assumes "wf_inv ac s"
  shows "wf_pending s = [] \<or> (\<exists>c k. wf_pending s = [(c, k)] \<and> wf_native s = [] \<and> drop (wf_index s) (wf_queued s) = [] \<and> frame_items (wf_dest s) = [(c, k)])"
proof -
  have "in_flight s = frame_items (wf_dest s)" using assms by (simp add: wf_inv_def wfile_ok_def Let_def)
  then show ?thesis by (cases "wf_pending s") (auto simp: in_flight_def frame_items_def split: option.splits)
qed

lemma inv_after_open:
  assumes "wf_inv ac s" and "wf_phase s = WEmitting"
  shows "wf_inv ac (after_wopen s)"
  using frame_cases [OF assms(1)]
proof (elim disjE exE conjE)
  assume "wf_pending s = []"
  then show ?thesis using assms by (auto simp: wf_inv_def wfile_ok_def shell_ok_def Let_def in_flight_def parked_ok_def data_ok_def after_wopen_def)
next
  fix c k assume one: "wf_pending s = [(c, k)]" "wf_native s = []" "frame_items (wf_dest s) = [(c, k)]"
  then have "after_wopen s = s\<lparr>wf_phase := WOpened, wf_queued := [(c, k)], wf_pending := [], wf_index := 1, wf_native := [(wf_fd s, c, k, True)]\<rparr>"
    by (simp add: after_wopen_def drain_def writeChunk_def)
  moreover have "wfile_ok ac [] (s\<lparr>wf_phase := WOpened, wf_queued := [(c, k)], wf_pending := [], wf_index := 1, wf_native := [(wf_fd s, c, k, True)]\<rparr>)"
    using assms(1,2) one by (simp add: wf_inv_def wfile_ok_def shell_ok_def Let_def in_flight_def)
  ultimately show ?thesis using assms by (simp add: wf_inv_def parked_ok_def data_ok_def)
qed

lemma inv_open_failed:
  assumes "wf_inv ac s" and "wf_phase s = WOpening" and "truthy e"
  shows "wf_inv ac (on_wopen_failed ac e s)"
proof (cases "wf_pending s")
  case Nil
  let ?s = "s\<lparr>wf_phase := WOpened, wf_pending := []\<rparr>"
  have s: "wfile_ok ac [] ?s" "data_ok ?s"
    using assms Nil by (auto simp: wf_inv_def wfile_ok_def shell_ok_def Let_def in_flight_def data_ok_def)
  then have "wf_inv ac (dest_destroy e ?s)" using wfile_dest [OF s(1)] ok_destroy [OF s(1)] data_destroy [of ?s] parked_destroy [of ?s]
    by (simp add: wf_inv_def)
  then show ?thesis using Nil by (simp add: on_wopen_failed_def failPending_def fail_items_def)
next
  case (Cons x xs)
  then obtain c k where one: "wf_pending s = [(c, k)]" "frame_items (wf_dest s) = [(c, k)]" "wf_queued s = []" "wf_native s = []"
    using frame_cases [OF assms(1)] assms(1,2) by (auto simp: wf_inv_def wfile_ok_def shell_ok_def Let_def)
  let ?s = "s\<lparr>wf_phase := WOpened, wf_pending := []\<rparr>"
  have "wf_data s = buffer_bytes (written (history (wf_dest s)))" using assms(1) one(2) by (simp add: wf_inv_def data_ok_def Let_def)
  then have "prefix (wf_data ?s) (buffer_bytes (accepted (history (wf_dest ?s))))"
    using accepted_prefix [OF assms(1) one(2), of 0] by simp
  moreover have "wfile_ok ac [(c, k)] ?s"
    using assms(1,2) one by (auto simp: wf_inv_def wfile_ok_def shell_ok_def Let_def in_flight_def)
  ultimately have "wf_inv ac (on_write ac k e ?s)" using inv_on_write_failed [OF _ _ assms(3)] by simp
  then show ?thesis using one(1) inv_destroy by (simp add: on_wopen_failed_def failPending_def fail_items_def)
qed

lemma inv_step: "wstep ac s s' \<Longrightarrow> wf_inv ac s \<Longrightarrow> wf_inv ac s'"
  by (induction rule: wstep.induct)
    (simp_all add: inv_open inv_after_open inv_open_failed inv_native inv_native_failed inv_closed inv_write inv_cork inv_uncork inv_end inv_destroy)

lemma inv_start: "wf_inv ac (createWriteStream hwm)"
proof -
  have "writable_ok 0 (new_Writable opts)" "has_w (new_Writable opts)" "\<not> has_r (new_Writable opts)" "wframe (new_Writable opts) = None"
    "history (new_Writable opts) = []" "\<not> w_finished (wstate (new_Writable opts))" for opts
    by (simp_all add: writable_ok_new) (simp_all add: new_Writable_def bare_stream_def initWritableState_def)
  then show ?thesis
    by (simp add: wf_inv_def wfile_ok_def shell_ok_def in_flight_def frame_items_def parked_ok_def data_ok_def createWriteStream_def)
qed

lemma inv_reachable: "wreachable ac hwm s \<Longrightarrow> wf_inv ac s"
  by (induction rule: wreachable.induct) (auto intro: inv_start inv_step)

section \<open>The theorems\<close>

datatype waction = WOpen nat | WEmitted | WOpenFail | WNative | WNativeFail nat | WClosed | WWrite bytes | WEnd | WDestroy

fun wexec :: "bool \<Rightarrow> waction \<Rightarrow> write_file \<Rightarrow> write_file option" where
  "wexec ac (WOpen f) s = (if wf_phase s = WOpening then Some (on_wopen f s) else None)"
| "wexec ac WEmitted s = (if wf_phase s = WEmitting then Some (after_wopen s) else None)"
| "wexec ac WOpenFail s = (if wf_phase s = WOpening then Some (on_wopen_failed ac (VErr Error ''ENOENT'') s) else None)"
| "wexec ac WNative s = (case wf_native s of
       (Some f, c, k, loop) # rest \<Rightarrow> Some (on_native ac k loop VUndef (s\<lparr>wf_native := rest, wf_data := wf_data s @ bytes_of c\<rparr>))
     | _ \<Rightarrow> None)"
| "wexec ac (WNativeFail n) s = (case wf_native s of
       (fo, c, k, loop) # rest \<Rightarrow>
         Some (on_native ac k loop (VErr Error ''EIO'') (s\<lparr>wf_native := rest, wf_data := wf_data s @ take n (bytes_of c)\<rparr>))
     | [] \<Rightarrow> None)"
| "wexec ac WClosed s = (case wf_closing s of c # rest \<Rightarrow> Some (on_closed c (s\<lparr>wf_closing := rest\<rparr>)) | [] \<Rightarrow> None)"
| "wexec ac (WWrite bs) s =
     (if w_destroyed (wstate (wf_dest s)) \<or> w_ended (wstate (wf_dest s)) then None else Some (dest_write (VBuf bs, VNull, VUndef) s))"
| "wexec ac WEnd s =
     (if w_destroyed (wstate (wf_dest s)) \<or> w_ended (wstate (wf_dest s)) then None else Some (dest_end ac s))"
| "wexec ac WDestroy s = Some (dest_destroy VUndef s)"

fun wrun :: "bool \<Rightarrow> waction list \<Rightarrow> write_file \<Rightarrow> write_file option" where
  "wrun ac [] s = Some s"
| "wrun ac (a # as) s = (case wexec ac a s of None \<Rightarrow> None | Some s' \<Rightarrow> wrun ac as s')"

lemma wexec_step: "wexec ac a s = Some s' \<Longrightarrow> wstep ac s s'"
proof (cases a)
  case WNative
  assume "wexec ac a s = Some s'"
  with WNative obtain f c k loop rest where "wf_native s = (Some f, c, k, loop) # rest"
    "s' = on_native ac k loop VUndef (s\<lparr>wf_native := rest, wf_data := wf_data s @ bytes_of c\<rparr>)"
    by (auto split: list.splits option.splits)
  then show ?thesis using wstep.native_ok [of f c k loop s ac] by simp
next
  case (WNativeFail n)
  assume "wexec ac a s = Some s'"
  with WNativeFail obtain fo c k loop rest where "wf_native s = (fo, c, k, loop) # rest"
    "s' = on_native ac k loop (VErr Error ''EIO'') (s\<lparr>wf_native := rest, wf_data := wf_data s @ take n (bytes_of c)\<rparr>)"
    by (auto split: list.splits)
  then show ?thesis using wstep.native_failed [of fo c k loop s "VErr Error ''EIO''" ac n] by simp
next
  case WClosed
  assume "wexec ac a s = Some s'"
  with WClosed obtain c rest where "wf_closing s = c # rest" "s' = on_closed c (s\<lparr>wf_closing := rest\<rparr>)" by (auto split: list.splits)
  then show ?thesis using wstep.closed [of c s ac] by simp
qed (auto simp: is_bytes_def split: if_splits intro!: wstep.intros)

lemma wrun_reachable: "wrun ac as s = Some s' \<Longrightarrow> wreachable ac hwm s \<Longrightarrow> wreachable ac hwm s'"
  by (induction as arbitrary: s) (auto split: option.splits dest: wexec_step intro: wreachable.next_step)

lemmas wrun_start = wrun_reachable [OF _ wreachable.start]

lemmas write_eval = createWriteStream_def new_Writable_def bare_stream_def initWritableState_def no_options_def
  pick_hwm_def pick_hook_def on_wopen_def after_wopen_def drain_def writeChunk_def write_hook_def dest_write_def accept_item_def dest_doWrite_def
  doWrite_begin_def write_result_def dest_end_def set_ended_def dest_maybeFinish_def may_finish_def final_begin_def final_hook_def
  final_done_def final_called_def finish_begin_def on_native_def on_write_def onwrite_begin_def drain_begin_def on_closed_def
  chunkLength_def dest_destroy_def destroy_begin_def destroy_w_def destroy_clear_def already_destroyed_def wdestroy_hook_def
  complete_begin_def set_errored_def fail_items_def Let_def

definition two_written :: write_file where
  "two_written = the (wrun True [WWrite [1, 2], WWrite [3], WEnd, WOpen 5, WEmitted, WNative, WNative, WClosed] (createWriteStream None))"

lemma two_written_run:
  "wrun True [WWrite [1, 2], WWrite [3], WEnd, WOpen 5, WEmitted, WNative, WNative, WClosed] (createWriteStream None) = Some two_written"
  "EmitFinish \<in> set (history (wf_dest two_written))" "accepted (history (wf_dest two_written)) = [VBuf [1, 2], VBuf [3]]"
  by code_simp+

text \<open>C9: The file holds the data in the order it was written: at every moment its contents are the first bytes of the chunks the stream has accepted;
  as long as the stream is not destroyed they are the chunks whose completion callbacks were called; and when the stream emits \<open>finish\<close>, they are all accepted chunks.
  This holds for writes before and after the file is open, for corked ones, and for any answers of the native side.\<close>

theorem write_stream_contents:
  assumes "wreachable autoClose hwm s"
  shows "prefix (wf_data s) (buffer_bytes (accepted (history (wf_dest s)))) \<and>
    (\<not> w_destroyed (wstate (wf_dest s)) \<longrightarrow> wf_data s = buffer_bytes (written (history (wf_dest s)))) \<and>
    (EmitFinish \<in> set (history (wf_dest s)) \<longrightarrow> wf_data s = buffer_bytes (accepted (history (wf_dest s))))"
proof -
  have inv: "wf_inv autoClose s" using assms by (rule inv_reachable)
  then have "data_ok s" by (simp add: wf_inv_def)
  moreover obtain rest where "accepted (history (wf_dest s)) = written (history (wf_dest s)) @ rest"
    "w_finished (wstate (wf_dest s)) \<longrightarrow> rest = []" "w_finished (wstate (wf_dest s)) \<longleftrightarrow> EmitFinish \<in> set (history (wf_dest s))"
    using writable_writer [of 0 "wf_dest s"] inv_dest [OF inv] by fastforce
  ultimately show ?thesis by (auto simp: data_ok_def Let_def)
qed

theorem write_stream_contents_witness: "wf_data two_written = [1, 2, 3]"
  using write_stream_contents [OF wrun_start [OF two_written_run(1)]] two_written_run(2,3) by simp

text \<open>The file is closed at most once, and not while the stream still holds its descriptor; with \<open>autoClose\<close>, a stream that was given data has closed the file
  when it emits \<open>finish\<close>.\<close>

theorem write_stream_closes_file:
  assumes "wreachable autoClose hwm s"
  shows "length (wf_closed s) \<le> 1 \<and> (wf_fd s \<noteq> None \<longrightarrow> wf_closed s = []) \<and>
    (autoClose \<and> accepted (history (wf_dest s)) \<noteq> [] \<and> EmitFinish \<in> set (history (wf_dest s)) \<longrightarrow> wf_fd s = None \<and> wf_closed s \<noteq> [])"
proof -
  have inv: "wf_inv autoClose s" using assms by (rule inv_reachable)
  then have "EmitFinish \<in> set (history (wf_dest s)) \<longleftrightarrow> w_finished (wstate (wf_dest s))"
    using writable_writer [of 0 "wf_dest s"] inv_dest [OF inv] by blast
  with inv show ?thesis by (cases "wf_fd s") (auto simp: wf_inv_def wfile_ok_def shell_ok_def Let_def)
qed

theorem write_stream_closes_file_witness: "wf_fd two_written = None \<and> wf_closed two_written \<noteq> []"
  using write_stream_closes_file [OF wrun_start [OF two_written_run(1)]] two_written_run(2,3) by simp

text \<open>A stream whose destruction is over, with the file open.\<close>

definition wstopped :: "nat \<Rightarrow> write_file \<Rightarrow> bool" where
  "wstopped f s \<longleftrightarrow> wf_phase s = WOpened \<and> wf_native s = [] \<and> wf_closing s = [] \<and> wf_fd s = Some f \<and> wf_closed s = [] \<and>
     has_w (wf_dest s) \<and> w_destroyed (wstate (wf_dest s))"

lemma wstopped_step: "wstep ac s s' \<Longrightarrow> wstopped f s \<Longrightarrow> wstopped f s'"
  by (induction rule: wstep.induct)
    (auto simp: wstopped_def dest_destroy_def destroy_begin_def already_destroyed_def dest_uncork_def uncork_begin_def dest_doWrite_def doWrite_begin_def Let_def)

lemma wstopped_for_ever: "(wstep ac)\<^sup>*\<^sup>* s s' \<Longrightarrow> wstopped f s \<Longrightarrow> wstopped f s'"
  by (induction rule: rtranclp_induct) (auto intro: wstopped_step)

text \<open>A stream that is ended with no data before the file is open emits \<open>finish\<close> at once, since the option \<open>final\<close> has nothing to close yet,
  and is destroyed after it. The file is opened later, and no step ever closes it, although \<open>autoClose\<close> is set.\<close>

theorem write_stream_leaks_descriptor:
  "\<exists>s. wreachable True None s \<and> EmitFinish \<in> set (history (wf_dest s)) \<and>
     wrun True [WEnd, WDestroy, WOpen 5, WEmitted] (createWriteStream None) = Some s \<and>
     {s'. (wstep True)\<^sup>*\<^sup>* s s'} \<subseteq> {s'. wf_fd s' = Some 5 \<and> wf_closed s' = []}"
proof (intro exI conjI)
  define s where "s = the (wrun True [WEnd, WDestroy, WOpen 5, WEmitted] (createWriteStream None))"
  show run: "wrun True [WEnd, WDestroy, WOpen 5, WEmitted] (createWriteStream None) = Some s"
    by (simp add: s_def write_eval)
  then show "wreachable True None s" by (rule wrun_start)
  have "wstopped 5 s" by (simp add: s_def write_eval wstopped_def)
  then show "{s'. (wstep True)\<^sup>*\<^sup>* s s'} \<subseteq> {s'. wf_fd s' = Some 5 \<and> wf_closed s' = []}"
    using wstopped_for_ever by (auto simp: wstopped_def)
  show "EmitFinish \<in> set (history (wf_dest s))" by (simp add: s_def write_eval)
qed

end
