(* ===== verification/Stream_Async.thy ===== *)
theory Stream_Async
  imports Stream_Properties
begin

text \<open>
  The parts of the library that give promises: the async iterator of \<open>Readable\<close> and \<open>finished\<close> (\<open>src/pkg/jsruntime/stream/stream.js\<close>), and the
  async iterator \<open>EventEmitter.on\<close> (\<open>src/pkg/jsruntime/events/events.js\<close>).

  A promise is a number; the promises that are settled are a list of numbers with outcomes, in the order in which they were
  settled. What happens is a list of actions: the events of the stream and the calls of the program. Both iterators
  implement one interface, the locale \<open>value_queue\<close>.
\<close>

section \<open>Values for promises\<close>

datatype 'v outcome = Value 'v | Done | Failed val

fun values_of :: "(nat \<times> 'v outcome) list \<Rightarrow> (nat \<times> 'v) list" where
  "values_of [] = []"
| "values_of ((k, Value v) # ps) = (k, v) # values_of ps"
| "values_of (_ # ps) = values_of ps"

lemma values_of_append [simp]: "values_of (ps @ qs) = values_of ps @ values_of qs"
  by (induction ps rule: values_of.induct) simp_all

lemma values_of_subset: "set (map fst (values_of ps)) \<subseteq> set (map fst ps)"
  by (induction ps rule: values_of.induct) auto

text \<open>The promises of a state: each one that was made is either settled, once, or waiting; and values go to promises in the order in which these were made.\<close>

definition promises_ok :: "(nat \<times> 'v outcome) list \<Rightarrow> nat list \<Rightarrow> nat \<Rightarrow> bool" where
  "promises_ok ps ws n \<longleftrightarrow> distinct (map fst ps @ ws) \<and> set (map fst ps @ ws) = {..<n} \<and> sorted_wrt (<) (map fst (values_of ps) @ ws)"

text \<open>A run of actions, and the values that arrive over it.\<close>

fun run_acts :: "('a \<Rightarrow> 's \<Rightarrow> 's) \<Rightarrow> 'a list \<Rightarrow> 's \<Rightarrow> 's" where
  "run_acts act [] s = s"
| "run_acts act (a # as) s = run_acts act as (act a s)"

fun arrived :: "('s \<Rightarrow> 'a \<Rightarrow> 'v list) \<Rightarrow> ('a \<Rightarrow> 's \<Rightarrow> 's) \<Rightarrow> 'a list \<Rightarrow> 's \<Rightarrow> 'v list" where
  "arrived values_in act [] s = []"
| "arrived values_in act (a # as) s = values_in s a @ arrived values_in act as (act a s)"

text \<open>A state with a queue of values, the waiting promises, the settled promises and the number of promises made. The laws: no value is lost, doubled or overtaken; while a promise waits
  there is no value; and the promises stay in order.\<close>

locale value_queue =
  fixes queue :: "'s \<Rightarrow> 'v list" and waiters :: "'s \<Rightarrow> nat list" and settled :: "'s \<Rightarrow> (nat \<times> 'v outcome) list"
    and made :: "'s \<Rightarrow> nat" and act :: "'a \<Rightarrow> 's \<Rightarrow> 's" and values_in :: "'s \<Rightarrow> 'a \<Rightarrow> 'v list" and start :: 's
  assumes new: "queue start = []" "waiters start = []" "settled start = []" "made start = 0"
    and order: "queue s = [] \<or> waiters s = [] \<Longrightarrow>
      map snd (values_of (settled (act a s))) @ queue (act a s) = map snd (values_of (settled s)) @ queue s @ values_in s a \<and>
      (queue (act a s) = [] \<or> waiters (act a s) = [])"
    and promises: "queue s = [] \<or> waiters s = [] \<Longrightarrow> promises_ok (settled s) (waiters s) (made s) \<Longrightarrow>
      promises_ok (settled (act a s)) (waiters (act a s)) (made (act a s))"
begin

lemma fifo_from:
  "queue s = [] \<or> waiters s = [] \<Longrightarrow> promises_ok (settled s) (waiters s) (made s) \<Longrightarrow>
   map snd (values_of (settled (run_acts act as s))) @ queue (run_acts act as s) = map snd (values_of (settled s)) @ queue s @ arrived values_in act as s \<and>
   (queue (run_acts act as s) = [] \<or> waiters (run_acts act as s) = []) \<and> promises_ok (settled (run_acts act as s)) (waiters (run_acts act as s)) (made (run_acts act as s))"
proof (induction as arbitrary: s)
  case (Cons a as)
  have o: "map snd (values_of (settled (act a s))) @ queue (act a s) = map snd (values_of (settled s)) @ queue s @ values_in s a"
    "queue (act a s) = [] \<or> waiters (act a s) = []" using order [OF Cons.prems(1), of a] by blast+
  have ih: "map snd (values_of (settled (run_acts act as (act a s)))) @ queue (run_acts act as (act a s)) =
      (map snd (values_of (settled (act a s))) @ queue (act a s)) @ arrived values_in act as (act a s)"
    "(queue (run_acts act as (act a s)) = [] \<or> waiters (run_acts act as (act a s)) = []) \<and>
      promises_ok (settled (run_acts act as (act a s))) (waiters (run_acts act as (act a s))) (made (run_acts act as (act a s)))"
    using Cons.IH [OF o(2) promises [OF Cons.prems, of a]] by auto
  show ?case using ih(2) unfolding run_acts.simps arrived.simps ih(1) o(1) by simp
qed simp

lemma fifo:
  "map snd (values_of (settled (run_acts act as start))) @ queue (run_acts act as start) = arrived values_in act as start \<and>
   (queue (run_acts act as start) = [] \<or> waiters (run_acts act as start) = []) \<and>
   promises_ok (settled (run_acts act as start)) (waiters (run_acts act as start)) (made (run_acts act as start))"
  using fifo_from [of start as] by (simp add: new promises_ok_def)

end

lemma promises_deliver:
  "promises_ok ps (w # ws) n \<Longrightarrow> promises_ok (ps @ [(w, Value v)]) ws n"
  by (auto simp: promises_ok_def)

lemma promises_end:
  "promises_ok ps ws n \<Longrightarrow> (\<And>v. f \<noteq> Value v) \<Longrightarrow> promises_ok (ps @ map (\<lambda>w. (w, f)) ws) [] n"
proof -
  assume f: "\<And>v. f \<noteq> Value v"
  have "values_of (map (\<lambda>w. (w, f)) ws) = []" for ws using f by (induction ws) (cases f, auto)+
  then show "promises_ok ps ws n \<Longrightarrow> promises_ok (ps @ map (\<lambda>w. (w, f)) ws) [] n"
    by (auto simp: promises_ok_def sorted_wrt_append comp_def)
qed

lemma promises_ask: "promises_ok ps ws n \<Longrightarrow> promises_ok ps (ws @ [n]) (Suc n)"
  using values_of_subset [of ps] by (auto simp: promises_ok_def sorted_wrt_append lessThan_Suc)

lemma promises_answer: "promises_ok ps [] n \<Longrightarrow> promises_ok (ps @ [(n, Value v)]) [] (Suc n)"
  using values_of_subset [of ps] by (auto simp: promises_ok_def sorted_wrt_append lessThan_Suc)

lemma promises_settle: "promises_ok ps ws n \<Longrightarrow> (\<And>v. f \<noteq> Value v) \<Longrightarrow> promises_ok (ps @ [(n, f)]) ws (Suc n)"
  by (cases f) (auto simp: promises_ok_def lessThan_Suc)

lemma promises_return: "promises_ok ps ws n \<Longrightarrow> promises_ok (ps @ map (\<lambda>w. (w, Done)) ws @ [(n, Done)]) [] (Suc n)"
  using promises_settle [OF promises_end, of ps ws n Done Done] by simp

lemmas promises_simps = promises_return promises_deliver promises_end promises_ask promises_answer promises_settle

section \<open>The async iterator of Readable\<close>

record iter =
  it_queue :: "val list"
  it_waiters :: "nat list"
  it_done :: bool
  it_failed :: val
  it_listening :: bool
  it_made :: nat
  it_settled :: "(nat \<times> val outcome) list"

definition asyncIterator :: iter where
  "asyncIterator = \<lparr>it_queue = [], it_waiters = [], it_done = False, it_failed = VNull, it_listening = True, it_made = 0, it_settled = []\<rparr>"

definition iter_ondata :: "val \<Rightarrow> iter \<Rightarrow> iter" where
  "iter_ondata chunk s = (case it_waiters s of
       w # ws \<Rightarrow> s\<lparr>it_waiters := ws, it_settled := it_settled s @ [(w, Value chunk)]\<rparr>
     | [] \<Rightarrow> s\<lparr>it_queue := it_queue s @ [chunk]\<rparr>)"

definition iter_onend :: "iter \<Rightarrow> iter" where
  "iter_onend s = (if it_done s then s
     else s\<lparr>it_done := True, it_waiters := [], it_settled := it_settled s @ map (\<lambda>w. (w, Done)) (it_waiters s)\<rparr>)"

definition iter_onerror :: "val \<Rightarrow> iter \<Rightarrow> iter" where
  "iter_onerror e s = (if it_done s then s
     else s\<lparr>it_done := True, it_failed := e, it_waiters := [], it_settled := it_settled s @ map (\<lambda>w. (w, Failed e)) (it_waiters s)\<rparr>)"

definition iter_next :: "iter \<Rightarrow> iter" where
  "iter_next s = (let k = it_made s; s' = s\<lparr>it_made := Suc k\<rparr> in
     case it_queue s of
       c # cs \<Rightarrow> s'\<lparr>it_queue := cs, it_settled := it_settled s @ [(k, Value c)]\<rparr>
     | [] \<Rightarrow>
         if it_done s then s'\<lparr>it_settled := it_settled s @ [(k, if truthy (it_failed s) then Failed (it_failed s) else Done)]\<rparr>
         else s'\<lparr>it_waiters := it_waiters s @ [k]\<rparr>)"

text \<open>\<open>return\<close> removes the listeners and leaves the waiting promises where they are.\<close>

definition iter_return :: "iter \<Rightarrow> iter" where
  "iter_return s = s\<lparr>it_listening := False, it_done := True,
     it_made := Suc (it_made s), it_settled := it_settled s @ [(it_made s, Done)]\<rparr>"

datatype iter_action = IData val | IEnd | IError val | INext | IReturn

text \<open>The events reach the iterator while it listens.\<close>

fun iter_act :: "iter_action \<Rightarrow> iter \<Rightarrow> iter" where
  "iter_act (IData c) s = (if it_listening s then iter_ondata c s else s)"
| "iter_act IEnd s = (if it_listening s then iter_onend s else s)"
| "iter_act (IError e) s = (if it_listening s then iter_onerror e s else s)"
| "iter_act INext s = iter_next s"
| "iter_act IReturn s = iter_return s"

fun iter_values :: "iter \<Rightarrow> iter_action \<Rightarrow> val list" where
  "iter_values s (IData c) = (if it_listening s then [c] else [])"
| "iter_values s _ = []"

lemma values_of_plain: "(\<And>v. f \<noteq> Value v) \<Longrightarrow> values_of (map (\<lambda>w. (w, f)) ws) = []"
  by (induction ws) (cases f, auto)+

lemmas iter_defs = iter_ondata_def iter_onend_def iter_onerror_def iter_next_def iter_return_def Let_def

interpretation readable_iterator: value_queue it_queue it_waiters it_settled it_made iter_act iter_values asyncIterator
proof unfold_locales
  fix s :: iter and a
  assume q: "it_queue s = [] \<or> it_waiters s = []"
  show "map snd (values_of (it_settled (iter_act a s))) @ it_queue (iter_act a s) =
      map snd (values_of (it_settled s)) @ it_queue s @ iter_values s a \<and> (it_queue (iter_act a s) = [] \<or> it_waiters (iter_act a s) = [])"
    using q by (cases a) (auto simp: iter_defs values_of_plain split: list.splits)
  show "promises_ok (it_settled s) (it_waiters s) (it_made s) \<Longrightarrow>
      promises_ok (it_settled (iter_act a s)) (it_waiters (iter_act a s)) (it_made (iter_act a s))"
    using q by (cases a) (auto simp: iter_defs promises_simps split: list.splits)
qed (simp_all add: asyncIterator_def)

section \<open>EventEmitter.on\<close>

record emitter_iter =
  ei_queue :: "val list list"
  ei_waiters :: "nat list"
  ei_done :: bool
  ei_listening :: bool
  ei_made :: nat
  ei_settled :: "(nat \<times> val list outcome) list"

definition emitter_iterator :: emitter_iter where
  "emitter_iterator = \<lparr>ei_queue = [], ei_waiters = [], ei_done = False, ei_listening = True, ei_made = 0, ei_settled = []\<rparr>"

definition ei_listener :: "val list \<Rightarrow> emitter_iter \<Rightarrow> emitter_iter" where
  "ei_listener args s = (case ei_waiters s of
       w # ws \<Rightarrow> s\<lparr>ei_waiters := ws, ei_settled := ei_settled s @ [(w, Value args)]\<rparr>
     | [] \<Rightarrow> s\<lparr>ei_queue := ei_queue s @ [args]\<rparr>)"

definition ei_next :: "emitter_iter \<Rightarrow> emitter_iter" where
  "ei_next s = (let k = ei_made s; s' = s\<lparr>ei_made := Suc k\<rparr> in
     case ei_queue s of
       x # xs \<Rightarrow> s'\<lparr>ei_queue := xs, ei_settled := ei_settled s @ [(k, Value x)]\<rparr>
     | [] \<Rightarrow> if ei_done s then s'\<lparr>ei_settled := ei_settled s @ [(k, Done)]\<rparr> else s'\<lparr>ei_waiters := ei_waiters s @ [k]\<rparr>)"

definition ei_return :: "emitter_iter \<Rightarrow> emitter_iter" where
  "ei_return s = s\<lparr>ei_done := True, ei_listening := False, ei_waiters := [], ei_made := Suc (ei_made s),
     ei_settled := (ei_settled s @ map (\<lambda>w. (w, Done)) (ei_waiters s)) @ [(ei_made s, Done)]\<rparr>"

datatype ei_action = EEvent "val list" | ENext | EReturn

fun ei_act :: "ei_action \<Rightarrow> emitter_iter \<Rightarrow> emitter_iter" where
  "ei_act (EEvent args) s = (if ei_listening s then ei_listener args s else s)"
| "ei_act ENext s = ei_next s"
| "ei_act EReturn s = ei_return s"

fun ei_values :: "emitter_iter \<Rightarrow> ei_action \<Rightarrow> val list list" where
  "ei_values s (EEvent args) = (if ei_listening s then [args] else [])"
| "ei_values s _ = []"

lemmas ei_defs = ei_listener_def ei_next_def ei_return_def Let_def

interpretation emitter_values: value_queue ei_queue ei_waiters ei_settled ei_made ei_act ei_values emitter_iterator
proof unfold_locales
  fix s :: emitter_iter and a
  assume q: "ei_queue s = [] \<or> ei_waiters s = []"
  show "map snd (values_of (ei_settled (ei_act a s))) @ ei_queue (ei_act a s) =
      map snd (values_of (ei_settled s)) @ ei_queue s @ ei_values s a \<and> (ei_queue (ei_act a s) = [] \<or> ei_waiters (ei_act a s) = [])"
    using q by (cases a) (auto simp: ei_defs values_of_plain split: list.splits)
  show "promises_ok (ei_settled s) (ei_waiters s) (ei_made s) \<Longrightarrow>
      promises_ok (ei_settled (ei_act a s)) (ei_waiters (ei_act a s)) (ei_made (ei_act a s))"
    using q by (cases a) (auto simp: ei_defs promises_simps split: list.splits)
qed (simp_all add: emitter_iterator_def)

section \<open>What the iterators promise\<close>

text \<open>C21: Both async iterators hand out the values in the order in which they arrive and lose none: the values given to promises, followed by those in the queue, are the values that arrived while
  the iterator was listening; they go to the promises of \<open>next\<close> in the order of the calls, each promise is settled at most once, every one is settled or waiting, and none waits while there is a value.\<close>

theorem async_iterators_fifo:
  "(let s = run_acts iter_act as asyncIterator in
      map snd (values_of (it_settled s)) @ it_queue s = arrived iter_values iter_act as asyncIterator \<and>
      (it_queue s = [] \<or> it_waiters s = []) \<and> promises_ok (it_settled s) (it_waiters s) (it_made s)) \<and>
   (let s = run_acts ei_act es emitter_iterator in
      map snd (values_of (ei_settled s)) @ ei_queue s = arrived ei_values ei_act es emitter_iterator \<and>
      (ei_queue s = [] \<or> ei_waiters s = []) \<and> promises_ok (ei_settled s) (ei_waiters s) (ei_made s))"
  using readable_iterator.fifo [of as] emitter_values.fifo [of es] by (simp add: Let_def)

lemma run_acts_append: "run_acts act (as @ bs) s = run_acts act bs (run_acts act as s)"
  by (induction as arbitrary: s) simp_all

lemma iter_stays_returned:
  "\<not> it_listening s \<Longrightarrow> it_done s \<Longrightarrow>
   it_waiters (run_acts iter_act as s) = it_waiters s \<and> \<not> it_listening (run_acts iter_act as s) \<and> it_done (run_acts iter_act as s)"
proof (induction as arbitrary: s)
  case (Cons a as)
  have "it_waiters (iter_act a s) = it_waiters s \<and> \<not> it_listening (iter_act a s) \<and> it_done (iter_act a s)"
    using Cons.prems by (cases a) (auto simp: iter_defs split: list.splits)
  then show ?case using Cons.IH [of "iter_act a s"] by simp
qed simp

text \<open>\<open>return\<close> of the iterator of a Readable leaves a promise that a call of \<open>next\<close> is waiting for unsettled for ever, whatever the stream and the program do
  later; the iterator of an EventEmitter settles all of them.\<close>

theorem return_abandons_waiting_promises:
  "it_waiters (run_acts iter_act ([INext, IReturn] @ as) asyncIterator) = [0] \<and>
   0 \<notin> fst ` set (it_settled (run_acts iter_act ([INext, IReturn] @ as) asyncIterator)) \<and>
   ei_waiters (run_acts ei_act (es @ [EReturn]) emitter_iterator) = []"
proof -
  let ?s = "run_acts iter_act [INext, IReturn] asyncIterator"
  have w: "it_waiters (run_acts iter_act ([INext, IReturn] @ as) asyncIterator) = [0]"
    unfolding run_acts_append using iter_stays_returned [of ?s as] by (simp add: iter_defs asyncIterator_def)
  have "distinct (map fst (it_settled (run_acts iter_act ([INext, IReturn] @ as) asyncIterator)) @ [0])"
    using readable_iterator.fifo [of "[INext, IReturn] @ as"] unfolding w promises_ok_def by blast
  with w show ?thesis by (auto simp: run_acts_append ei_return_def)
qed

section \<open>finished\<close>

text \<open>The getters it reads; on a stream without the side they are undefined, which is falsy.\<close>

definition readableEnded :: "stream \<Rightarrow> bool" where
  "readableEnded ob \<longleftrightarrow> has_r ob \<and> r_endEmitted (rstate ob)"

definition writableFinished :: "stream \<Rightarrow> bool" where
  "writableFinished ob \<longleftrightarrow> has_w ob \<and> w_finished (wstate ob)"

definition errored_of :: "stream \<Rightarrow> val" where
  "errored_of ob = (if has_w ob then w_errored (wstate ob) else r_errored (rstate ob))"

definition premature :: "stream \<Rightarrow> val" where
  "premature ob = (if truthy (errored_of ob) then errored_of ob else VErr Error ''premature close'')"

text \<open>The variables of one call: \<open>fin_events\<close> are the events of the stream it listens to, \<open>fin_result\<close> how the promise is settled (an inner \<open>None\<close> is a resolution).\<close>

record fin =
  fin_readable :: bool
  fin_writable :: bool
  fin_cleanup :: bool
  fin_done :: bool
  fin_result :: "val option option"
  fin_events :: "evname list"

definition settle :: "val \<Rightarrow> fin \<Rightarrow> fin" where
  "settle e f = (if fin_done f then f
     else f\<lparr>fin_done := True, fin_events := (if fin_cleanup f then [] else fin_events f),
       fin_result := Some (if truthy e then Some e else None)\<rparr>)"

definition fin_onclose :: "stream \<Rightarrow> fin \<Rightarrow> fin" where
  "fin_onclose ob f = (if fin_readable f \<and> readableEnded ob \<or> fin_writable f \<and> writableFinished ob then settle VUndef f else settle (premature ob) f)"

text \<open>An event of the stream: its listener runs if it is registered.\<close>

definition fin_event :: "evname \<Rightarrow> val \<Rightarrow> stream \<Rightarrow> fin \<Rightarrow> fin" where
  "fin_event ev x ob f = (if ev \<notin> set (fin_events f) then f
     else case ev of EvError \<Rightarrow> settle x f | EvEnd \<Rightarrow> settle VUndef f | EvFinish \<Rightarrow> settle VUndef f | EvClose \<Rightarrow> fin_onclose ob f | _ \<Rightarrow> f)"

text \<open>The call itself. Every stream has a method \<open>pipe\<close>, and those with a writable side have \<open>write\<close>. An option \<open>signal\<close> is aborted or is not; its listener is registered with \<open>on\<close>.\<close>

datatype signal_option = NoSignal | AbortedSignal | LiveSignal bool \<comment> \<open>whether it has a method \<open>on\<close>\<close>

definition finished :: "bool \<Rightarrow> bool \<Rightarrow> bool \<Rightarrow> signal_option \<Rightarrow> stream \<Rightarrow> val + fin" where
  "finished readable writable cleanup sig ob =
     (let w = (writable \<and> has_w ob);
          f = \<lparr>fin_readable = readable, fin_writable = w, fin_cleanup = cleanup, fin_done = False, fin_result = None,
               fin_events = [EvError] @ (if readable then [EvEnd] else []) @ (if w then [EvFinish] else []) @ [EvClose]\<rparr>;
          g = (if sig = AbortedSignal then settle (VErr Error ''The operation was aborted'') f else f)
      in if sig = LiveSignal False then Inl (VErr TypeError ''not a function'')
         else Inr (if is_destroyed ob \<and> \<not> readableEnded ob \<and> \<not> writableFinished ob then settle (premature ob) g
                   else if readable \<and> readableEnded ob \<or> w \<and> writableFinished ob then settle VUndef g else g))"

definition fin_abort :: "fin \<Rightarrow> fin" where
  "fin_abort f = settle (VErr Error ''The operation was aborted'') f"

datatype fin_action = FEvent evname val stream | FAbort

fun fin_act :: "fin_action \<Rightarrow> fin \<Rightarrow> fin" where
  "fin_act (FEvent ev x ob) f = fin_event ev x ob f"
| "fin_act FAbort f = fin_abort f"

text \<open>What the stream guarantees of its events: it emits \<open>end\<close> and \<open>finish\<close> with the flags set, and \<open>error\<close> with an error.\<close>

fun honest :: "fin_action \<Rightarrow> bool" where
  "honest (FEvent ev x ob) = ((ev = EvEnd \<longrightarrow> readableEnded ob) \<and> (ev = EvFinish \<longrightarrow> writableFinished ob) \<and> (ev = EvError \<longrightarrow> truthy x))"
| "honest FAbort = True"

lemma stream_is_honest:
  "has_r ob \<Longrightarrow> fst (emitEnd_begin ob) \<Longrightarrow> honest (FEvent EvEnd x (snd (emitEnd_begin ob)))"
  "has_w ob \<Longrightarrow> fst (finish_begin ob) \<Longrightarrow> honest (FEvent EvFinish x (snd (finish_begin ob)))"
  by (auto simp: emitEnd_begin_def finish_begin_def readableEnded_def writableFinished_def split: if_splits)

definition was_complete :: "stream \<Rightarrow> bool" where
  "was_complete ob \<longleftrightarrow> readableEnded ob \<or> writableFinished ob"

fun action_stream :: "fin_action \<Rightarrow> stream list" where
  "action_stream (FEvent ev x ob) = [ob]"
| "action_stream FAbort = []"

definition fin_ok :: "stream list \<Rightarrow> fin \<Rightarrow> bool" where
  "fin_ok obs f \<longleftrightarrow> (fin_done f \<longleftrightarrow> fin_result f \<noteq> None) \<and> (fin_result f = Some None \<longrightarrow> (\<exists>ob\<in>set obs. was_complete ob)) \<and>
     (\<not> fin_done f \<longrightarrow> EvError \<in> set (fin_events f) \<and> EvClose \<in> set (fin_events f))"

lemma fin_ok_settle: "fin_ok obs f \<Longrightarrow> truthy e \<or> (\<exists>ob\<in>set obs'. was_complete ob) \<Longrightarrow> fin_ok (obs @ obs') (settle e f)"
  by (auto simp: fin_ok_def settle_def)

lemma premature_truthy: "truthy (premature ob)"
  by (simp add: premature_def)

lemma fin_ok_more: "fin_ok obs f \<Longrightarrow> fin_ok (obs @ obs') f"
  by (auto simp: fin_ok_def)

lemma fin_ok_act: "fin_ok obs f \<Longrightarrow> honest a \<Longrightarrow> fin_ok (obs @ action_stream a) (fin_act a f)"
proof (cases a)
  case (FEvent ev x ob)
  assume f: "fin_ok obs f" and h: "honest a"
  have s: "fin_ok (obs @ [ob]) (settle e f)" if "truthy e \<or> was_complete ob" for e using fin_ok_settle [OF f, of e "[ob]"] that by simp
  have "fin_ok (obs @ [ob]) (fin_onclose ob f)" using s premature_truthy by (auto simp: fin_onclose_def was_complete_def)
  then show ?thesis using FEvent h s fin_ok_more [OF f]
    by (cases ev) (auto simp: fin_event_def was_complete_def)
next
  case FAbort
  assume "fin_ok obs f"
  then show ?thesis using FAbort fin_ok_settle [of obs f _ "[]"] by (simp add: fin_abort_def)
qed

lemma fin_ok_run: "fin_ok obs f \<Longrightarrow> list_all honest as \<Longrightarrow> fin_ok (obs @ concat (map action_stream as)) (run_acts fin_act as f)"
proof (induction as arbitrary: obs f)
  case (Cons a as)
  then show ?case using fin_ok_act [of obs f a] Cons.IH [of "obs @ action_stream a" "fin_act a f"] by simp
qed simp

lemma fin_done_stays: "fin_done f \<Longrightarrow> fin_result (run_acts fin_act as f) = fin_result f \<and> fin_done (run_acts fin_act as f)"
proof (induction as arbitrary: f)
  case (Cons a as)
  then have "fin_act a f = f" by (cases a) (auto simp: fin_event_def fin_onclose_def fin_abort_def settle_def split: evname.split)
  then show ?case using Cons by simp
qed simp

text \<open>C22: \<open>finished\<close> settles its promise once and for good: whatever events follow, the result stays; it resolves only if the stream has ended or finished, at the call or at an event; and after the stream has
  emitted \<open>close\<close> the promise is settled.\<close>

theorem finished_settles_once:
  assumes "finished readable writable cleanup sig ob = Inr f" and "list_all honest as" and "list_all honest bs"
  shows "(fin_done (run_acts fin_act as f) \<longrightarrow> fin_result (run_acts fin_act (as @ bs) f) = fin_result (run_acts fin_act as f)) \<and>
    (fin_result (run_acts fin_act as f) = Some None \<longrightarrow> (\<exists>ob'\<in>set (ob # concat (map action_stream as)). was_complete ob')) \<and>
    fin_result (run_acts fin_act (as @ [FEvent EvClose x ob']) f) \<noteq> None"
proof -
  have "fin_ok [ob] f"
    using assms(1) premature_truthy [of ob]
    by (auto simp: finished_def fin_ok_def settle_def was_complete_def Let_def split: if_splits)
  then have ok: "fin_ok (ob # concat (map action_stream as)) (run_acts fin_act as f)" using fin_ok_run assms(2) by fastforce
  then have "fin_done (fin_event EvClose x ob' (run_acts fin_act as f)) \<and> fin_result (fin_event EvClose x ob' (run_acts fin_act as f)) \<noteq> None"
    by (auto simp: fin_ok_def fin_event_def fin_onclose_def settle_def)
  then show ?thesis using ok fin_done_stays [of "run_acts fin_act as f" bs] by (auto simp: fin_ok_def run_acts_append)
qed

definition ended_stream :: stream where
  "ended_stream = snd (emitEnd_begin (new_Readable no_options))"

theorem finished_settles_once_witness:
  "\<exists>f. finished True True False NoSignal (new_Readable no_options) = Inr f \<and> \<not> fin_done f \<and>
     fin_result (run_acts fin_act ([FEvent EvEnd VUndef ended_stream] @ [FEvent EvError (VErr Error ''late'') ended_stream]) f) = Some None"
proof -
  let ?f = "\<lparr>fin_readable = True, fin_writable = False, fin_cleanup = False, fin_done = False, fin_result = None, fin_events = [EvError, EvEnd, EvClose]\<rparr>"
  have f: "finished True True False NoSignal (new_Readable no_options) = Inr ?f"
    by (simp add: finished_def new_Readable_def bare_stream_def initReadableState_def is_destroyed_def readableEnded_def writableFinished_def Let_def)
  have h: "list_all honest [FEvent EvEnd VUndef ended_stream]" "list_all honest [FEvent EvError (VErr Error ''late'') ended_stream]"
    by (simp_all add: ended_stream_def emitEnd_begin_def readableEnded_def new_Readable_def bare_stream_def initReadableState_def)
  have "fin_done (run_acts fin_act [FEvent EvEnd VUndef ended_stream] ?f)" "fin_result (run_acts fin_act [FEvent EvEnd VUndef ended_stream] ?f) = Some None"
    by (simp_all add: fin_event_def settle_def)
  then show ?thesis using f finished_settles_once [OF f h] by (intro exI [of _ ?f]) simp
qed

end
