(* ===== verification/Buffers.thy ===== *)
theory Buffers
  imports Complex_Main JS_Prelude "HOL-Library.Sublist" "HOL-Library.List_Lexorder"
begin

text \<open>
  The class \<open>Buffer\<close> of \<open>src/pkg/jsruntime/buffer/buffer.js\<close>: integers in both byte orders, comparison, search, fill, write, copy,
  concatenation and byte swapping.

  A buffer is the list of its bytes; a method that changes the buffer returns the new one. Where two buffers may share memory (\<open>copy\<close>), they are
  windows of one memory. An offset or a length is a \<open>jsnum\<close>: an integer, NaN or an infinity; fractions, which the code refuses or
  truncates there, are not modelled. The value that a writer stores is a \<open>js_value\<close>: a finite Number, which is a rational, a BigInt, or
  anything else. The reads and writes of \<open>DataView\<close> are those of the language: the bytes of the truncated number in two's complement. The
  strings were already converted to bytes by the native coder.
\<close>

unbundle bit_operations_syntax

datatype buffer_error = RangeError | TypeError

type_synonym 'a res = "buffer_error + 'a"

definition is_int :: "jsnum \<Rightarrow> bool" where
  "is_int x = (case x of Fin _ \<Rightarrow> True | _ \<Rightarrow> False)"

definition int_of :: "jsnum \<Rightarrow> int" where
  "int_of x = (case x of Fin n \<Rightarrow> n | _ \<Rightarrow> 0)"

definition buffer_size :: "jsnum \<Rightarrow> nat res" where
  "buffer_size n = (if \<not> is_int n \<or> int_of n < 0 \<or> 2147483647 < int_of n then Inl RangeError else Inr (nat (int_of n)))"

text \<open>\<open>bounds(b, o, n)\<close>: whether it does not throw.\<close>

definition bounds :: "bytes \<Rightarrow> jsnum \<Rightarrow> jsnum \<Rightarrow> bool" where
  "bounds b o1 n \<longleftrightarrow> is_int o1 \<and> is_int n \<and> 0 \<le> int_of n \<and> 0 \<le> int_of o1 \<and> int_of o1 + int_of n \<le> int (length b)"

section \<open>Integers\<close>

text \<open>The value of bytes in the little-endian order, and the bytes of a value.\<close>

fun le_value :: "bytes \<Rightarrow> int" where
  "le_value [] = 0"
| "le_value (b # bs) = uint b + 256 * le_value bs"

fun le_bytes :: "nat \<Rightarrow> int \<Rightarrow> bytes" where
  "le_bytes 0 v = []"
| "le_bytes (Suc n) v = word_of_int (v mod 256) # le_bytes n (v div 256)"

definition as_signed :: "nat \<Rightarrow> int \<Rightarrow> int" where
  "as_signed n v = (if 2 ^ (8 * n - 1) \<le> v then v - 2 ^ (8 * n) else v)"

definition window :: "nat \<Rightarrow> nat \<Rightarrow> bytes \<Rightarrow> bytes" where
  "window i n b = take n (drop i b)"

definition put :: "nat \<Rightarrow> bytes \<Rightarrow> bytes \<Rightarrow> bytes" where
  "put i new b = take i b @ new @ drop (i + length new) b"

text \<open>\<open>DataView\<close>: \<open>getUintN\<close>, \<open>getIntN\<close>, \<open>setUintN\<close> and \<open>setIntN\<close> for \<open>n\<close> bytes.\<close>

definition dv_get :: "bool \<Rightarrow> bool \<Rightarrow> nat \<Rightarrow> nat \<Rightarrow> bytes \<Rightarrow> int" where
  "dv_get little sgnd n i b =
     (let w = window i n b; v = le_value (if little then w else rev w) in if sgnd then as_signed n v else v)"

definition dv_set :: "bool \<Rightarrow> nat \<Rightarrow> nat \<Rightarrow> int \<Rightarrow> bytes \<Rightarrow> bytes" where
  "dv_set little n i v b = put i (let bs = le_bytes n (v mod 2 ^ (8 * n)) in if little then bs else rev bs) b"

definition int_min :: "bool \<Rightarrow> nat \<Rightarrow> int" where
  "int_min sgnd n = (if sgnd then - (2 ^ (8 * n - 1)) else 0)"

definition int_max :: "bool \<Rightarrow> nat \<Rightarrow> int" where
  "int_max sgnd n = (if sgnd then 2 ^ (8 * n - 1) - 1 else 2 ^ (8 * n) - 1)"

text \<open>The values: \<open>Number\<close> is a finite Number, \<open>OtherValue\<close> is NaN, an infinity or no number at all. Where the code adds \<open>2 ^ (8 * n)\<close>
  to a negative Number that is not below \<open>- 2 ^ (8 * n - 1)\<close>, the sum is rounded to a multiple of \<open>1 / 2 ^ (53 - 8 * n)\<close>, ties to even, as
  doubles of that size are.\<close>

datatype js_value = Number rat | BigInt int | OtherValue

definition trunc :: "rat \<Rightarrow> int" where
  "trunc x = (if x < 0 then \<lceil>x\<rceil> else \<lfloor>x\<rfloor>)"

definition to_uint8 :: "rat \<Rightarrow> byte" where
  "to_uint8 x = word_of_int (trunc x)"

text \<open>\<open>x % 256\<close> has the sign of \<open>x\<close>.\<close>

definition num_rem :: "rat \<Rightarrow> rat" where
  "num_rem x = x - 256 * of_int (trunc (x / 256))"

definition round_even :: "rat \<Rightarrow> int" where
  "round_even x = (let f = \<lfloor>x\<rfloor>; d = x - of_int f in
     if d < 1 / 2 then f else if 1 / 2 < d then f + 1 else if even f then f else f + 1)"

definition double_sum :: "nat \<Rightarrow> rat \<Rightarrow> rat" where
  "double_sum n x = of_int (round_even ((x + 2 ^ (8 * n)) * 2 ^ (53 - 8 * n))) / 2 ^ (53 - 8 * n)"

definition number_in :: "bool \<Rightarrow> nat \<Rightarrow> rat \<Rightarrow> bool" where
  "number_in sgnd n x \<longleftrightarrow> of_int (int_min sgnd n) \<le> x \<and> x \<le> of_int (int_max sgnd n)"

text \<open>The methods \<open>readInt8\<close> to \<open>readBigUInt64LE\<close>, and \<open>writeInt8\<close> to \<open>writeBigUInt64LE\<close>: \<open>n\<close> is 1, 2, 4 or 8.\<close>

definition read_fixed :: "bool \<Rightarrow> bool \<Rightarrow> nat \<Rightarrow> jsnum \<Rightarrow> bytes \<Rightarrow> int res" where
  "read_fixed little sgnd n o1 b =
     (if bounds b o1 (Fin (int n)) then Inr (dv_get little sgnd n (nat (int_of o1)) b) else Inl RangeError)"

text \<open>The test of the value, and the integer that is stored.\<close>

definition fixed_value :: "bool \<Rightarrow> nat \<Rightarrow> js_value \<Rightarrow> int option" where
  "fixed_value sgnd n v = (case v of
       BigInt x \<Rightarrow> if n = 8 \<and> int_min sgnd n \<le> x \<and> x \<le> int_max sgnd n then Some x else None
     | Number x \<Rightarrow> if n \<noteq> 8 \<and> number_in sgnd n x then Some (trunc x) else None
     | OtherValue \<Rightarrow> None)"

definition write_fixed :: "bool \<Rightarrow> bool \<Rightarrow> nat \<Rightarrow> js_value \<Rightarrow> jsnum \<Rightarrow> bytes \<Rightarrow> (int \<times> bytes) res" where
  "write_fixed little sgnd n v o1 b =
     (if \<not> bounds b o1 (Fin (int n)) then Inl RangeError
      else case fixed_value sgnd n v of
        None \<Rightarrow> Inl RangeError
      | Some x \<Rightarrow> Inr (int_of o1 + int n, dv_set little n (nat (int_of o1)) x b))"

text \<open>\<open>readIntLE\<close>, \<open>readIntBE\<close>, \<open>readUIntLE\<close> and \<open>readUIntBE\<close> with their loop.\<close>

fun read_loop :: "bool \<Rightarrow> nat \<Rightarrow> nat \<Rightarrow> nat \<Rightarrow> int \<Rightarrow> bytes \<Rightarrow> int" where
  "read_loop little o1 n 0 v b = v"
| "read_loop little o1 n (Suc k) v b =
     (let i = n - Suc k in read_loop little o1 n k (v * 256 + uint (b ! (o1 + (if little then n - i - 1 else i)))) b)"

definition read_int :: "bool \<Rightarrow> bool \<Rightarrow> jsnum \<Rightarrow> jsnum \<Rightarrow> bytes \<Rightarrow> int res" where
  "read_int little sgnd o1 n b =
     (if \<not> is_int n \<or> int_of n < 1 \<or> 6 < int_of n then Inl RangeError
      else if \<not> bounds b o1 n then Inl RangeError
      else let k = nat (int_of n); v = read_loop little (nat (int_of o1)) k k 0 b
        in Inr (if sgnd \<and> 2 ^ (8 * k - 1) \<le> v then v - 2 ^ (8 * k) else v))"

fun write_loop :: "bool \<Rightarrow> nat \<Rightarrow> nat \<Rightarrow> nat \<Rightarrow> rat \<Rightarrow> bytes \<Rightarrow> bytes" where
  "write_loop little o1 n 0 v b = b"
| "write_loop little o1 n (Suc k) v b =
     (let i = n - Suc k in
      write_loop little o1 n k (of_int \<lfloor>v / 256\<rfloor>) (b[o1 + (if little then i else n - i - 1) := to_uint8 (num_rem v)]))"

definition write_int :: "bool \<Rightarrow> bool \<Rightarrow> js_value \<Rightarrow> jsnum \<Rightarrow> jsnum \<Rightarrow> bytes \<Rightarrow> (int \<times> bytes) res" where
  "write_int little sgnd v o1 n b =
     (if \<not> is_int n \<or> int_of n < 1 \<or> 6 < int_of n then Inl RangeError
      else if \<not> bounds b o1 n then Inl RangeError
      else let k = nat (int_of n) in
        case v of
          Number x \<Rightarrow> if \<not> number_in sgnd k x then Inl RangeError
            else Inr (int_of o1 + int_of n, write_loop little (nat (int_of o1)) k k (if x < 0 then double_sum k x else x) b)
        | _ \<Rightarrow> Inl RangeError)"

section \<open>Comparison and search\<close>

text \<open>\<open>Buffer.compare\<close>: the loop over the common positions, then the lengths.\<close>

fun compare_loop :: "bytes \<Rightarrow> bytes \<Rightarrow> nat \<Rightarrow> nat \<Rightarrow> int option" where
  "compare_loop a b i 0 = None"
| "compare_loop a b i (Suc k) = (if a ! i \<noteq> b ! i then Some (if a ! i < b ! i then -1 else 1) else compare_loop a b (Suc i) k)"

definition compare :: "bytes \<Rightarrow> bytes \<Rightarrow> int" where
  "compare a b = (case compare_loop a b 0 (min (length a) (length b)) of
       Some r \<Rightarrow> r | None \<Rightarrow> if length a = length b then 0 else if length a < length b then -1 else 1)"

definition equals :: "bytes \<Rightarrow> bytes \<Rightarrow> bool" where
  "equals a b \<longleftrightarrow> compare a b = 0"

text \<open>The inner loop of \<open>_find\<close>: how many bytes of \<open>v\<close> agree with the buffer from position \<open>i\<close> on. A read behind the end of a
  typed array gives undefined, which equals no byte.\<close>

fun match_loop :: "bytes \<Rightarrow> bytes \<Rightarrow> nat \<Rightarrow> nat \<Rightarrow> nat \<Rightarrow> nat" where
  "match_loop b v i j 0 = j"
| "match_loop b v i j (Suc k) = (if i + j < length b \<and> b ! (i + j) = v ! j then match_loop b v i (Suc j) k else j)"

definition matches :: "bytes \<Rightarrow> bytes \<Rightarrow> nat \<Rightarrow> bool" where
  "matches b v i \<longleftrightarrow> match_loop b v i 0 (length v) = length v"

text \<open>The two outer loops; \<open>k\<close> is the number of positions left.\<close>

fun find_up :: "bytes \<Rightarrow> bytes \<Rightarrow> nat \<Rightarrow> nat \<Rightarrow> int" where
  "find_up b v i 0 = -1"
| "find_up b v i (Suc k) = (if matches b v i then int i else find_up b v (Suc i) k)"

fun find_down :: "bytes \<Rightarrow> bytes \<Rightarrow> nat \<Rightarrow> int" where
  "find_down b v 0 = -1"
| "find_down b v (Suc i) = (if matches b v i then int i else find_down b v i)"

definition find_offset :: "int option \<Rightarrow> bool \<Rightarrow> bytes \<Rightarrow> nat" where
  "find_offset o1 reverse b = (case o1 of
       None \<Rightarrow> if reverse then length b else 0
     | Some k \<Rightarrow> if k < 0 then nat (max 0 (int (length b) + k)) else nat k)"

definition find_in :: "bytes \<Rightarrow> int option \<Rightarrow> bool \<Rightarrow> bytes \<Rightarrow> int" where
  "find_in v o1 reverse b = (let i = find_offset o1 reverse b in
     if v = [] then int (min i (length b))
     else if reverse then (if length b < length v then -1 else find_down b v (Suc (min i (length b - length v))))
     else (if length b < length v + i then -1 else find_up b v i (length b - length v + 1 - i)))"

definition indexOf :: "bytes \<Rightarrow> int option \<Rightarrow> bytes \<Rightarrow> int" where
  "indexOf v o1 b = find_in v o1 False b"

definition lastIndexOf :: "bytes \<Rightarrow> int option \<Rightarrow> bytes \<Rightarrow> int" where
  "lastIndexOf v o1 b = find_in v o1 True b"

definition includes_bytes :: "bytes \<Rightarrow> int option \<Rightarrow> bytes \<Rightarrow> bool" where
  "includes_bytes v o1 b \<longleftrightarrow> indexOf v o1 b \<noteq> -1"

section \<open>Changing bytes\<close>

text \<open>The loop of \<open>fill\<close> with a pattern of bytes, and what \<open>fill\<close> is given.\<close>

fun fill_loop :: "nat \<Rightarrow> bytes \<Rightarrow> nat \<Rightarrow> nat \<Rightarrow> bytes \<Rightarrow> bytes" where
  "fill_loop start p i 0 b = b"
| "fill_loop start p i (Suc k) b = fill_loop start p (Suc i) k (b[i := p ! ((i - start) mod length p)])"

datatype fill_value =
    FNum "rat option" \<comment> \<open>a Number, finite or not\<close>
  | FStr bool bytes \<comment> \<open>whether the string is empty, and its bytes\<close>
  | FBuf bytes \<comment> \<open>a Buffer in other memory; one in the same memory is read while it changes, see \<open>fill_buffer\<close> in \<open>Buffer_Memory\<close>\<close>

definition fill_length :: "jsnum \<Rightarrow> jsnum \<Rightarrow> jsnum" where
  "fill_length start fin = (case num_sub fin start of Fin k \<Rightarrow> Fin (max 0 k) | NInf \<Rightarrow> Fin 0 | x \<Rightarrow> x)"

text \<open>\<open>fill\<close> of the language, for a start inside the array: a negative end counts from the end of the array.\<close>

definition native_fill :: "byte \<Rightarrow> nat \<Rightarrow> jsnum \<Rightarrow> bytes \<Rightarrow> bytes" where
  "native_fill x start fin b =
     (let e = (case fin of Fin k \<Rightarrow> if k < 0 then nat (max 0 (int (length b) + k)) else min (nat k) (length b) | PInf \<Rightarrow> length b | _ \<Rightarrow> 0)
      in if start < e then put start (replicate (e - start) x) b else b)"

definition fill :: "fill_value \<Rightarrow> jsnum option \<Rightarrow> jsnum option \<Rightarrow> bytes \<Rightarrow> bytes res" where
  "fill v start0 end0 b =
     (let start = (case start0 of None \<Rightarrow> Fin 0 | Some x \<Rightarrow> x); fin = (case end0 of None \<Rightarrow> Fin (int (length b)) | Some x \<Rightarrow> x);
          len = fill_length start fin; i = nat (int_of start)
      in if \<not> bounds b start len then Inl RangeError
         else case v of
           FNum x \<Rightarrow> Inr (native_fill (case x of None \<Rightarrow> 0 | Some y \<Rightarrow> to_uint8 y) i fin b)
         | FStr blank p \<Rightarrow>
             if p \<noteq> [] then Inr (fill_loop i p i (nat (int_of len)) b)
             else if blank then Inr (native_fill 0 i fin b) else Inl TypeError
         | FBuf p \<Rightarrow> if p \<noteq> [] then Inr (fill_loop i p i (nat (int_of len)) b) else Inl TypeError)"

text \<open>\<open>write\<close> of a string with the encoding UTF-8: \<open>s\<close> is the decoded string. The loop takes back bytes of a character that does not fit.\<close>

fun back_up :: "bytes \<Rightarrow> nat \<Rightarrow> nat" where
  "back_up s 0 = 0"
| "back_up s (Suc n) = (if s ! Suc n AND 192 = 128 then back_up s n else Suc n)"

definition write_count :: "bool \<Rightarrow> nat \<Rightarrow> bytes \<Rightarrow> nat" where
  "write_count utf8 n s = (let count = min n (length s) in if utf8 \<and> count < length s then back_up s count else count)"

definition write_string :: "bool \<Rightarrow> bytes \<Rightarrow> jsnum option \<Rightarrow> jsnum option \<Rightarrow> bytes \<Rightarrow> (nat \<times> bytes) res" where
  "write_string utf8 s o0 n0 b =
     (let o1 = (case o0 of None \<Rightarrow> Fin 0 | Some x \<Rightarrow> x); n = (case n0 of None \<Rightarrow> num_sub (Fin (int (length b))) o1 | Some x \<Rightarrow> x)
      in if \<not> bounds b o1 n then Inl RangeError
         else let count = write_count utf8 (nat (int_of n)) s in Inr (count, put (nat (int_of o1)) (take count s) b))"

text \<open>\<open>copy\<close> between two windows of one memory: where they start and how long they are.\<close>

record view =
  v_off :: nat
  v_len :: nat

definition view_bytes :: "view \<Rightarrow> bytes \<Rightarrow> bytes" where
  "view_bytes w mem = window (v_off w) (v_len w) mem"

definition copy :: "view \<Rightarrow> view \<Rightarrow> int option \<Rightarrow> int option \<Rightarrow> int option \<Rightarrow> bytes \<Rightarrow> (nat \<times> bytes) res" where
  "copy this target ts0 ss0 se0 mem =
     (let ts = (case ts0 of None \<Rightarrow> 0 | Some x \<Rightarrow> x); ss = (case ss0 of None \<Rightarrow> 0 | Some x \<Rightarrow> x);
          se = (case se0 of None \<Rightarrow> int (v_len this) | Some x \<Rightarrow> x)
      in if ts < 0 \<or> ss < 0 \<or> se < 0 then Inl RangeError
         else let n = nat (max 0 (min (se - ss) (min (int (v_len this) - ss) (int (v_len target) - ts))))
           in Inr (n, if 0 < n then put (v_off target + nat ts) (window (v_off this + nat ss) n mem) mem else mem))"

text \<open>\<open>Buffer.concat(list, total)\<close>.\<close>

fun concat_loop :: "bytes list \<Rightarrow> nat \<Rightarrow> nat \<Rightarrow> bytes \<Rightarrow> bytes" where
  "concat_loop [] tot i b = b"
| "concat_loop (p # ps) tot i b = (let n = min (length p) (tot - i) in
     if n = 0 then b else concat_loop ps tot (i + n) (put i (take n p) b))"

definition concat_buffers :: "bytes list \<Rightarrow> jsnum option \<Rightarrow> bytes res" where
  "concat_buffers ps total0 =
     (case buffer_size (case total0 of None \<Rightarrow> Fin (int (sum_list (map length ps))) | Some t \<Rightarrow> t) of
        Inl e \<Rightarrow> Inl e
      | Inr tot \<Rightarrow> Inr (concat_loop ps tot 0 (replicate tot 0)))"

text \<open>\<open>swap16\<close>, \<open>swap32\<close> and \<open>swap64\<close>: the exchange of two bytes, and the two loops.\<close>

definition swap_two :: "nat \<Rightarrow> nat \<Rightarrow> bytes \<Rightarrow> bytes" where
  "swap_two i j b = b[i := b ! j, j := b ! i]"

fun swap_group :: "nat \<Rightarrow> nat \<Rightarrow> nat \<Rightarrow> bytes \<Rightarrow> bytes" where
  "swap_group n i 0 b = b"
| "swap_group n i (Suc k) b = (let j = n div 2 - Suc k in swap_group n i k (swap_two (i + j) (i + n - j - 1) b))"

fun swap_loop :: "nat \<Rightarrow> nat \<Rightarrow> nat \<Rightarrow> bytes \<Rightarrow> bytes" where
  "swap_loop n i 0 b = b"
| "swap_loop n i (Suc k) b = swap_loop n (i + n) k (swap_group n i (n div 2) b)"

definition swap_bytes :: "nat \<Rightarrow> bytes \<Rightarrow> bytes res" where
  "swap_bytes n b = (if length b mod n \<noteq> 0 then Inl RangeError else Inr (swap_loop n 0 (length b div n) b))"

end
