(* ===== verification/Buffers_Spec.thy ===== *)
theory Buffers_Spec
  imports Buffers
begin

text \<open>
  What the methods of \<open>Buffer\<close> compute: integers survive a write and a read in either byte order and the loops agree with \<open>DataView\<close>;
  comparison is the lexicographic order; the search finds the first and the last occurrence; a truncated string ends between two characters.
\<close>

section \<open>Windows\<close>

lemma window_Suc: "i < length b \<Longrightarrow> window i (Suc k) b = b ! i # window (Suc i) k b"
  by (simp add: window_def Cons_nth_drop_Suc [symmetric])

lemma window_snoc: "i + k < length b \<Longrightarrow> window i (Suc k) b = window i k b @ [b ! (i + k)]"
  by (simp add: window_def take_Suc_conv_app_nth)

lemma length_window: "i + n \<le> length b \<Longrightarrow> length (window i n b) = n"
  by (simp add: window_def)

lemma length_put: "i + length new \<le> length b \<Longrightarrow> length (put i new b) = length b"
  by (simp add: put_def)

lemma window_put: "i + length new \<le> length b \<Longrightarrow> window i (length new) (put i new b) = new"
  by (simp add: window_def put_def)

lemma put_other: "i + length new \<le> length b \<Longrightarrow> j < i \<or> i + length new \<le> j \<Longrightarrow> put i new b ! j = b ! j"
  by (auto simp: put_def nth_append)

lemma put_Cons: "i < length b \<Longrightarrow> put (Suc i) xs (b[i := x]) = put i (x # xs) b"
  by (simp add: put_def take_Suc_conv_app_nth)

lemma put_snoc: "i + length xs < length b \<Longrightarrow> put i xs (b[i + length xs := x]) = put i (xs @ [x]) b"
  by (simp add: put_def drop_update_swap Cons_nth_drop_Suc [symmetric])

lemma put_Nil [simp]: "put i [] b = b"
  by (simp add: put_def)

section \<open>Integers\<close>

lemma length_le_bytes [simp]: "length (le_bytes n v) = n"
  by (induction n arbitrary: v) simp_all

lemma le_value_le_bytes: "le_value (le_bytes n v) = v mod 256 ^ n"
proof (induction n arbitrary: v)
  case (Suc n)
  have "uint (word_of_int (v mod 256) :: byte) = v mod 256" by (simp add: uint_word_of_int)
  then show ?case using Suc by (simp add: zmod_zmult2_eq)
qed simp

lemma le_bytes_mod: "le_bytes n (v mod 2 ^ (8 * n)) = le_bytes n v"
proof (induction n arbitrary: v)
  case (Suc n)
  have "(2::int) ^ (8 * Suc n) = 256 * 2 ^ (8 * n)" by (simp add: power_add)
  then have "v mod 2 ^ (8 * Suc n) mod 256 = v mod 256" "v mod 2 ^ (8 * Suc n) div 256 = v div 256 mod 2 ^ (8 * n)"
    using zmod_zmult2_eq [of "2 ^ (8 * n)" v 256] by simp_all
  then show ?case using Suc by simp
qed simp

lemma le_value_append: "le_value (xs @ ys) = le_value xs + 256 ^ length xs * le_value ys"
  by (induction xs) (simp_all add: algebra_simps)

lemma read_loop_big:
  "k \<le> n \<Longrightarrow> i + n \<le> length b \<Longrightarrow> read_loop False i n k v b = le_value (rev (window (i + n - k) k b)) + v * 256 ^ k"
proof (induction k arbitrary: v)
  case (Suc k)
  have "window (i + n - Suc k) (Suc k) b = b ! (i + n - Suc k) # window (i + n - k) k b"
    using window_Suc [of "i + n - Suc k" b k] Suc.prems by (simp add: Suc_diff_Suc)
  moreover have "length (window (i + n - k) k b) = k" using Suc.prems by (intro length_window) simp
  moreover have "i + (n - Suc k) = i + n - Suc k" using Suc.prems by simp
  ultimately show ?case using Suc by (simp add: Let_def le_value_append algebra_simps)
qed (simp add: window_def)

lemma read_loop_little:
  "k \<le> n \<Longrightarrow> i + n \<le> length b \<Longrightarrow> read_loop True i n k v b = le_value (window i k b) + v * 256 ^ k"
proof (induction k arbitrary: v)
  case (Suc k)
  have "window i (Suc k) b = window i k b @ [b ! (i + k)]" "length (window i k b) = k"
    using window_snoc [of i k b] Suc.prems length_window [of i k b] by simp_all
  moreover have "n - (n - Suc k) - 1 = k" using Suc.prems by simp
  ultimately show ?case using Suc by (simp add: Let_def le_value_append algebra_simps)
qed (simp add: window_def)

lemma floor_div_256: "\<lfloor>(v::rat) / 256\<rfloor> = \<lfloor>v\<rfloor> div 256"
proof (rule floor_unique)
  let ?f = "\<lfloor>v\<rfloor>"
  have f: "of_int ?f \<le> v" "v < of_int ?f + 1" by linarith+
  have "256 * (?f div 256) \<le> ?f" "?f + 1 \<le> 256 * (?f div 256) + 256"
    by presburger+
  then have "256 * of_int (?f div 256) \<le> (of_int ?f :: rat)" "of_int ?f + 1 \<le> 256 * of_int (?f div 256) + (256 :: rat)"
    using of_int_le_iff [of "256 * (?f div 256)" ?f, where 'a = rat] of_int_le_iff [of "?f + 1" "256 * (?f div 256) + 256", where 'a = rat]
    by simp_all
  then show "of_int (?f div 256) \<le> v / 256" "v / 256 < of_int (?f div 256) + 1"
    using f by (simp_all add: pos_le_divide_eq pos_divide_less_eq) linarith+
qed

lemma to_uint8_rem: "0 \<le> v \<Longrightarrow> to_uint8 (num_rem v) = word_of_int (\<lfloor>v\<rfloor> mod 256)"
proof -
  assume v: "0 \<le> v"
  have "num_rem v = v - of_int (256 * (\<lfloor>v\<rfloor> div 256))"
    using v by (simp add: num_rem_def trunc_def floor_div_256)
  then have f: "\<lfloor>num_rem v\<rfloor> = \<lfloor>v\<rfloor> - 256 * (\<lfloor>v\<rfloor> div 256)"
    by (simp only: floor_diff_of_int)
  then have "0 \<le> \<lfloor>num_rem v\<rfloor>" by presburger
  then have "0 \<le> num_rem v" by (simp only: zero_le_floor)
  moreover have "\<lfloor>num_rem v\<rfloor> = \<lfloor>v\<rfloor> mod 256"
    using f by (simp add: minus_mult_div_eq_mod)
  ultimately show ?thesis by (simp add: to_uint8_def trunc_def)
qed

lemma write_loop_little:
  "k \<le> n \<Longrightarrow> i + n \<le> length b \<Longrightarrow> 0 \<le> v \<Longrightarrow> write_loop True i n k v b = put (i + n - k) (le_bytes k \<lfloor>v\<rfloor>) b"
proof (induction k arbitrary: v b)
  case (Suc k)
  have "i + (n - Suc k) = i + n - Suc k" "i + n - k = Suc (i + n - Suc k)" using Suc.prems by simp_all
  moreover have "(0::rat) \<le> of_int (\<lfloor>v\<rfloor> div 256)"
    using Suc.prems(3) by (simp add: pos_imp_zdiv_nonneg_iff del: of_int_div)
  ultimately show ?case using Suc.IH Suc.prems put_Cons [of "i + n - Suc k" b "le_bytes k (\<lfloor>v\<rfloor> div 256)"]
    by (simp add: Let_def to_uint8_rem floor_div_256)
qed simp

lemma write_loop_big:
  "k \<le> n \<Longrightarrow> i + n \<le> length b \<Longrightarrow> 0 \<le> v \<Longrightarrow> write_loop False i n k v b = put i (rev (le_bytes k \<lfloor>v\<rfloor>)) b"
proof (induction k arbitrary: v b)
  case (Suc k)
  have "n - (n - Suc k) - 1 = k" using Suc.prems by simp
  moreover have "(0::rat) \<le> of_int (\<lfloor>v\<rfloor> div 256)"
    using Suc.prems(3) by (simp add: pos_imp_zdiv_nonneg_iff del: of_int_div)
  ultimately show ?case using Suc.IH Suc.prems put_snoc [of i "rev (le_bytes k (\<lfloor>v\<rfloor> div 256))" b]
    by (simp add: Let_def to_uint8_rem floor_div_256)
qed simp

lemma pow256: "(256::int) ^ n = 2 ^ (8 * n)"
  by (simp add: power_mult)

text \<open>A value in the range of \<open>n\<close> bytes, and its residue.\<close>

lemma residue_of:
  assumes "1 \<le> n" and "int_min sgnd n \<le> x" and "x \<le> int_max sgnd n"
  shows "x mod 2 ^ (8 * n) = (if x < 0 then x + 2 ^ (8 * n) else x)"
    "sgnd \<Longrightarrow> as_signed n (x mod 2 ^ (8 * n)) = x" "\<not> sgnd \<Longrightarrow> x mod 2 ^ (8 * n) = x"
proof -
  define h :: int where "h = 2 ^ (8 * n - 1)"
  have m: "(2::int) ^ (8 * n) = 2 * h" using assms(1) by (simp add: h_def power_Suc [symmetric] del: power_Suc)
  have h: "0 < h" by (simp add: h_def)
  have r: "(if sgnd then - h \<le> x \<and> x < h else 0 \<le> x \<and> x < 2 * h)"
    using assms(2,3) unfolding int_min_def int_max_def m h_def [symmetric] by (auto split: if_splits)
  have "x mod (2 * h) = x + 2 * h" if "x < 0"
    using that r h mod_pos_pos_trivial [of "x + 2 * h" "2 * h"] by (auto split: if_splits)
  then show res: "x mod 2 ^ (8 * n) = (if x < 0 then x + 2 ^ (8 * n) else x)"
    using r h by (auto simp: m mod_pos_pos_trivial split: if_splits)
  show "as_signed n (x mod 2 ^ (8 * n)) = x" if sgnd
    using r h that res unfolding as_signed_def m h_def [symmetric] by (auto split: if_splits)
  show "x mod 2 ^ (8 * n) = x" if "\<not> sgnd" using r that unfolding res by simp
qed

text \<open>The sum that the loop writes for a negative Number: what is below \<open>1 / 2 ^ (53 - 8 * n)\<close> may be rounded away.\<close>

lemma round_even_near: "\<bar>of_int (round_even x) - x\<bar> \<le> 1 / 2"
proof -
  define d where "d = x - of_int \<lfloor>x\<rfloor>"
  have "0 \<le> d" "d < 1" unfolding d_def by linarith+
  moreover have "of_int (round_even x) - x = (if d < 1 / 2 then - d else if 1 / 2 < d then 1 - d else if even \<lfloor>x\<rfloor> then - d else 1 - d)"
    by (simp add: round_even_def d_def Let_def)
  ultimately show ?thesis by (simp split: if_splits)
qed

lemma round_even_int [simp]: "round_even (of_int m) = m"
  by (simp add: round_even_def)

lemma double_sum_int: "double_sum n (of_int m) = of_int (m + 2 ^ (8 * n))"
proof -
  have "(of_int m + 2 ^ (8 * n)) * 2 ^ (53 - 8 * n) = (of_int ((m + 2 ^ (8 * n)) * 2 ^ (53 - 8 * n)) :: rat)" by simp
  then show ?thesis unfolding double_sum_def by (simp only: round_even_int) simp
qed

lemma double_sum_near: "\<bar>double_sum n x - (x + 2 ^ (8 * n))\<bar> \<le> 1 / 2 / 2 ^ (53 - 8 * n)"
proof -
  let ?p = "2 ^ (53 - 8 * n) :: rat" and ?y = "x + 2 ^ (8 * n)"
  have p: "0 < ?p" by simp
  have "double_sum n x - ?y = (of_int (round_even (?y * ?p)) - ?y * ?p) / ?p"
    using p by (simp add: double_sum_def diff_divide_distrib)
  then have "\<bar>double_sum n x - ?y\<bar> = \<bar>of_int (round_even (?y * ?p)) - ?y * ?p\<bar> / ?p"
    using p by (simp add: abs_divide)
  also have "\<dots> \<le> (1 / 2) / ?p" by (rule divide_right_mono [OF round_even_near]) simp
  finally show ?thesis .
qed

lemma double_sum_mono: "x \<le> y \<Longrightarrow> double_sum n x \<le> double_sum n y"
proof -
  have mono: "round_even a \<le> round_even b" if "a \<le> b" for a b
  proof (rule ccontr)
    assume "\<not> round_even a \<le> round_even b"
    then have less: "round_even b + 1 \<le> round_even a" by simp
    then have "of_int (round_even b) + 1 \<le> (of_int (round_even a) :: rat)"
      using of_int_le_iff [of "round_even b + 1" "round_even a", where 'a = rat] by simp
    then have "a = b" using round_even_near [of a] round_even_near [of b] that by linarith
    with less show False by simp
  qed
  assume "x \<le> y"
  then show ?thesis by (simp add: double_sum_def divide_right_mono mono mult_right_mono)
qed

text \<open>What the loop stores of a Number.\<close>

definition loop_value :: "nat \<Rightarrow> rat \<Rightarrow> int" where
  "loop_value n x = (if x < 0 then \<lfloor>double_sum n x\<rfloor> - 2 ^ (8 * n) else \<lfloor>x\<rfloor>)"

lemma loop_value_int: "loop_value n (of_int m) = m"
  by (simp add: loop_value_def double_sum_int)

lemma loop_value_cases:
  assumes "x < 0"
  shows "loop_value n x = \<lfloor>x\<rfloor> \<or> loop_value n x = \<lceil>x\<rceil>"
    and "x + 1 / 2 ^ (53 - 8 * n) \<le> of_int \<lceil>x\<rceil> \<Longrightarrow> loop_value n x = \<lfloor>x\<rfloor>"
proof -
  have lower: "of_int (\<lfloor>x\<rfloor> + 2 ^ (8 * n)) \<le> double_sum n x"
    using double_sum_mono [of "of_int \<lfloor>x\<rfloor>" x n] by (simp add: double_sum_int)
  have upper: "double_sum n x \<le> of_int (\<lceil>x\<rceil> + 2 ^ (8 * n))"
    using double_sum_mono [of x "of_int \<lceil>x\<rceil>" n] by (simp add: double_sum_int)
  have "\<lfloor>x\<rfloor> \<le> loop_value n x" "loop_value n x \<le> \<lceil>x\<rceil>" "\<lceil>x\<rceil> \<le> \<lfloor>x\<rfloor> + 1"
    using lower upper assms le_floor_iff [of "\<lfloor>x\<rfloor> + 2 ^ (8 * n)" "double_sum n x"]
      floor_mono [OF upper] ceiling_diff_floor_le_1 [of x] by (simp_all add: loop_value_def)
  then show cases: "loop_value n x = \<lfloor>x\<rfloor> \<or> loop_value n x = \<lceil>x\<rceil>" by linarith
  assume far: "x + 1 / 2 ^ (53 - 8 * n) \<le> of_int \<lceil>x\<rceil>"
  have p: "1 / 2 / 2 ^ (53 - 8 * n) < (1 / 2 ^ (53 - 8 * n) :: rat)" by (simp add: field_simps)
  have "double_sum n x < x + 2 ^ (8 * n) + 1 / 2 ^ (53 - 8 * n)"
    using double_sum_near [of n x] p by linarith
  also have "\<dots> \<le> of_int (\<lceil>x\<rceil> + 2 ^ (8 * n))" using far by simp
  finally have "\<lfloor>double_sum n x\<rfloor> < \<lceil>x\<rceil> + 2 ^ (8 * n)" by (simp only: floor_less_iff)
  then have "loop_value n x \<noteq> \<lceil>x\<rceil>" using assms by (simp add: loop_value_def)
  with cases show "loop_value n x = \<lfloor>x\<rfloor>" by blast
qed

lemma number_in_bounds:
  "number_in sgnd n x \<Longrightarrow> int_min sgnd n \<le> \<lfloor>x\<rfloor> \<and> \<lfloor>x\<rfloor> \<le> int_max sgnd n \<and> int_min sgnd n \<le> \<lceil>x\<rceil> \<and> \<lceil>x\<rceil> \<le> int_max sgnd n"
proof -
  assume "number_in sgnd n x"
  then have "int_min sgnd n \<le> \<lfloor>x\<rfloor>" "\<lceil>x\<rceil> \<le> int_max sgnd n"
    by (simp_all add: number_in_def le_floor_iff ceiling_le_iff)
  moreover have "\<lfloor>x\<rfloor> \<le> \<lceil>x\<rceil>" by linarith
  ultimately show ?thesis by linarith
qed

text \<open>The reader and the writer with a byte length, by the bytes they see and leave.\<close>

lemma read_int_loop:
  assumes "1 \<le> n" and "n \<le> 6"
  shows "read_int little sgnd off (Fin (int n)) b = read_fixed little sgnd n off b"
proof (cases "bounds b off (Fin (int n))")
  case True
  define i where "i = nat (int_of off)"
  have i: "i + n \<le> length b" using True by (auto simp: bounds_def int_of_def i_def split: jsnum.splits)
  have "read_loop little i n n 0 b = le_value (if little then window i n b else rev (window i n b))"
    using read_loop_little [of n n i b 0] read_loop_big [of n n i b 0] i by simp
  then show ?thesis
    using assms True by (cases little)
      (simp_all add: read_int_def read_fixed_def dv_get_def as_signed_def is_int_def [of "Fin (int n)"] int_of_def [of "Fin (int n)"] Let_def i_def)
next
  case False
  then show ?thesis using assms by (simp add: read_int_def read_fixed_def is_int_def int_of_def)
qed

lemma write_int_loop:
  assumes "1 \<le> n" and "n \<le> 6"
  shows "write_int little sgnd v off (Fin (int n)) b =
    (if \<not> bounds b off (Fin (int n)) then Inl RangeError
     else case v of Number x \<Rightarrow> if number_in sgnd n x
         then Inr (int_of off + int n, dv_set little n (nat (int_of off)) (loop_value n x) b) else Inl RangeError
       | _ \<Rightarrow> Inl RangeError)"
proof (cases "\<exists>x. v = Number x \<and> bounds b off (Fin (int n)) \<and> number_in sgnd n x")
  case True
  then obtain x where x: "v = Number x" "bounds b off (Fin (int n))" "number_in sgnd n x" by blast
  define i where "i = nat (int_of off)"
  define y where "y = (if x < 0 then double_sum n x else x)"
  have i: "i + n \<le> length b" using x(2) by (auto simp: bounds_def int_of_def i_def split: jsnum.splits)
  have range: "int_min sgnd n \<le> loop_value n x" "loop_value n x \<le> int_max sgnd n"
    using loop_value_cases(1) [of x n] number_in_bounds [OF x(3)]
    by (auto simp: loop_value_def split: if_splits)
  have "- (2 ^ (8 * n)) \<le> \<lfloor>x\<rfloor>"
  proof -
    have "(2::int) ^ (8 * n - 1) \<le> 2 ^ (8 * n)" by (rule power_increasing) simp_all
    moreover have "- (2 ^ (8 * n - 1)) \<le> int_min sgnd n" by (simp add: int_min_def)
    ultimately show ?thesis using number_in_bounds [OF x(3)] by linarith
  qed
  then have "double_sum n (of_int (- (2 ^ (8 * n)))) \<le> double_sum n x"
    by (intro double_sum_mono) (simp only: le_floor_iff)
  then have y: "0 \<le> y" unfolding double_sum_int y_def by simp
  have "\<lfloor>y\<rfloor> mod 2 ^ (8 * n) = loop_value n x mod 2 ^ (8 * n)"
    by (simp add: y_def loop_value_def)
  then have "le_bytes n \<lfloor>y\<rfloor> = le_bytes n (loop_value n x mod 2 ^ (8 * n))"
    using le_bytes_mod by metis
  then have "write_loop little i n n y b = dv_set little n i (loop_value n x) b"
    using write_loop_little [of n n i b y] write_loop_big [of n n i b y] i y by (simp add: dv_set_def Let_def)
  then show ?thesis
    using assms x by (simp add: write_int_def is_int_def [of "Fin (int n)"] int_of_def [of "Fin (int n)"] Let_def i_def y_def)
next
  case False
  then show ?thesis
    using assms by (auto simp: write_int_def is_int_def [of "Fin (int n)"] int_of_def [of "Fin (int n)"] Let_def split: js_value.splits)
qed

lemma write_fixed_number:
  assumes "n \<noteq> 8"
  shows "write_fixed little sgnd n v off b =
    (if \<not> bounds b off (Fin (int n)) then Inl RangeError
     else case v of Number x \<Rightarrow> if number_in sgnd n x
         then Inr (int_of off + int n, dv_set little n (nat (int_of off)) (trunc x) b) else Inl RangeError
       | _ \<Rightarrow> Inl RangeError)"
  using assms by (simp add: write_fixed_def fixed_value_def split: js_value.split)

text \<open>C24: The readers and writers with a byte length, which have loops of their own, against those of fixed width, which use \<open>DataView\<close>: for every byte
  length from 1 to 6 (for 3, 5 and 6, where the class has no method of fixed width, \<open>DataView\<close>'s formula is taken at that width), both byte orders,
  signed and unsigned, and all offsets. Reading agrees always, and writing, errors included, for every value but a negative fraction. There the two
  differ: in the range of the type the writer of fixed width stores it rounded up, towards zero, and the loop stores it rounded down, unless it is
  so close to the integer above that adding \<open>2 ^ (8 * n)\<close> rounds it to that one.\<close>

theorem int_loops_agree:
  assumes "1 \<le> n" and "n \<le> 6"
  shows "read_int little sgnd off (Fin (int n)) b = read_fixed little sgnd n off b \<and>
    ((\<forall>x. v = Number x \<longrightarrow> 0 \<le> x \<or> x \<in> \<int>) \<longrightarrow>
      write_int little sgnd v off (Fin (int n)) b = write_fixed little sgnd n v off b) \<and>
    (\<forall>x < 0. number_in sgnd n x \<longrightarrow>
      write_fixed little sgnd n (Number x) off b = write_fixed little sgnd n (Number (of_int \<lceil>x\<rceil>)) off b \<and>
      write_int little sgnd (Number x) off (Fin (int n)) b \<in>
        (\<lambda>m. write_int little sgnd (Number (of_int m)) off (Fin (int n)) b) ` {\<lfloor>x\<rfloor>, \<lceil>x\<rceil>} \<and>
      (x + 1 / 2 ^ (53 - 8 * n) \<le> of_int \<lceil>x\<rceil> \<longrightarrow>
        write_int little sgnd (Number x) off (Fin (int n)) b = write_int little sgnd (Number (of_int \<lfloor>x\<rfloor>)) off (Fin (int n)) b)) \<and>
    (\<forall>x. \<not> number_in sgnd n x \<longrightarrow> write_int little sgnd (Number x) off (Fin (int n)) b = Inl RangeError \<and>
      write_fixed little sgnd n (Number x) off b = Inl RangeError)"
proof (intro conjI impI allI)
  have n: "n \<noteq> 8" using assms(2) by simp
  note run = write_int_loop [OF assms] write_fixed_number [OF n]
  show "read_int little sgnd off (Fin (int n)) b = read_fixed little sgnd n off b" by (rule read_int_loop [OF assms])
  have same: "loop_value n x = trunc x" if "0 \<le> x \<or> x \<in> \<int>" for x
  proof (cases "x < 0")
    case True
    then have "x \<in> \<int>" using that by simp
    then obtain m where "x = of_int m" by (rule Ints_cases)
    then show ?thesis by (simp add: loop_value_int trunc_def)
  qed (simp add: loop_value_def trunc_def)
  show "write_int little sgnd v off (Fin (int n)) b = write_fixed little sgnd n v off b" if "\<forall>x. v = Number x \<longrightarrow> 0 \<le> x \<or> x \<in> \<int>"
    using that same unfolding run by (auto split: js_value.split)
  fix x :: rat
  have in_range: "number_in sgnd n (of_int m)" if "number_in sgnd n x" "m = \<lfloor>x\<rfloor> \<or> m = \<lceil>x\<rceil>" for m
    using number_in_bounds [OF that(1)] that(2) by (auto simp: number_in_def)
  have fixed: "write_fixed little sgnd n (Number x) off b = write_fixed little sgnd n (Number (of_int \<lceil>x\<rceil>)) off b" if "x < 0" "number_in sgnd n x"
    using that in_range [of "\<lceil>x\<rceil>"] unfolding run by (simp add: trunc_def)
  have stored: "write_int little sgnd (Number x) off (Fin (int n)) b = write_int little sgnd (Number (of_int m)) off (Fin (int n)) b"
    if "number_in sgnd n x" "m = \<lfloor>x\<rfloor> \<or> m = \<lceil>x\<rceil>" "loop_value n x = m" for m
    using that in_range [of m] loop_value_int unfolding run by simp
  { assume x: "x < 0" "number_in sgnd n x"
    show "write_fixed little sgnd n (Number x) off b = write_fixed little sgnd n (Number (of_int \<lceil>x\<rceil>)) off b" by (rule fixed [OF x])
    show "write_int little sgnd (Number x) off (Fin (int n)) b \<in>
        (\<lambda>m. write_int little sgnd (Number (of_int m)) off (Fin (int n)) b) ` {\<lfloor>x\<rfloor>, \<lceil>x\<rceil>}"
      using loop_value_cases(1) [OF x(1), of n] stored [OF x(2)] by blast
    show "write_int little sgnd (Number x) off (Fin (int n)) b = write_int little sgnd (Number (of_int \<lfloor>x\<rfloor>)) off (Fin (int n)) b"
      if "x + 1 / 2 ^ (53 - 8 * n) \<le> of_int \<lceil>x\<rceil>"
      using loop_value_cases(2) [OF x(1) that] stored [OF x(2)] by blast }
qed (use write_int_loop [OF assms] write_fixed_number assms(2) in auto)

theorem int_loops_agree_witness:
  "write_int False True (Number (-2)) (Fin 1) (Fin (int 3)) [0, 0, 0, 0, 7] = Inr (4, [0, 255, 255, 254, 7]) \<and>
   write_int False True (Number (-3/2)) (Fin 0) (Fin (int 2)) [0, 0] = Inr (2, [255, 254]) \<and>
   write_fixed False True 2 (Number (-3/2)) (Fin 0) [0, 0] = Inr (2, [255, 255])"
proof -
  have ints: "write_fixed False True 3 (Number (-2)) (Fin 1) [0, 0, 0, 0, 7] = Inr (4, [0, 255, 255, 254, 7])"
    "write_fixed False True 2 (Number (-2)) (Fin 0) [0, 0] = Inr (2, [255, 254])"
    "write_fixed False True 2 (Number (-1)) (Fin 0) [0, 0] = Inr (2, [255, 255])"
    by code_simp+
  have half: "\<lfloor>-3/2 :: rat\<rfloor> = -2" "\<lceil>-3/2 :: rat\<rceil> = -1" "number_in True 2 (-3/2)"
    by (simp_all add: number_in_def int_min_def int_max_def floor_eq_iff ceiling_eq_iff)
  have "write_int False True (Number (-2)) (Fin 1) (Fin (int 3)) [0, 0, 0, 0, 7] = write_fixed False True 3 (Number (-2)) (Fin 1) [0, 0, 0, 0, 7]"
    using int_loops_agree [of 3 False True "Fin 1" "[0, 0, 0, 0, 7]" "Number (-2)"] by simp
  moreover have "write_int False True (Number (-2)) (Fin 0) (Fin (int 2)) [0, 0] = write_fixed False True 2 (Number (-2)) (Fin 0) [0, 0]"
    using int_loops_agree [of 2 False True "Fin 0" "[0, 0]" "Number (-2)"] by simp
  moreover have "write_int False True (Number (-3/2)) (Fin 0) (Fin (int 2)) [0, 0] = write_int False True (Number (-2)) (Fin 0) (Fin (int 2)) [0, 0] \<and>
     write_fixed False True 2 (Number (-3/2)) (Fin 0) [0, 0] = write_fixed False True 2 (Number (-1)) (Fin 0) [0, 0]"
    using int_loops_agree [of 2 False True "Fin 0" "[0, 0]" "OtherValue"] half by simp
  ultimately show ?thesis using ints by simp
qed

text \<open>C23: A number written with \<open>writeInt8\<close> to \<open>writeBigUInt64LE\<close> is read back by the reader of the same name, a fraction without what is behind the
  point, the bytes around it are left alone and the result is the position behind it; and the writer accepts exactly the offsets inside the buffer and
  the values in the range of the type, a BigInt for the widest and a finite Number for the others.\<close>

theorem fixed_int_roundtrip:
  assumes "n \<in> {1, 2, 4, 8}"
  shows "(\<forall>e b'. write_fixed little sgnd n v off b = Inr (e, b') \<longrightarrow>
      (\<exists>m. read_fixed little sgnd n off b' = Inr m \<and> (v = BigInt m \<or> (\<exists>x. v = Number x \<and> m = (if x < 0 then \<lceil>x\<rceil> else \<lfloor>x\<rfloor>)))) \<and>
      e = int_of off + int n \<and> length b' = length b \<and>
      (\<forall>j. int j < int_of off \<or> e \<le> int j \<longrightarrow> b' ! j = b ! j)) \<and>
    ((\<exists>r. write_fixed little sgnd n v off b = Inr r) \<longleftrightarrow>
      bounds b off (Fin (int n)) \<and>
      (case v of Number x \<Rightarrow> n < 8 \<and> of_int (int_min sgnd n) \<le> x \<and> x \<le> of_int (int_max sgnd n)
       | BigInt x \<Rightarrow> n = 8 \<and> int_min sgnd n \<le> x \<and> x \<le> int_max sgnd n | OtherValue \<Rightarrow> False))"
proof (intro conjI allI impI)
  fix e b' assume w: "write_fixed little sgnd n v off b = Inr (e, b')"
  then obtain m where m: "fixed_value sgnd n v = Some m" by (auto simp: write_fixed_def split: if_splits option.splits)
  define i where "i = nat (int_of off)"
  define bs where "bs = (let bs = le_bytes n (m mod 2 ^ (8 * n)) in if little then bs else rev bs)"
  have ok: "bounds b off (Fin (int n))" and e: "e = int_of off + int n" and b': "b' = put i bs b"
    using w m by (auto simp: write_fixed_def dv_set_def bs_def i_def split: if_splits)
  have val: "v = BigInt m \<or> (\<exists>x. v = Number x \<and> m = (if x < 0 then \<lceil>x\<rceil> else \<lfloor>x\<rfloor>))"
    using m by (auto simp: fixed_value_def trunc_def split: js_value.splits if_splits)
  have range: "int_min sgnd n \<le> m" "m \<le> int_max sgnd n"
    using m number_in_bounds by (force simp: fixed_value_def trunc_def split: js_value.splits if_splits)+
  have bs: "length bs = n" "le_value (if little then bs else rev bs) = m mod 2 ^ (8 * n)"
    by (simp_all add: bs_def Let_def le_value_le_bytes pow256)
  have i: "i + length bs \<le> length b" "int_of off = int i" using ok bs(1) by (auto simp: bounds_def int_of_def i_def split: jsnum.splits)
  show len: "length b' = length b" using i length_put b' by simp
  show "e = int_of off + int n" by (rule e)
  have "bounds b' off (Fin (int n))" using ok len by (simp add: bounds_def)
  moreover have "window i n b' = bs" using window_put [OF i(1)] b' bs(1) by simp
  ultimately have "read_fixed little sgnd n off b' = Inr m"
    using bs(2) residue_of [of n sgnd m] range assms i_def by (auto simp: read_fixed_def dv_get_def Let_def)
  with val show "\<exists>m. read_fixed little sgnd n off b' = Inr m \<and> (v = BigInt m \<or> (\<exists>x. v = Number x \<and> m = (if x < 0 then \<lceil>x\<rceil> else \<lfloor>x\<rfloor>)))" by blast
  show "b' ! j = b ! j" if "int j < int_of off \<or> e \<le> int j" for j
    using put_other [OF i(1)] that b' i(2) e bs(1) by auto
qed (use assms in \<open>auto simp: write_fixed_def fixed_value_def number_in_def split: js_value.splits\<close>)

theorem fixed_int_roundtrip_witness:
  "write_fixed True True 2 (Number (-2)) (Fin 1) [1, 2, 3, 4] = Inr (3, [1, 254, 255, 4]) \<and> read_fixed True True 2 (Fin 1) [1, 254, 255, 4] = Inr (- 2)"
proof -
  have w: "write_fixed True True 2 (Number (-2)) (Fin 1) [1, 2, 3, 4] = Inr (3, [1, 254, 255, 4])" by code_simp
  with fixed_int_roundtrip [of 2 True True "Number (-2)" "Fin 1" "[1, 2, 3, 4]"] show ?thesis by simp
qed

section \<open>Comparison\<close>

lemma compare_loop_drop:
  "i + k = min (length a) (length b) \<Longrightarrow>
   (case compare_loop a b i k of Some r \<Rightarrow> r | None \<Rightarrow> if length a = length b then 0 else if length a < length b then -1 else 1) =
     (if drop i a = drop i b then 0 else if drop i a < drop i b then -1 else (1::int))"
proof (induction k arbitrary: i)
  case 0
  have "[] < xs \<longleftrightarrow> xs \<noteq> []" "\<not> xs < []" for xs :: bytes by (cases xs; simp)+
  then show ?case using 0 by (cases "length a" "length b" rule: linorder_cases) auto
next
  case (Suc k)
  then have i: "i < length a" "i < length b" by auto
  have d: "drop i a = a ! i # drop (Suc i) a" "drop i b = b ! i # drop (Suc i) b" using i by (simp_all add: Cons_nth_drop_Suc)
  show ?case using Suc.IH [of "Suc i"] Suc.prems unfolding d by auto
qed

text \<open>\<open>Buffer.compare\<close> is the lexicographic order of the bytes, and \<open>equals\<close> is equality.\<close>

theorem compare_lexicographic:
  "compare a b = (if a = b then 0 else if a < b then -1 else 1) \<and> (equals a b \<longleftrightarrow> a = b)"
proof -
  have "compare a b = (if a = b then 0 else if a < b then -1 else 1)"
    using compare_loop_drop [of 0 "min (length a) (length b)" a b] by (simp add: compare_def)
  then show ?thesis by (auto simp: equals_def)
qed

section \<open>Search\<close>

text \<open>\<open>v\<close> stands in \<open>b\<close> at the position \<open>i\<close>.\<close>

definition occurs :: "bytes \<Rightarrow> bytes \<Rightarrow> nat \<Rightarrow> bool" where
  "occurs b v i \<longleftrightarrow> i + length v \<le> length b \<and> window i (length v) b = v"

lemma match_loop_full:
  "match_loop b v i j k = j + k \<longleftrightarrow> (\<forall>x. j \<le> x \<and> x < j + k \<longrightarrow> i + x < length b \<and> b ! (i + x) = v ! x)"
proof (induction k arbitrary: j)
  case (Suc k)
  have "(\<forall>x. j \<le> x \<and> x < j + Suc k \<longrightarrow> P x) \<longleftrightarrow> P j \<and> (\<forall>x. Suc j \<le> x \<and> x < Suc j + k \<longrightarrow> P x)" for P
    by (metis Suc_leD Suc_leI add_Suc_right add_Suc le_eq_less_or_eq less_add_Suc1)
  then show ?case using Suc [of "Suc j"] by (cases "i + j < length b \<and> b ! (i + j) = v ! j") auto
qed auto

lemma matches_occurs: "v \<noteq> [] \<Longrightarrow> matches b v i \<longleftrightarrow> occurs b v i"
proof -
  assume v: "v \<noteq> []"
  have "matches b v i \<longleftrightarrow> (\<forall>x < length v. i + x < length b \<and> b ! (i + x) = v ! x)"
    using match_loop_full [of b v i 0 "length v"] by (simp add: matches_def)
  also have "\<dots> \<longleftrightarrow> occurs b v i"
  proof
    assume all: "\<forall>x < length v. i + x < length b \<and> b ! (i + x) = v ! x"
    then have "i + (length v - 1) < length b" using v by simp
    then have "i + length v \<le> length b" using v by (cases v) simp_all
    then show "occurs b v i" using all by (auto simp: occurs_def window_def intro!: nth_equalityI)
  next
    assume o: "occurs b v i"
    show "\<forall>x < length v. i + x < length b \<and> b ! (i + x) = v ! x"
    proof (intro allI impI)
      fix x assume x: "x < length v"
      have "take (length v) (drop i b) ! x = b ! (i + x)" if "i + length v \<le> length b" using that x by simp
      then have "window i (length v) b ! x = b ! (i + x)" using o by (simp add: occurs_def window_def)
      then show "i + x < length b \<and> b ! (i + x) = v ! x" using o x by (auto simp: occurs_def)
    qed
  qed
  finally show ?thesis .
qed

lemma find_up_spec:
  "(find_up b v i k = -1 \<and> (\<forall>j. i \<le> j \<and> j < i + k \<longrightarrow> \<not> matches b v j)) \<or>
   (\<exists>r. find_up b v i k = int r \<and> i \<le> r \<and> r < i + k \<and> matches b v r \<and> (\<forall>j. i \<le> j \<and> j < r \<longrightarrow> \<not> matches b v j))"
proof (induction k arbitrary: i)
  case (Suc k)
  show ?case
  proof (cases "matches b v i")
    case True
    then show ?thesis by (intro disjI2 exI [of _ i]) (auto dest: leD)
  next
    case False
    have eq: "i \<le> j \<longleftrightarrow> j = i \<or> Suc i \<le> j" for j by auto
    show ?thesis using Suc [of "Suc i"] False by (auto simp: eq)
  qed
qed auto

lemma find_down_spec:
  "(find_down b v k = -1 \<and> (\<forall>j < k. \<not> matches b v j)) \<or>
   (\<exists>r < k. find_down b v k = int r \<and> matches b v r \<and> (\<forall>j. r < j \<and> j < k \<longrightarrow> \<not> matches b v j))"
proof (induction k)
  case (Suc k)
  show ?case
  proof (cases "matches b v k")
    case False
    show ?thesis using Suc False by (auto simp: less_Suc_eq)
  qed auto
qed simp

text \<open>The two searches for at least one byte.\<close>

lemma find_occurrence:
  assumes "v \<noteq> []"
  shows "(indexOf v off b = -1 \<and> (\<forall>i \<ge> find_offset off False b. \<not> occurs b v i) \<or>
      (\<exists>i. indexOf v off b = int i \<and> find_offset off False b \<le> i \<and> occurs b v i \<and>
         (\<forall>j. find_offset off False b \<le> j \<and> j < i \<longrightarrow> \<not> occurs b v j))) \<and>
    (lastIndexOf v off b = -1 \<and> (\<forall>i \<le> find_offset off True b. \<not> occurs b v i) \<or>
      (\<exists>i. lastIndexOf v off b = int i \<and> i \<le> find_offset off True b \<and> occurs b v i \<and>
         (\<forall>j. i < j \<and> j \<le> find_offset off True b \<longrightarrow> \<not> occurs b v j)))"
    (is "?up \<and> ?down")
proof
  let ?i = "find_offset off False b" and ?r = "find_offset off True b"
  have fits: "occurs b v j \<Longrightarrow> j + length v \<le> length b" for j by (simp add: occurs_def)
  show ?up
  proof (cases "length b < length v + ?i")
    case True
    then have "indexOf v off b = -1" using assms by (simp add: indexOf_def find_in_def)
    moreover have "\<not> occurs b v i" if "?i \<le> i" for i using fits [of i] that True by auto
    ultimately show ?thesis by blast
  next
    case False
    then have up: "indexOf v off b = find_up b v ?i (length b - length v + 1 - ?i)" using assms by (simp add: indexOf_def find_in_def Let_def)
    have "?i + (length b - length v + 1 - ?i) = length b - length v + 1" "length v \<le> length b" using False by auto
    then have rest: "\<not> occurs b v i" if "\<not> i < ?i + (length b - length v + 1 - ?i)" for i using fits [of i] that by auto
    show ?thesis using find_up_spec [of b v ?i "length b - length v + 1 - ?i"] rest
      unfolding up matches_occurs [OF assms] by blast
  qed
  show ?down
  proof (cases "length b < length v")
    case True
    then have "lastIndexOf v off b = -1" using assms by (simp add: lastIndexOf_def find_in_def)
    moreover have "\<not> occurs b v i" for i using fits [of i] True by auto
    ultimately show ?thesis by blast
  next
    case False
    then have down: "lastIndexOf v off b = find_down b v (Suc (min ?r (length b - length v)))"
      using assms by (simp add: lastIndexOf_def find_in_def Let_def)
    have rest: "\<not> occurs b v i" if "i \<le> ?r" "\<not> i < Suc (min ?r (length b - length v))" for i using fits [of i] that by auto
    show ?thesis using find_down_spec [of b v "Suc (min ?r (length b - length v))"] rest
      unfolding down matches_occurs [OF assms] less_Suc_eq_le by (metis min.bounded_iff)
  qed
qed

text \<open>C25: \<open>indexOf\<close> returns the first position from the offset on at which the sought bytes stand, \<open>lastIndexOf\<close> the last one up to the offset, and
  both return -1 exactly when there is none. Without an offset the searches start at 0 and at the end; one below zero counts from the end and stops at 0; one
  behind the end is no error. If no bytes are sought, both return the offset, or the length if that is smaller. (Offsets are integers here.)\<close>

theorem search_finds_occurrence:
  fixes v b :: bytes and off :: "int option"
  defines "lo \<equiv> (case off of None \<Rightarrow> 0 | Some k \<Rightarrow> if 0 \<le> k then nat k else if int (length b) + k < 0 then 0 else nat (int (length b) + k))"
  defines "hi \<equiv> (case off of None \<Rightarrow> length b | Some k \<Rightarrow> if 0 \<le> k then nat k else if int (length b) + k < 0 then 0 else nat (int (length b) + k))"
  shows "(v = [] \<longrightarrow> indexOf v off b = int (min lo (length b)) \<and> lastIndexOf v off b = int (min hi (length b))) \<and>
    (v \<noteq> [] \<longrightarrow>
      (indexOf v off b = -1 \<and> (\<forall>i \<ge> lo. \<not> occurs b v i) \<or>
       (\<exists>i. indexOf v off b = int i \<and> lo \<le> i \<and> occurs b v i \<and> (\<forall>j. lo \<le> j \<and> j < i \<longrightarrow> \<not> occurs b v j))) \<and>
      (lastIndexOf v off b = -1 \<and> (\<forall>i \<le> hi. \<not> occurs b v i) \<or>
       (\<exists>i. lastIndexOf v off b = int i \<and> i \<le> hi \<and> occurs b v i \<and> (\<forall>j. i < j \<and> j \<le> hi \<longrightarrow> \<not> occurs b v j))))"
proof -
  have start: "lo = find_offset off False b" "hi = find_offset off True b"
    by (simp_all add: lo_def hi_def find_offset_def split: option.split)
  show ?thesis
    using find_occurrence [of v off b] unfolding start by (simp add: indexOf_def lastIndexOf_def find_in_def Let_def)
qed

theorem search_finds_occurrence_witness:
  "indexOf [2, 3] (Some 2) [1, 2, 3, 2, 3] = 3 \<and> occurs [1, 2, 3, 2, 3] [2, 3] 3 \<and> lastIndexOf [2, 3] (Some (-3)) [1, 2, 3, 2, 3] = 1 \<and>
   indexOf [] (Some 9) [1, 2, 3] = 3"
proof -
  have up: "indexOf [2, 3] (Some 2) [1, 2, 3, 2, 3] = 3" and down: "lastIndexOf [2, 3] (Some (-3)) [1, 2, 3, 2, 3] = 1" by code_simp+
  from search_finds_occurrence [of "[2, 3]" "Some 2" "[1, 2, 3, 2, 3]"] up have "occurs [1, 2, 3, 2, 3] [2, 3] 3" by auto
  moreover have "indexOf [] (Some 9) [1, 2, 3] = 3" using search_finds_occurrence [of "[]" "Some 9" "[1, 2, 3]"] by simp
  ultimately show ?thesis using up down by blast
qed

section \<open>Strings, copies and concatenation\<close>

lemma back_up_spec:
  "back_up s n \<le> n \<and> (back_up s n = 0 \<or> s ! back_up s n AND 192 \<noteq> 128) \<and> (\<forall>j. back_up s n < j \<and> j \<le> n \<longrightarrow> s ! j AND 192 = 128)"
proof (induction n)
  case (Suc n)
  have eq: "j \<le> Suc n \<longleftrightarrow> j = Suc n \<or> j \<le> n" for j by auto
  show ?case using Suc by (auto simp: eq)
qed simp

text \<open>C26: A string written into a Buffer too short for it is cut between two characters of UTF-8: the bytes written are a prefix of the string that fits, the byte behind it, if the
  string goes on, is not a continuation byte, and every longer prefix that fits would be cut inside a character. The other bytes of the Buffer are left alone.\<close>

theorem write_cuts_between_characters:
  assumes "write_string True s (Some (Fin (int i))) (Some (Fin (int n))) b = Inr (count, b')"
  shows "count \<le> n \<and> count \<le> length s \<and> length b' = length b \<and> window i count b' = take count s \<and>
    (\<forall>j. j < i \<or> i + count \<le> j \<longrightarrow> b' ! j = b ! j) \<and>
    (0 < count \<and> count < length s \<longrightarrow> s ! count AND 192 \<noteq> 128) \<and>
    (\<forall>j. count < j \<and> j \<le> min n (length s) \<longrightarrow> j < length s \<and> s ! j AND 192 = 128)"
proof -
  have w: "i + n \<le> length b" "count = write_count True n s" "b' = put i (take count s) b"
    using assms by (auto simp: write_string_def bounds_def is_int_def int_of_def Let_def split: if_splits)
  have c: "count \<le> min n (length s)" "0 < count \<and> count < length s \<longrightarrow> s ! count AND 192 \<noteq> 128"
    "\<forall>j. count < j \<and> j \<le> min n (length s) \<longrightarrow> j < length s \<and> s ! j AND 192 = 128"
    using back_up_spec [of s "min n (length s)"] unfolding w(2) write_count_def Let_def by (auto split: if_splits)
  have l: "length (take count s) = count" "i + length (take count s) \<le> length b" using c(1) w(1) by auto
  show ?thesis using c length_put [OF l(2)] window_put [OF l(2)] put_other [OF l(2)] l(1) w(3) by auto
qed

theorem write_cuts_between_characters_witness:
  "\<exists>b'. write_string True [65, 195, 164, 66] (Some (Fin (int 0))) (Some (Fin (int 2))) [0, 0, 0] = Inr (1, b') \<and> window 0 1 b' = [65]"
proof -
  have w: "write_string True [65, 195, 164, 66] (Some (Fin (int 0))) (Some (Fin (int 2))) [0, 0, 0] = Inr (1, [65, 0, 0])" by code_simp
  from write_cuts_between_characters [OF w] w show ?thesis by auto
qed

text \<open>\<open>copy\<close> between buffers that may overlap: the target holds what the source held before.\<close>

lemma copy_moves_bytes:
  assumes "copy this target (Some (int ts)) (Some (int ss)) (Some (int se)) mem = Inr (n, mem')"
    and "v_off this + v_len this \<le> length mem" and "v_off target + v_len target \<le> length mem"
  shows "n = min (se - ss) (min (v_len this - ss) (v_len target - ts)) \<and> length mem' = length mem \<and>
    window (v_off target + ts) n mem' = window (v_off this + ss) n mem \<and>
    (\<forall>j. j < v_off target + ts \<or> v_off target + ts + n \<le> j \<longrightarrow> mem' ! j = mem ! j)"
proof -
  have size: "nat (max 0 (min (int se - int ss) (min (int x - int ss) (int y - int ts)))) = min (se - ss) (min (x - ss) (y - ts))" for x y
    by (simp add: min_def max_def) arith
  have n: "n = min (se - ss) (min (v_len this - ss) (v_len target - ts))"
    and m: "mem' = (if 0 < n then put (v_off target + ts) (window (v_off this + ss) n mem) mem else mem)"
    using assms(1) size by (auto simp: copy_def Let_def)
  show ?thesis
  proof (cases "n = 0")
    case False
    have "n \<le> v_len this - ss" "n \<le> v_len target - ts" unfolding n by simp_all
    with False assms(2,3) have "v_off this + ss + n \<le> length mem" and t: "v_off target + ts + n \<le> length mem" by linarith+
    then have l: "length (window (v_off this + ss) n mem) = n" by (intro length_window)
    let ?i = "v_off target + ts" and ?w = "window (v_off this + ss) n mem"
    have m': "mem' = put ?i ?w mem" and fit: "?i + length ?w \<le> length mem" using m False l t by simp_all
    show ?thesis unfolding m' using n length_put [OF fit] window_put [OF fit] put_other [OF fit] unfolding l by blast
  qed (use n m in \<open>simp add: window_def\<close>)
qed

lemma put_replicate:
  "length xs \<le> k \<Longrightarrow> i = length pre \<Longrightarrow> put i xs (pre @ replicate k 0) = pre @ xs @ replicate (k - length xs) 0"
  by (simp add: put_def)

lemma concat_loop_full:
  assumes "list_all (\<lambda>p. p \<noteq> []) ps" and "length pre \<le> tot"
  shows "concat_loop ps tot (length pre) (pre @ replicate (tot - length pre) 0) =
    take tot (pre @ concat ps) @ replicate (tot - length (pre @ concat ps)) 0"
  using assms
proof (induction ps arbitrary: pre)
  case (Cons p ps)
  define n where "n = min (length p) (tot - length pre)"
  show ?case
  proof (cases "n = 0")
    case True
    then have "tot = length pre" using Cons.prems by (auto simp: n_def min_def split: if_splits)
    then show ?thesis by simp
  next
    case False
    let ?pre = "pre @ take n p"
    have l: "length (take n p) = n" "n \<le> tot - length pre" by (simp_all add: n_def)
    have "put (length pre) (take n p) (pre @ replicate (tot - length pre) 0) = ?pre @ replicate (tot - length ?pre) 0"
      using put_replicate [of "take n p" "tot - length pre" "length pre" pre] l by simp
    then have step: "concat_loop (p # ps) tot (length pre) (pre @ replicate (tot - length pre) 0) =
        concat_loop ps tot (length ?pre) (?pre @ replicate (tot - length ?pre) 0)"
      using False l(1) by (simp add: n_def [symmetric] Let_def)
    have "take tot (?pre @ concat ps) @ replicate (tot - length (?pre @ concat ps)) 0 =
        take tot (pre @ p @ concat ps) @ replicate (tot - length (pre @ p @ concat ps)) 0"
    proof (cases "n = length p")
      case False
      then have "n = tot - length pre" "n < length p" by (auto simp: n_def min_def split: if_splits)
      then show ?thesis using Cons.prems(2) by simp
    qed simp
    then show ?thesis unfolding step using Cons.IH [of ?pre] Cons.prems l by simp
  qed
qed simp

text \<open>\<open>Buffer.concat\<close> of buffers none of which is empty: the bytes of all, cut or filled with zeros to the total.\<close>

lemma concat_joins_buffers:
  assumes "list_all (\<lambda>p. p \<noteq> []) ps" and "tot \<le> 2147483647"
  shows "concat_buffers ps (Some (Fin (int tot))) = Inr (take tot (concat ps) @ replicate (tot - length (concat ps)) 0)"
  using concat_loop_full [OF assms(1), of "[]" tot] assms(2) by (simp add: concat_buffers_def buffer_size_def is_int_def int_of_def)

text \<open>C38: \<open>Buffer.concat\<close> stops at the first empty buffer, since its test for a full result is also true for one with no bytes: the bytes of all
  buffers behind it are lost, and the result ends in zeros.\<close>

theorem concat_stops_at_empty_buffer:
  "concat_buffers (ps @ [] # qs) None = concat_buffers (ps @ [] # replicate (length (concat qs)) [0]) None \<and>
   concat_buffers [[1], [], [2]] None = Inr [1, 0]"
proof -
  have cut: "concat_loop (ps @ [] # qs) tot i b = concat_loop ps tot i b" for qs tot i b
  proof (induction ps arbitrary: i b)
    case (Cons p ps)
    show ?case by (cases "min (length p) (tot - i) = 0") (simp_all only: append_Cons concat_loop.simps Let_def Cons.IH if_True if_False refl)
  qed simp
  have "sum_list (map length qs) = length (concat qs)" by (simp add: length_concat)
  then have "concat_buffers (ps @ [] # qs) None = concat_buffers (ps @ [] # replicate (length (concat qs)) [0]) None"
    by (simp add: concat_buffers_def cut sum_list_replicate split: sum.split)
  moreover have "concat_buffers [[1], [], [2]] None = Inr [1, 0]" by code_simp
  ultimately show ?thesis by blast
qed

section \<open>Byte order of a whole buffer\<close>

lemma swap_two_nth: "i < length b \<Longrightarrow> j < length b \<Longrightarrow> swap_two i j b ! k = (if k = i then b ! j else if k = j then b ! i else b ! k)"
  by (auto simp: swap_two_def nth_list_update)

lemma length_swap_two [simp]: "length (swap_two i j b) = length b"
  by (simp add: swap_two_def)

lemma swap_group_nth:
  assumes "n = 2 * h" and "i + n \<le> length b" and "k \<le> h"
  shows "length (swap_group n i k b) = length b \<and>
    (\<forall>x. swap_group n i k b ! x = (if i + (h - k) \<le> x \<and> x < i + n - (h - k) then b ! (2 * i + n - 1 - x) else b ! x))"
  using assms(2,3)
proof (induction k arbitrary: b)
  case 0
  then show ?case using assms(1) by auto
next
  case (Suc k)
  define j where "j = h - Suc k"
  let ?c = "swap_two (i + j) (i + n - j - 1) b"
  have j: "h - k = Suc j" "j < h" "n div 2 - Suc k = j" using Suc.prems assms(1) by (auto simp: j_def)
  have c: "?c ! x = (if x = i + j then b ! (i + n - j - 1) else if x = i + n - j - 1 then b ! (i + j) else b ! x)" for x
    using swap_two_nth [of "i + j" b "i + n - j - 1" x] j assms(1) Suc.prems by simp
  have step: "swap_group n i (Suc k) b = swap_group n i k ?c" using j by (simp add: Let_def)
  have ih: "length (swap_group n i k ?c) = length b"
    "swap_group n i k ?c ! x = (if i + Suc j \<le> x \<and> x < i + n - Suc j then ?c ! (2 * i + n - 1 - x) else ?c ! x)" for x
    using Suc.IH [of ?c] Suc.prems j(1) by simp_all
  have "swap_group n i k ?c ! x = (if i + j \<le> x \<and> x < i + n - j then b ! (2 * i + n - 1 - x) else b ! x)" for x
  proof -
    consider "x = i + j" | "x = i + n - j - 1" | "i + Suc j \<le> x" "x < i + n - Suc j" | "x < i + j \<or> i + n - j \<le> x" by linarith
    then show ?thesis
    proof cases
      case 1
      moreover have "2 * i + n - 1 - (i + j) = i + n - j - 1" "i + j < i + n - j" using j(2) assms(1) by simp_all
      moreover have "\<not> i + Suc j \<le> i + j" by simp
      ultimately show ?thesis unfolding ih(2) c by simp
    next
      case 2
      moreover have "2 * i + n - 1 - (i + n - j - 1) = i + j" "i + j \<le> i + n - j - 1" "i + n - j - 1 < i + n - j" "\<not> i + n - j - 1 < i + n - Suc j"
        "i + n - j - 1 \<noteq> i + j" using j(2) assms(1) by linarith+
      ultimately show ?thesis unfolding ih(2) c by simp
    next
      case 3
      moreover have "2 * i + n - 1 - x \<noteq> i + j" "2 * i + n - 1 - x \<noteq> i + n - j - 1" using 3 j(2) assms(1) by linarith+
      moreover have "i + j \<le> x" "x < i + n - j" using 3 by linarith+
      ultimately show ?thesis unfolding ih(2) c by simp
    next
      case 4
      then have "\<not> (i + Suc j \<le> x \<and> x < i + n - Suc j)" "\<not> (i + j \<le> x \<and> x < i + n - j)" "x \<noteq> i + j" "x \<noteq> i + n - j - 1"
        using j(2) assms(1) by linarith+
      then show ?thesis unfolding ih(2) c by (simp only: if_False)
    qed
  qed
  then show ?case unfolding step j_def [symmetric] using ih(1) by blast
qed

lemma swap_loop_nth:
  assumes "n = 2 * h" and "0 < n" and "i + k * n \<le> length b"
  shows "length (swap_loop n i k b) = length b \<and>
    (\<forall>x. swap_loop n i k b ! x =
      (if i \<le> x \<and> x < i + k * n then b ! (i + (x - i) div n * n + (n - 1 - (x - i) mod n)) else b ! x))"
  using assms(3)
proof (induction k arbitrary: i b)
  case (Suc k)
  let ?c = "swap_group n i (n div 2) b"
  have c: "length ?c = length b" "?c ! x = (if i \<le> x \<and> x < i + n then b ! (2 * i + n - 1 - x) else b ! x)" for x
    using swap_group_nth [OF assms(1), of i b h] Suc.prems assms(1) by auto
  have ih: "length (swap_loop n (i + n) k ?c) = length b" "swap_loop n (i + n) k ?c ! x =
      (if i + n \<le> x \<and> x < i + n + k * n then ?c ! (i + n + (x - (i + n)) div n * n + (n - 1 - (x - (i + n)) mod n)) else ?c ! x)" for x
    using Suc.IH [of "i + n" ?c] Suc.prems c(1) by auto
  have "swap_loop n (i + n) k ?c ! x =
      (if i \<le> x \<and> x < i + Suc k * n then b ! (i + (x - i) div n * n + (n - 1 - (x - i) mod n)) else b ! x)" for x
  proof -
    consider "i \<le> x" "x < i + n" | "i + n \<le> x" "x < i + Suc k * n" | "x < i \<or> i + Suc k * n \<le> x" by linarith
    then show ?thesis
    proof cases
      case 1
      then have "(x - i) div n = 0" "(x - i) mod n = x - i" by auto
      moreover have "i + (n - 1 - (x - i)) = 2 * i + n - 1 - x" using 1 by auto
      ultimately show ?thesis unfolding ih(2) c(2) using 1 by simp
    next
      case 2
      define y where "y = x - (i + n)"
      have y: "x - i = y + n" using 2 by (simp add: y_def)
      have "i + n + y div n * n + (n - 1 - y mod n) = i + (x - i) div n * n + (n - 1 - (x - i) mod n)"
        using assms(2) unfolding y by (simp add: div_add_self2)
      moreover have "\<not> i + n + y div n * n + (n - 1 - y mod n) < i + n" by simp
      ultimately show ?thesis using 2 unfolding ih(2) c(2) y_def by (simp add: ac_simps)
    next
      case 3
      then show ?thesis unfolding ih(2) c(2) by auto
    qed
  qed
  then show ?case using ih(1) by simp
qed auto

text \<open>\<open>swap16\<close>, \<open>swap32\<close> and \<open>swap64\<close> reverse the bytes of every group and are their own inverses; they fail exactly on a buffer that is not made of whole groups.\<close>

theorem swap_twice:
  assumes "n \<in> {2, 4, 8}"
  shows "(length b mod n = 0 \<longrightarrow> (\<exists>c. swap_bytes n b = Inr c \<and> swap_bytes n c = Inr b \<and> length c = length b \<and>
      (\<forall>x < length b. c ! x = b ! (x div n * n + (n - 1 - x mod n))))) \<and>
    (length b mod n \<noteq> 0 \<longrightarrow> swap_bytes n b = Inl RangeError)"
proof -
  have n: "n = 2 * (n div 2)" "0 < n" using assms by auto
  have all: "length (swap_loop n 0 (length b div n) b) = length b \<and>
      (\<forall>x < length b. swap_loop n 0 (length b div n) b ! x = b ! (x div n * n + (n - 1 - x mod n)))" if "length b mod n = 0" for b :: bytes
  proof -
    have "length b div n * n = length b" using that by (simp add: mod_eq_0_iff_dvd)
    then show ?thesis using swap_loop_nth [OF n, of 0 "length b div n" b] by simp
  qed
  define c where "c = swap_loop n 0 (length b div n) b"
  have "swap_loop n 0 (length c div n) c = b" if b: "length b mod n = 0"
  proof (rule nth_equalityI)
    have c: "length c = length b" using all [OF b] by (simp add: c_def)
    show len: "length (swap_loop n 0 (length c div n) c) = length b" using all [of c] b c by simp
    fix x assume x: "x < length (swap_loop n 0 (length c div n) c)"
    define y where "y = x div n * n + (n - 1 - x mod n)"
    have m: "n - 1 - x mod n < n" using n(2) by simp
    have y: "y div n = x div n" "y mod n = n - 1 - x mod n" unfolding y_def using m by simp_all
    have "x div n < length b div n" using x len b by (metis div_less_dividend less_mult_imp_div_less dvd_div_mult_self mod_eq_0_iff_dvd)
    then have "y < length b" using y(1) b by (metis div_less_mono div_le_mono not_less)
    moreover have "x div n * n + (n - 1 - (n - 1 - x mod n)) = x" using n(2) mod_less_divisor [of n x] by (simp add: Suc_leI)
    moreover have "swap_loop n 0 (length c div n) c ! x = c ! y" using all [of c] b c x len by (simp add: y_def)
    moreover have "c ! y = b ! (y div n * n + (n - 1 - y mod n))" if "y < length b" using all [OF b] that by (simp add: c_def)
    ultimately show "swap_loop n 0 (length c div n) c ! x = b ! x" unfolding y by simp
  qed
  then show ?thesis using all [of b] by (auto simp: swap_bytes_def c_def)
qed

theorem swap_twice_witness:
  "\<exists>c. swap_bytes 4 [1, 2, 3, 4, 5, 6, 7, 8] = Inr c \<and> swap_bytes 4 c = Inr [1, 2, 3, 4, 5, 6, 7, 8] \<and> length c = 8"
  using swap_twice [of 4 "[1, 2, 3, 4, 5, 6, 7, 8]"] by auto

section \<open>Filling\<close>

lemma fill_loop_nth:
  assumes "i + k \<le> length b"
  shows "length (fill_loop start p i k b) = length b \<and>
    (\<forall>x. fill_loop start p i k b ! x = (if i \<le> x \<and> x < i + k then p ! ((x - start) mod length p) else b ! x))"
  using assms
proof (induction k arbitrary: i b)
  case (Suc k)
  have eq: "i \<le> x \<and> x < i + Suc k \<longleftrightarrow> x = i \<or> Suc i \<le> x \<and> x < Suc i + k" for x by auto
  show ?case using Suc.IH [of "Suc i" "b[i := p ! ((i - start) mod length p)]"] Suc.prems by (auto simp: eq nth_list_update)
qed auto

text \<open>\<open>fill\<close> with a Buffer or a string repeats its bytes from the start on, and touches nothing else.\<close>

lemma fill_repeats_pattern:
  assumes "p \<noteq> []" and "i \<le> e" and "e \<le> length b"
  shows "\<exists>c. fill (FBuf p) (Some (Fin (int i))) (Some (Fin (int e))) b = Inr c \<and> length c = length b \<and>
    (\<forall>x. c ! x = (if i \<le> x \<and> x < e then p ! ((x - i) mod length p) else b ! x))"
  using fill_loop_nth [of i "e - i" b i p] assms
  by (auto simp: fill_def fill_length_def bounds_def is_int_def int_of_def Let_def nat_diff_distrib)

text \<open>With a number and a negative end, \<open>fill\<close> behaves otherwise than with a Buffer: the end then counts from the end of the array.\<close>

lemma fill_negative_end:
  "fill (FNum (Some 7)) (Some (Fin 0)) (Some (Fin (-1))) [0, 0, 0] = Inr [7, 7, 0] \<and>
   fill (FBuf [7]) (Some (Fin 0)) (Some (Fin (-1))) [0, 0, 0] = Inr [0, 0, 0]"
  by code_simp

end
