(* ===== verification/Login_Bridge.thy ===== *)
theory Login_Bridge
  imports JS_Prelude
begin

text \<open>
  \<open>src/web/public/native_login_bridge.js\<close>: the script that lets themes with an own login form use the login service
  of the server. It wraps \<open>fetch\<close> and three methods of \<open>XMLHttpRequest\<close>.

  Parsing of URLs and of JSON is a parameter: \<open>parse_url\<close> gives the origin and the path of a URL (relative ones
  already resolved) and \<open>parse\<close> the value of a JSON text; both give nothing where the constructor or
  \<open>JSON.parse\<close> throws. A wrapped \<open>fetch\<close> has two halves: what it does with the call (\<open>bridge_fetch\<close>), and what it makes of the
  answer of the service (\<open>bridge_answer\<close>). The wrapped \<open>XMLHttpRequest\<close> is a record with the bridge's own entry of the
  \<open>WeakMap\<close>, the listeners in the order of their registration, the properties that the bridge puts over those of the
  browser, and what the browser reports.
\<close>

section \<open>JSON\<close>

datatype json = JNull | JBool bool | JNum string | JStr string | JArr "json list" | JObj "(string \<times> json) list"

text \<open>A property of a value: nothing for an absent one, an error on null.\<close>

definition get_prop :: "string \<Rightarrow> json \<Rightarrow> json option" where
  "get_prop k v = (case v of JObj fs \<Rightarrow> map_of fs k | _ \<Rightarrow> None)"

definition hex_digit :: "nat \<Rightarrow> char" where
  "hex_digit n = ''0123456789abcdef'' ! (n mod 16)"

definition quote_char :: "char \<Rightarrow> string" where
  "quote_char c = (let n = (of_char c :: nat) in
     if n = 34 then [CHR 92, CHR 34] else if n = 92 then [CHR 92, CHR 92]
     else if n = 8 then [CHR 92, CHR ''b''] else if n = 9 then [CHR 92, CHR ''t''] else if n = 10 then [CHR 92, CHR ''n'']
     else if n = 12 then [CHR 92, CHR ''f''] else if n = 13 then [CHR 92, CHR ''r'']
     else if n < 32 then [CHR 92, CHR ''u'', CHR ''0'', CHR ''0'', hex_digit (n div 16), hex_digit n]
     else [c])"

definition quote :: "string \<Rightarrow> string" where
  "quote s = [CHR 34] @ concat (map quote_char s) @ [CHR 34]"

fun join_with :: "string \<Rightarrow> string list \<Rightarrow> string" where
  "join_with sep [] = []"
| "join_with sep [x] = x"
| "join_with sep (x # y # zs) = x @ sep @ join_with sep (y # zs)"

text \<open>\<open>JSON.stringify\<close>.\<close>

fun json_text :: "json \<Rightarrow> string" where
  "json_text JNull = ''null''"
| "json_text (JBool b) = (if b then ''true'' else ''false'')"
| "json_text (JNum t) = t"
| "json_text (JStr s) = quote s"
| "json_text (JArr vs) = ''['' @ join_with '','' (map json_text vs) @ '']''"
| "json_text (JObj fs) = ''{'' @ join_with '','' (map (\<lambda>(k, v). quote k @ '':'' @ json_text v) fs) @ ''}''"

definition truthy_json :: "json option \<Rightarrow> bool" where
  "truthy_json v = (case v of
       None \<Rightarrow> False | Some JNull \<Rightarrow> False | Some (JBool b) \<Rightarrow> b | Some (JNum t) \<Rightarrow> t \<noteq> ''0'' \<and> t \<noteq> ''-0''
     | Some (JStr s) \<Rightarrow> s \<noteq> [] | Some _ \<Rightarrow> True)"

section \<open>The shared functions\<close>

record origin_env =
  parse_url :: "string \<Rightarrow> (string \<times> string) option" \<comment> \<open>\<open>origin\<close> and \<open>pathname\<close>\<close>
  origin :: string
  parse :: "string \<Rightarrow> json option"

definition endpoint :: string where
  "endpoint = ''/komari.credential.v1.PasswordLoginService/BeginPasswordLogin''"

definition legacyEndpoint :: "origin_env \<Rightarrow> string \<Rightarrow> bool" where
  "legacyEndpoint E url = (case parse_url E url of None \<Rightarrow> False | Some (og, path) \<Rightarrow> og = origin E \<and> path = ''/api/login'')"

datatype js_error = JsError (err_name: string) (err_message: string) | NotAnError

definition credentials :: "origin_env \<Rightarrow> string \<Rightarrow> js_error + string" where
  "credentials E body = (case parse E body of
       None \<Rightarrow> Inl (JsError ''SyntaxError'' ''invalid JSON'')
     | Some v \<Rightarrow> (case (get_prop ''username'' v, get_prop ''password'' v) of
         (Some (JStr u), Some (JStr p)) \<Rightarrow> Inr (json_text (JObj [(''username'', JStr u), (''password'', JStr p)]))
       | _ \<Rightarrow> Inl (JsError ''Error'' ''Username and password are required'')))"

text \<open>The page that \<open>finish\<close> goes to.\<close>

definition finish_login :: "json \<Rightarrow> js_error + string" where
  "finish_login result =
     (if result = JNull then Inl (JsError ''TypeError'' ''result is null'')
      else if get_prop ''authenticated'' result = Some (JBool True) then Inr ''/admin/dashboard''
      else case get_prop ''providers'' result of
        Some (JArr (x # xs)) \<Rightarrow> Inr ''/login/verify''
      | _ \<Rightarrow> Inl (JsError ''Error'' ''No available second factor''))"

definition ok_status :: "nat \<Rightarrow> bool" where
  "ok_status st \<longleftrightarrow> 200 \<le> st \<and> st < 300"

text \<open>\<open>new Response\<close> with a body refuses a status outside 200 to 599 and one that has no body.\<close>

definition response_status :: "nat \<Rightarrow> bool" where
  "response_status st \<longleftrightarrow> 200 \<le> st \<and> st \<le> 599 \<and> st \<notin> {204, 205, 304}"

section \<open>The wrapped fetch\<close>

record bridge_request =
  rq_url :: string
  rq_method :: string
  rq_text :: "js_error + string" \<comment> \<open>the body as text, or the error of \<open>clone\<close> or \<open>text\<close>\<close>
  rq_signal :: nat

datatype fetch_input = Url string | Req bridge_request

record fetch_init =
  in_method :: "string option"
  in_body :: "string option"
  in_signal :: "nat option"

datatype fetch_call =
    Original fetch_input "fetch_init option" \<comment> \<open>\<open>originalFetch.call(this, input, init)\<close>\<close>
  | Begin string "nat option" \<comment> \<open>the request to the endpoint: body and signal\<close>
  | Refused js_error \<comment> \<open>an error before any request\<close>

definition fetch_method :: "fetch_input \<Rightarrow> fetch_init option \<Rightarrow> string" where
  "fetch_method input init = to_upper (case Option.bind init in_method of
       Some m \<Rightarrow> m | None \<Rightarrow> (case input of Req r \<Rightarrow> rq_method r | Url _ \<Rightarrow> ''GET''))"

definition fetch_url :: "fetch_input \<Rightarrow> string" where
  "fetch_url input = (case input of Req r \<Rightarrow> rq_url r | Url u \<Rightarrow> u)"

definition fetch_body :: "fetch_input \<Rightarrow> fetch_init option \<Rightarrow> js_error + string" where
  "fetch_body input init = (case Option.bind init in_body of
       Some b \<Rightarrow> Inr b | None \<Rightarrow> (case input of Req r \<Rightarrow> rq_text r | Url _ \<Rightarrow> Inr []))"

definition fetch_signal :: "fetch_input \<Rightarrow> fetch_init option \<Rightarrow> nat option" where
  "fetch_signal input init = (case Option.bind init in_signal of
       Some g \<Rightarrow> Some g | None \<Rightarrow> (case input of Req r \<Rightarrow> Some (rq_signal r) | Url _ \<Rightarrow> None))"

definition bridge_fetch :: "origin_env \<Rightarrow> fetch_input \<Rightarrow> fetch_init option \<Rightarrow> fetch_call" where
  "bridge_fetch E input init =
     (if \<not> legacyEndpoint E (fetch_url input) \<or> fetch_method input init \<noteq> ''POST'' then Original input init
      else case fetch_body input init of
        Inl e \<Rightarrow> Refused e
      | Inr b \<Rightarrow> (case credentials E b of Inl e \<Rightarrow> Refused e | Inr c \<Rightarrow> Begin c (fetch_signal input init)))"

datatype answer =
    Answered nat "js_error + json" \<comment> \<open>the status, and the result of \<open>response.json()\<close>\<close>
  | Rejected js_error

datatype fetch_result =
    Reply nat string \<comment> \<open>resolves to a response with this status and body\<close>
  | Reject js_error
  | Handoff string \<comment> \<open>the page goes to the URL, and the promise is never settled\<close>

definition failure_body :: "json \<Rightarrow> string" where
  "failure_body message = json_text (JObj [(''status'', JStr ''error''), (''message'', message)])"

text \<open>The \<open>catch\<close> part.\<close>

definition bridge_catch :: "js_error \<Rightarrow> fetch_result" where
  "bridge_catch e =
     (if e \<noteq> NotAnError \<and> err_name e = ''AbortError'' then Reject e
      else Reply 400 (failure_body (JStr (''Unable to continue login: '' @ (if e = NotAnError then ''request failed'' else err_message e)))))"

definition bridge_answer :: "answer \<Rightarrow> fetch_result" where
  "bridge_answer a = (case a of
       Rejected e \<Rightarrow> bridge_catch e
     | Answered st (Inl e) \<Rightarrow> bridge_catch e
     | Answered st (Inr result) \<Rightarrow>
         if \<not> ok_status st then
           (if result = JNull then bridge_catch (JsError ''TypeError'' ''result is null'')
            else if response_status st
            then Reply st (failure_body (if truthy_json (get_prop ''message'' result) then the (get_prop ''message'' result) else JStr ''Login failed''))
            else bridge_catch (JsError ''RangeError'' ''invalid status''))
         else case finish_login result of Inl e \<Rightarrow> bridge_catch e | Inr url \<Rightarrow> Handoff url)"

definition bridge_result :: "fetch_call \<Rightarrow> answer \<Rightarrow> fetch_result option" where
  "bridge_result c a = (case c of Original _ _ \<Rightarrow> None | Refused e \<Rightarrow> Some (bridge_catch e) | Begin _ _ \<Rightarrow> Some (bridge_answer a))"

section \<open>The wrapped XMLHttpRequest\<close>

record bridge_state =
  handled :: bool
  navigating :: bool
  overridden :: bool

datatype listener = Bridge nat | Theme nat

text \<open>The entry of the object in the \<open>WeakMap\<close> is the number of a state; the listeners of an earlier state stay registered.
  \<open>x_own\<close> has the properties \<open>status\<close>, \<open>responseText\<close> and \<open>response\<close> (as text) that hide those of the browser.
  \<open>x_responseText\<close> is an error where the browser throws. The last fields are what the browser was asked to do and what the listeners of the
  theme saw: their number, the event, \<open>readyState\<close> and \<open>status\<close>.\<close>

record bxhr =
  x_entry :: "nat option"
  x_states :: "nat \<Rightarrow> bridge_state"
  x_count :: nat
  x_listeners :: "(string \<times> listener) list"
  x_own :: "(nat \<times> string \<times> string) option"
  x_readyState :: nat
  x_status :: nat
  x_responseType :: string
  x_responseText :: "js_error + string"
  x_response :: json
  x_settled :: bool
  x_opened :: "(string \<times> string) list"
  x_headers :: "(string \<times> string) list"
  x_sent :: "string list"
  x_location :: "string list"
  x_log :: "(nat \<times> string \<times> nat \<times> nat) list"

definition new_xhr :: bxhr where
  "new_xhr = \<lparr>x_entry = None, x_states = (\<lambda>_. \<lparr>handled = False, navigating = False, overridden = False\<rparr>), x_count = 0, x_listeners = [],
     x_own = None, x_readyState = 0, x_status = 0, x_responseType = [], x_responseText = Inr [], x_response = JNull, x_settled = False,
     x_opened = [], x_headers = [], x_sent = [], x_location = [], x_log = []\<rparr>"

definition visible_status :: "bxhr \<Rightarrow> nat" where
  "visible_status s = (case x_own s of Some (st, _) \<Rightarrow> st | None \<Rightarrow> x_status s)"

definition failed_json :: json where
  "failed_json = JObj [(''status'', JStr ''error''), (''message'', JStr ''Unable to continue login; please retry'')]"

text \<open>The \<open>catch\<close> part of the listener.\<close>

definition override :: "nat \<Rightarrow> bxhr \<Rightarrow> bxhr" where
  "override i s = s\<lparr>x_states := (x_states s)(i := (x_states s i)\<lparr>overridden := True\<rparr>), x_own := Some (409, json_text failed_json, json_text failed_json)\<rparr>"

definition read_result :: "origin_env \<Rightarrow> bxhr \<Rightarrow> json option" where
  "read_result E s =
     (if x_responseType s = ''json'' then Some (x_response s)
      else case x_responseText s of Inl _ \<Rightarrow> None | Inr t \<Rightarrow> parse E t)"

definition handle_done :: "origin_env \<Rightarrow> nat \<Rightarrow> bxhr \<Rightarrow> bxhr" where
  "handle_done E i s0 = (let s = s0\<lparr>x_states := (x_states s0)(i := (x_states s0 i)\<lparr>handled := True\<rparr>)\<rparr> in
     case read_result E s of
       None \<Rightarrow> override i s
     | Some result \<Rightarrow>
         if ok_status (visible_status s) then
           (case finish_login result of
              Inl _ \<Rightarrow> override i s
            | Inr url \<Rightarrow> s\<lparr>x_location := x_location s @ [url], x_states := (x_states s)(i := (x_states s i)\<lparr>navigating := True\<rparr>)\<rparr>)
         else s)"

text \<open>The listener of the state \<open>i\<close>; the result says whether it stops the event.\<close>

definition bridge_listener :: "origin_env \<Rightarrow> nat \<Rightarrow> bxhr \<Rightarrow> bool \<times> bxhr" where
  "bridge_listener E i s =
     (if x_entry s \<noteq> Some i \<or> x_readyState s \<noteq> 4 then (False, s)
      else let s' = (if handled (x_states s i) then s else handle_done E i s) in (navigating (x_states s' i), s'))"

definition bridge_open :: "origin_env \<Rightarrow> string \<Rightarrow> string \<Rightarrow> bxhr \<Rightarrow> bxhr" where
  "bridge_open E meth url s =
     (let s1 = (case x_entry s of Some i \<Rightarrow> if overridden (x_states s i) then s\<lparr>x_own := None\<rparr> else s | None \<Rightarrow> s);
          s2 = s1\<lparr>x_entry := None\<rparr>;
          n = x_count s;
          s3 = (if to_upper meth = ''POST'' \<and> legacyEndpoint E url
                then s2\<lparr>x_entry := Some n, x_count := Suc n,
                  x_states := (x_states s2)(n := \<lparr>handled = False, navigating = False, overridden = False\<rparr>),
                  x_listeners := x_listeners s2 @ [(''readystatechange'', Bridge n), (''load'', Bridge n), (''loadend'', Bridge n)]\<rparr>
                else s2);
          s4 = s3\<lparr>x_opened := x_opened s3 @ [(meth, if x_entry s3 \<noteq> None then endpoint else url)],
                 x_readyState := 1, x_status := 0, x_responseText := Inr [], x_response := JNull, x_settled := False, x_headers := []\<rparr>
      in if x_entry s4 \<noteq> None then s4\<lparr>x_headers := [(''Content-Type'', ''application/json''), (''Connect-Protocol-Version'', ''1'')]\<rparr> else s4)"

definition bridge_setRequestHeader :: "string \<Rightarrow> string \<Rightarrow> bxhr \<Rightarrow> bxhr" where
  "bridge_setRequestHeader name v s =
     (if x_entry s \<noteq> None \<and> to_lower name \<in> {''content-type'', ''connect-protocol-version''} then s
      else s\<lparr>x_headers := x_headers s @ [(name, v)]\<rparr>)"

definition bridge_send :: "origin_env \<Rightarrow> string \<Rightarrow> bxhr \<Rightarrow> js_error + bxhr" where
  "bridge_send E body s =
     (if x_entry s \<noteq> None
      then case credentials E body of Inl e \<Rightarrow> Inl e | Inr c \<Rightarrow> Inr (s\<lparr>x_sent := x_sent s @ [c]\<rparr>)
      else Inr (s\<lparr>x_sent := x_sent s @ [body]\<rparr>))"

section \<open>The page\<close>

text \<open>The browser calls the listeners in the order of their registration until one stops the event. Listeners of the
  theme look at the object; what the theme does is a step of its own.\<close>

fun call_listeners :: "origin_env \<Rightarrow> string \<Rightarrow> listener list \<Rightarrow> bxhr \<Rightarrow> bxhr" where
  "call_listeners E name [] s = s"
| "call_listeners E name (Theme t # ls) s =
     call_listeners E name ls (s\<lparr>x_log := x_log s @ [(t, name, x_readyState s, visible_status s)]\<rparr>)"
| "call_listeners E name (Bridge i # ls) s = (case bridge_listener E i s of (stop, s') \<Rightarrow> if stop then s' else call_listeners E name ls s')"

definition bridge_listeners_of :: "string \<Rightarrow> bxhr \<Rightarrow> listener list" where
  "bridge_listeners_of name s = map snd (filter (\<lambda>l. fst l = name) (x_listeners s))"

datatype xaction =
    XOpen string string | XSetHeader string string | XSend string | XType string
  | XListen string nat \<comment> \<open>a listener of the theme\<close>
  | XProgress nat nat "js_error + string" \<comment> \<open>\<open>readyState\<close> 2 or 3, with the status of the answer and the text so far\<close>
  | XAnswer nat "js_error + string" json \<comment> \<open>the request is done, with this status and body\<close>
  | XFire string \<comment> \<open>an event\<close>

fun xexec :: "origin_env \<Rightarrow> xaction \<Rightarrow> bxhr \<Rightarrow> bxhr" where
  "xexec E (XOpen m u) s = bridge_open E m u s"
| "xexec E (XSetHeader n v) s = bridge_setRequestHeader n v s"
| "xexec E (XSend b) s = (case bridge_send E b s of Inl _ \<Rightarrow> s | Inr s' \<Rightarrow> s')"
| "xexec E (XType ty) s = s\<lparr>x_responseType := ty\<rparr>"
| "xexec E (XListen name t) s = s\<lparr>x_listeners := x_listeners s @ [(name, Theme t)]\<rparr>"
| "xexec E (XProgress rs st txt0) s =
     (if x_settled s \<or> rs \<notin> {2, 3} then s else s\<lparr>x_readyState := rs, x_status := st, x_responseText := txt0\<rparr>)"
| "xexec E (XAnswer st txt0 js) s =
     (if x_settled s then s else s\<lparr>x_settled := True, x_readyState := 4, x_status := st, x_responseText := txt0, x_response := js\<rparr>)"
| "xexec E (XFire name) s = call_listeners E name (bridge_listeners_of name s) s"

definition xrun :: "origin_env \<Rightarrow> xaction list \<Rightarrow> bxhr" where
  "xrun E as = fold (xexec E) as new_xhr"

end
