(* ===== verification/Login_Bridge_Spec.thy ===== *)
theory Login_Bridge_Spec
  imports Login_Bridge
begin

text \<open>
  What the login bridge promises: it touches nothing but the login of old themes, sends the server nothing but the user name and the
  password, and never lets a theme take the first step of a login for a finished one.
\<close>

section \<open>fetch\<close>

text \<open>A request for the login of old themes: a POST to this path of the origin of the page.\<close>

definition login_open :: "origin_env \<Rightarrow> string \<Rightarrow> string \<Rightarrow> bool" where
  "login_open E m u \<longleftrightarrow> to_upper m = ''POST'' \<and> parse_url E u = Some (origin E, ''/api/login'')"

lemma credentials_Inr:
  "credentials E body = Inr c \<longleftrightarrow> (\<exists>v u p. parse E body = Some v \<and> get_prop ''username'' v = Some (JStr u) \<and>
     get_prop ''password'' v = Some (JStr p) \<and> c = json_text (JObj [(''username'', JStr u), (''password'', JStr p)]))"
  by (auto simp: credentials_def split: option.splits json.splits prod.splits)

lemma credentials_Inl:
  "credentials E body = Inl e \<Longrightarrow> parse E body = Some v \<Longrightarrow> get_prop ''username'' v = Some (JStr u) \<Longrightarrow> get_prop ''password'' v \<noteq> Some (JStr p)"
  by (auto simp: credentials_def)

subsection \<open>Reading the body of a login\<close>

text \<open>A reader of JSON strings, and of a body with a user name and a password: what the login service can see in it.\<close>

definition simple_escapes :: "(char \<times> char) list" where
  "simple_escapes = [(CHR 34, CHR 34), (CHR 92, CHR 92), (CHR ''b'', CHR 8), (CHR ''t'', CHR 9), (CHR ''n'', CHR 10), (CHR ''f'', CHR 12),
     (CHR ''r'', CHR 13)]"

definition hex_number :: "char \<Rightarrow> nat" where
  "hex_number c = (let n = of_char c in if n \<le> 57 then n - 48 else n - 87)"

definition put_char :: "char \<Rightarrow> (string \<times> string) option \<Rightarrow> (string \<times> string) option" where
  "put_char c r = map_option (\<lambda>(t, s). (c # t, s)) r"

fun read_quoted :: "string \<Rightarrow> (string \<times> string) option" where
  "read_quoted [] = None"
| "read_quoted (c # s) =
     (if c = CHR 34 then Some ([], s)
      else if c \<noteq> CHR 92 then put_char c (read_quoted s)
      else case s of
        [] \<Rightarrow> None
      | e # s1 \<Rightarrow>
          if e = CHR ''u'' then (case s1 of
              z1 # z2 # h # l # s2 \<Rightarrow> put_char (char_of (16 * hex_number h + hex_number l)) (read_quoted s2)
            | _ \<Rightarrow> None)
          else (case map_of simple_escapes e of None \<Rightarrow> None | Some d \<Rightarrow> put_char d (read_quoted s1)))"

definition strip :: "string \<Rightarrow> string \<Rightarrow> string option" where
  "strip p s = (if take (length p) s = p then Some (drop (length p) s) else None)"

definition read_login :: "string \<Rightarrow> (string \<times> string) option" where
  "read_login body =
     (case strip (''{'' @ [CHR 34] @ ''username'' @ [CHR 34] @ '':'' @ [CHR 34]) body of None \<Rightarrow> None
      | Some r1 \<Rightarrow> (case read_quoted r1 of None \<Rightarrow> None
      | Some (u, r2) \<Rightarrow> (case strip ('','' @ [CHR 34] @ ''password'' @ [CHR 34] @ '':'' @ [CHR 34]) r2 of None \<Rightarrow> None
      | Some r3 \<Rightarrow> (case read_quoted r3 of None \<Rightarrow> None
      | Some (p, r4) \<Rightarrow> if r4 = ''}'' then Some (u, p) else None))))"

lemma hex_number_digit: "hex_number (hex_digit n) = n mod 16"
proof -
  have "\<forall>i\<in>set [0..<16]. hex_number (''0123456789abcdef'' ! i) = i" by code_simp
  moreover have "n mod 16 \<in> set [0..<16]" by simp
  ultimately show ?thesis unfolding hex_digit_def by blast
qed

lemma read_quoted_char: "read_quoted (quote_char c @ s) = put_char c (read_quoted s)"
proof -
  define n :: nat where "n = of_char c"
  have c: "c = char_of n" by (simp add: n_def)
  have q: "quote_char c = (if n = 34 then [CHR 92, CHR 34] else if n = 92 then [CHR 92, CHR 92]
     else if n = 8 then [CHR 92, CHR ''b''] else if n = 9 then [CHR 92, CHR ''t''] else if n = 10 then [CHR 92, CHR ''n'']
     else if n = 12 then [CHR 92, CHR ''f''] else if n = 13 then [CHR 92, CHR ''r'']
     else if n < 32 then [CHR 92, CHR ''u'', CHR ''0'', CHR ''0'', hex_digit (n div 16), hex_digit n] else [c])"
    by (simp add: quote_char_def n_def Let_def)
  have e: "map_of simple_escapes (CHR 34) = Some (CHR 34)" "map_of simple_escapes (CHR 92) = Some (CHR 92)"
    "map_of simple_escapes (CHR ''b'') = Some (CHR 8)" "map_of simple_escapes (CHR ''t'') = Some (CHR 9)"
    "map_of simple_escapes (CHR ''n'') = Some (CHR 10)" "map_of simple_escapes (CHR ''f'') = Some (CHR 12)"
    "map_of simple_escapes (CHR ''r'') = Some (CHR 13)"
    by (simp_all add: simple_escapes_def)
  have k: "char_of (34 :: nat) = CHR 34" "char_of (92 :: nat) = CHR 92" "char_of (8 :: nat) = CHR 8" "char_of (9 :: nat) = CHR 9"
    "char_of (10 :: nat) = CHR 10" "char_of (12 :: nat) = CHR 12" "char_of (13 :: nat) = CHR 13"
    by code_simp+
  consider "n \<in> {34, 92, 8, 9, 10, 12, 13}" | "n < 32" "n \<notin> {34, 92, 8, 9, 10, 12, 13}" | "n \<noteq> 34" "n \<noteq> 92" "\<not> n < 32" by auto
  then show ?thesis
  proof cases
    case 1
    from 1 c show ?thesis unfolding q by (elim insertE emptyE) (simp_all add: k e)
  next
    case 2
    then have "quote_char c = [CHR 92, CHR ''u'', CHR ''0'', CHR ''0'', hex_digit (n div 16), hex_digit n]"
      unfolding q by simp
    moreover have "16 * (n div 16 mod 16) + n mod 16 = n" using 2(1) by simp
    ultimately show ?thesis by (simp add: hex_number_digit c)
  next
    case 3
    then have "quote_char c = [c]" unfolding q by simp
    moreover have "c \<noteq> CHR 34" "c \<noteq> CHR 92" using 3 by (auto simp: n_def)
    ultimately show ?thesis by simp
  qed
qed

lemma read_quoted_text: "read_quoted (concat (map quote_char u) @ CHR 34 # s) = Some (u, s)"
  by (induction u) (simp_all add: read_quoted_char put_char_def)

lemma strip_append: "strip p (p @ s) = Some s"
  by (simp add: strip_def)

definition login_text :: "string \<Rightarrow> string \<Rightarrow> string" where
  "login_text u p = json_text (JObj [(''username'', JStr u), (''password'', JStr p)])"

lemma read_login_text: "read_login (login_text u p) = Some (u, p)"
proof -
  have plain: "concat (map quote_char ''username'') = ''username''" "concat (map quote_char ''password'') = ''password''"
    by code_simp+
  have "login_text u p = (''{'' @ [CHR 34] @ ''username'' @ [CHR 34] @ '':'' @ [CHR 34]) @ concat (map quote_char u) @ CHR 34 #
      (('','' @ [CHR 34] @ ''password'' @ [CHR 34] @ '':'' @ [CHR 34]) @ concat (map quote_char p) @ CHR 34 # ''}'')"
    unfolding login_text_def json_text.simps list.map prod.case join_with.simps unfolding quote_def plain by simp
  then show ?thesis
    by (simp only: read_login_def strip_append read_quoted_text option.case prod.case) simp
qed

text \<open>C13: A theme that logs in with \<open>fetch\<close> gives away its user name and password and nothing else. Whatever it passes, as an address or a
  request and with or without options: if that is no POST to \<open>/api/login\<close> of the origin of the page, it goes to the
  original \<open>fetch\<close> unchanged. If it is, it never goes there; a request of the bridge is made exactly when the body that the theme
  passes is JSON with a string as user name and one as password, and the body of that request, which keeps the signal, reads as
  an object of just these two strings, whatever characters they contain and whatever else the theme put into its body.\<close>

theorem fetch_sends_only_credentials:
  fixes E :: origin_env and input :: fetch_input and init :: "fetch_init option"
  defines "url \<equiv> (case input of Url a \<Rightarrow> a | Req r \<Rightarrow> rq_url r)"
  defines "meth \<equiv> (case (case init of None \<Rightarrow> None | Some i \<Rightarrow> in_method i) of Some m \<Rightarrow> m
     | None \<Rightarrow> (case input of Url _ \<Rightarrow> ''GET'' | Req r \<Rightarrow> rq_method r))"
  defines "text \<equiv> (case (case init of None \<Rightarrow> None | Some i \<Rightarrow> in_body i) of Some b \<Rightarrow> Inr b
     | None \<Rightarrow> (case input of Url _ \<Rightarrow> Inr [] | Req r \<Rightarrow> rq_text r))"
  shows "(\<not> (to_upper meth = ''POST'' \<and> parse_url E url = Some (origin E, ''/api/login'')) \<longrightarrow> bridge_fetch E input init = Original input init) \<and>
    (to_upper meth = ''POST'' \<and> parse_url E url = Some (origin E, ''/api/login'') \<longrightarrow>
      (\<forall>input' init'. bridge_fetch E input init \<noteq> Original input' init') \<and>
      (\<forall>c g. bridge_fetch E input init = Begin c g \<longrightarrow> g = fetch_signal input init \<and>
        (\<exists>b v u p. text = Inr b \<and> parse E b = Some v \<and> get_prop ''username'' v = Some (JStr u) \<and> get_prop ''password'' v = Some (JStr p) \<and>
          read_login c = Some (u, p))) \<and>
      (\<forall>b v u p. text = Inr b \<and> parse E b = Some v \<and> get_prop ''username'' v = Some (JStr u) \<and> get_prop ''password'' v = Some (JStr p) \<longrightarrow>
        (\<exists>c g. bridge_fetch E input init = Begin c g \<and> read_login c = Some (u, p))))"
proof -
  have forms: "fetch_url input = url" "fetch_method input init = to_upper meth" "fetch_body input init = text"
    by (simp_all add: url_def meth_def text_def fetch_url_def fetch_method_def fetch_body_def Option.bind_def split: fetch_input.split option.split)
  have legacy: "legacyEndpoint E url \<longleftrightarrow> parse_url E url = Some (origin E, ''/api/login'')"
    by (auto simp: legacyEndpoint_def split: option.split)
  have sent: "credentials E b = Inr c \<longleftrightarrow> (\<exists>v u p. parse E b = Some v \<and> get_prop ''username'' v = Some (JStr u) \<and>
     get_prop ''password'' v = Some (JStr p) \<and> c = login_text u p)" for b c
    by (simp add: credentials_Inr login_text_def)
  show ?thesis
  proof (cases "to_upper meth = ''POST'' \<and> parse_url E url = Some (origin E, ''/api/login'')")
    case True
    have run: "bridge_fetch E input init = (case text of Inl e \<Rightarrow> Refused e | Inr b \<Rightarrow>
        (case credentials E b of Inl e \<Rightarrow> Refused e | Inr c \<Rightarrow> Begin c (fetch_signal input init)))"
      using True by (simp add: bridge_fetch_def forms legacy)
    have begin_iff: "bridge_fetch E input init = Begin c g \<longleftrightarrow> g = fetch_signal input init \<and> (\<exists>b. text = Inr b \<and> credentials E b = Inr c)" for c g
      unfolding run by (auto split: sum.split)
    have "bridge_fetch E input init \<noteq> Original i j" for i j
      unfolding run by (auto split: sum.split)
    then show ?thesis
      using True read_login_text unfolding begin_iff sent by fastforce
  next
    case False
    then have "bridge_fetch E input init = Original input init" by (auto simp: bridge_fetch_def forms legacy)
    with False show ?thesis by blast
  qed
qed

definition sample_env :: origin_env where
  "sample_env = \<lparr>parse_url = (\<lambda>u. if u = ''/api/login'' then Some (''https://a'', ''/api/login'') else None), origin = ''https://a'',
     parse = (\<lambda>t. if t = ''A'' then Some (JObj [(''username'', JStr ''u''), (''password'', JStr ''p''), (''otp'', JStr ''1'')])
       else if t = ''B'' then Some (JObj [(''providers'', JArr [JStr ''totp''])]) else None)\<rparr>"

theorem fetch_sends_only_credentials_witness:
  "\<exists>c g. bridge_fetch sample_env (Url ''/api/login'') (Some \<lparr>in_method = Some ''post'', in_body = Some ''A'', in_signal = None\<rparr>) = Begin c g \<and>
     read_login c = Some (''u'', ''p'')"
proof -
  have "to_upper ''post'' = ''POST''" by code_simp
  then show ?thesis
    using fetch_sends_only_credentials [where init = "Some \<lparr>in_method = Some ''post'', in_body = Some ''A'', in_signal = None\<rparr>" and
        input = "Url ''/api/login''" and E = sample_env]
    by (simp add: sample_env_def get_prop_def)
qed

text \<open>C12: Whatever the server answers, the theme that called \<open>fetch\<close> gets no successful response to its login: the promise resolves to a response with an error status,
  is rejected with an \<open>AbortError\<close>, or is never settled while the page goes to the dashboard or to the second factor; the latter happens only after
  a successful answer that says so.\<close>

theorem fetch_never_reports_login:
  assumes "bridge_result (bridge_fetch E input init) a = Some r"
  shows "(\<exists>st body. r = Reply st body \<and> 300 \<le> st \<and> st \<le> 599) \<or> (\<exists>e. r = Reject e \<and> e \<noteq> NotAnError \<and> err_name e = ''AbortError'') \<or>
    (\<exists>st result url. r = Handoff url \<and> a = Answered st (Inr result) \<and> ok_status st \<and>
       (url = ''/admin/dashboard'' \<and> get_prop ''authenticated'' result = Some (JBool True) \<or>
        url = ''/login/verify'' \<and> get_prop ''authenticated'' result \<noteq> Some (JBool True) \<and> (\<exists>x xs. get_prop ''providers'' result = Some (JArr (x # xs)))))"
proof -
  have caught: "(\<exists>st body. bridge_catch e = Reply st body \<and> 300 \<le> st \<and> st \<le> 599) \<or>
      (\<exists>e'. bridge_catch e = Reject e' \<and> e' \<noteq> NotAnError \<and> err_name e' = ''AbortError'')" for e
    by (simp add: bridge_catch_def)
  have fin: "(finish_login v = Inr url) \<longleftrightarrow> (v \<noteq> JNull \<and> (url = ''/admin/dashboard'' \<and> get_prop ''authenticated'' v = Some (JBool True) \<or>
      url = ''/login/verify'' \<and> get_prop ''authenticated'' v \<noteq> Some (JBool True) \<and> (\<exists>x xs. get_prop ''providers'' v = Some (JArr (x # xs)))))" for v url
    by (auto simp: finish_login_def split: option.splits json.splits list.splits)
  have answered: "(\<exists>e. bridge_answer a = bridge_catch e) \<or> (\<exists>st body. bridge_answer a = Reply st body \<and> \<not> ok_status st \<and> response_status st) \<or>
      (\<exists>st v url. a = Answered st (Inr v) \<and> ok_status st \<and> bridge_answer a = Handoff url \<and> finish_login v = Inr url)"
  proof (cases a)
    case (Answered st r)
    show ?thesis
    proof (cases r)
      case (Inr v)
      then show ?thesis using Answered by (cases "ok_status st"; cases "finish_login v"; auto simp: bridge_answer_def)
    qed (auto simp: Answered bridge_answer_def)
  qed (auto simp: bridge_answer_def)
  consider (c) e where "r = bridge_catch e"
    | (reply) st body where "r = Reply st body" "\<not> ok_status st" "response_status st"
    | (go) st v url where "a = Answered st (Inr v)" "ok_status st" "r = Handoff url" "finish_login v = Inr url"
    using assms answered by (auto simp: bridge_result_def split: fetch_call.splits)
  then show ?thesis
  proof cases
    case (c e)
    show ?thesis using caught [of e] unfolding c by (elim disjE) simp_all
  next
    case reply
    then show ?thesis by (auto simp: ok_status_def response_status_def)
  next
    case go
    then have page: "url = ''/admin/dashboard'' \<and> get_prop ''authenticated'' v = Some (JBool True) \<or>
      url = ''/login/verify'' \<and> get_prop ''authenticated'' v \<noteq> Some (JBool True) \<and> (\<exists>x xs. get_prop ''providers'' v = Some (JArr (x # xs)))"
      using fin by simp
    show ?thesis by (rule disjI2, rule disjI2, rule exI [of _ st], rule exI [of _ v], rule exI [of _ url]) (use go(1-3) page in \<open>intro conjI\<close>)
  qed
qed

theorem fetch_never_reports_login_witness:
  "bridge_result (bridge_fetch sample_env (Url ''/api/login'') (Some \<lparr>in_method = Some ''POST'', in_body = Some ''A'', in_signal = None\<rparr>))
     (Answered 200 (Inr (JObj [(''authenticated'', JBool True)]))) = Some (Handoff ''/admin/dashboard'') \<and>
   (\<exists>st result. Answered 200 (Inr (JObj [(''authenticated'', JBool True)])) = Answered st (Inr result) \<and> ok_status st)"
proof -
  have run: "bridge_result (bridge_fetch sample_env (Url ''/api/login'') (Some \<lparr>in_method = Some ''POST'', in_body = Some ''A'', in_signal = None\<rparr>))
     (Answered 200 (Inr (JObj [(''authenticated'', JBool True)]))) = Some (Handoff ''/admin/dashboard'')" by code_simp
  from fetch_never_reports_login [OF this] run show ?thesis by blast
qed

section \<open>XMLHttpRequest\<close>

definition bridge_events :: "string set" where
  "bridge_events = {''readystatechange'', ''load'', ''loadend''}"

text \<open>The invariant: a state that is not handled has no mark, the marks of the current one explain what the theme can see, and the request
  of the browser is the one of the login service.\<close>

definition marks_ok :: "bridge_state \<Rightarrow> bool \<Rightarrow> bool \<Rightarrow> nat \<Rightarrow> bool" where
  "marks_ok b settled bare st \<longleftrightarrow>
     (handled b \<longrightarrow> settled \<and> (navigating b \<or> \<not> ok_status st)) \<and>
     (\<not> handled b \<longrightarrow> \<not> navigating b \<and> \<not> overridden b) \<and> (bare \<longleftrightarrow> \<not> overridden b)"

definition own_header :: "string \<times> string \<Rightarrow> bool" where
  "own_header h \<longleftrightarrow> to_lower (fst h) \<in> {''content-type'', ''connect-protocol-version''}"

definition request_ok :: "(string \<times> string) list \<Rightarrow> (string \<times> string) list \<Rightarrow> bool" where
  "request_ok opened headers \<longleftrightarrow>
     opened \<noteq> [] \<and> to_upper (fst (last opened)) = ''POST'' \<and> snd (last opened) = endpoint \<and>
     filter own_header headers = [(''Content-Type'', ''application/json''), (''Connect-Protocol-Version'', ''1'')]"

definition bridge_ok :: "bxhr \<Rightarrow> bool" where
  "bridge_ok s \<longleftrightarrow>
     (case x_entry s of
        None \<Rightarrow> x_own s = None
      | Some i \<Rightarrow> marks_ok (x_states s i) (x_settled s) (x_own s = None) (visible_status s) \<and> request_ok (x_opened s) (x_headers s)) \<and>
     (x_readyState s = 4 \<longleftrightarrow> x_settled s)"

lemma visible_log [simp]: "visible_status (s\<lparr>x_log := l\<rparr>) = visible_status s" "visible_status (s\<lparr>x_headers := hs\<rparr>) = visible_status s"
  by (cases "x_own s"; simp add: visible_status_def)+

lemma ok_log [simp]: "bridge_ok (s\<lparr>x_log := l\<rparr>) = bridge_ok s"
  by (cases "x_entry s") (simp_all add: bridge_ok_def)

lemma handle_done_fields [simp]:
  "x_entry (handle_done E i s) = x_entry s" "x_settled (handle_done E i s) = x_settled s" "x_readyState (handle_done E i s) = x_readyState s"
  "x_opened (handle_done E i s) = x_opened s" "x_headers (handle_done E i s) = x_headers s" "x_log (handle_done E i s) = x_log s"
  by (simp_all add: handle_done_def override_def Let_def split: option.split sum.split)

lemma handle_done_marks:
  assumes "marks_ok (x_states s i) settled (x_own s = None) (visible_status s)" and "\<not> handled (x_states s i)" and settled
  shows "marks_ok (x_states (handle_done E i s) i) settled (x_own (handle_done E i s) = None) (visible_status (handle_done E i s))"
    "handled (x_states (handle_done E i s) i)"
proof -
  have "x_own s = None" using assms(1,2) by (auto simp: marks_ok_def)
  then show "marks_ok (x_states (handle_done E i s) i) settled (x_own (handle_done E i s) = None) (visible_status (handle_done E i s))"
    "handled (x_states (handle_done E i s) i)"
    using assms by (auto simp: handle_done_def override_def marks_ok_def visible_status_def ok_status_def Let_def split: option.split sum.split)
qed

lemma ok_listener:
  assumes "bridge_ok s"
  shows "bridge_ok (snd (bridge_listener E i s))"
proof (cases "x_entry s = Some i \<and> x_readyState s = 4 \<and> \<not> handled (x_states s i)")
  case True
  then have "marks_ok (x_states s i) (x_settled s) (x_own s = None) (visible_status s)" "x_settled s"
    using assms by (auto simp: bridge_ok_def)
  with True show ?thesis using assms handle_done_marks [of s i "x_settled s" E] by (simp add: bridge_ok_def bridge_listener_def Let_def)
qed (use assms in \<open>auto simp: bridge_listener_def Let_def\<close>)

lemma ok_call: "bridge_ok s \<Longrightarrow> bridge_ok (call_listeners E name ls s)"
proof (induction E name ls s rule: call_listeners.induct)
  case (3 E name i ls s)
  obtain stop s' where l: "bridge_listener E i s = (stop, s')" by fastforce
  then have "bridge_ok s'" using ok_listener [OF "3.prems", of E i] by simp
  then show ?case using 3 l by simp
qed simp_all

lemma own_headers: "own_header (''Content-Type'', ''application/json'')" "own_header (''Connect-Protocol-Version'', ''1'')"
  by code_simp+

lemma ok_open:
  assumes "bridge_ok s"
  shows "bridge_ok (bridge_open E m u s)"
proof -
  define own where "own = (case x_entry s of Some i \<Rightarrow> if overridden (x_states s i) then None else x_own s | None \<Rightarrow> x_own s)"
  have "own = None" using assms by (auto simp: own_def bridge_ok_def marks_ok_def split: option.splits)
  then show ?thesis
    by (cases "x_entry s")
      (auto simp: own_def bridge_ok_def bridge_open_def marks_ok_def request_ok_def own_headers visible_status_def Let_def split: option.splits if_splits)
qed

lemma ok_exec: "bridge_ok s \<Longrightarrow> bridge_ok (xexec E a s)"
proof (cases a)
  case (XOpen m u)
  then show "bridge_ok s \<Longrightarrow> bridge_ok (xexec E a s)" by (simp add: ok_open)
next
  case (XFire name)
  then show "bridge_ok s \<Longrightarrow> bridge_ok (xexec E a s)" by (simp add: ok_call)
next
  case (XSetHeader n v)
  have step: "bridge_setRequestHeader n v s = (if x_entry s \<noteq> None \<and> own_header (n, v) then s else s\<lparr>x_headers := x_headers s @ [(n, v)]\<rparr>)"
    by (simp add: bridge_setRequestHeader_def own_header_def)
  show "bridge_ok s \<Longrightarrow> bridge_ok (xexec E a s)"
    by (cases "x_entry s"; cases "own_header (n, v)") (simp_all add: XSetHeader step bridge_ok_def request_ok_def)
next
  case (XProgress rs st t)
  then show "bridge_ok s \<Longrightarrow> bridge_ok (xexec E a s)" by (auto simp: bridge_ok_def marks_ok_def visible_status_def split: option.splits)
next
  case (XAnswer st t js)
  then show "bridge_ok s \<Longrightarrow> bridge_ok (xexec E a s)" by (auto simp: bridge_ok_def marks_ok_def visible_status_def split: option.splits)
qed (auto simp: bridge_ok_def bridge_send_def visible_status_def split: sum.splits option.splits)

lemma ok_run: "bridge_ok (xrun E as)"
proof -
  have "bridge_ok s \<Longrightarrow> bridge_ok (fold (xexec E) as s)" for s
    by (induction as arbitrary: s) (simp_all add: ok_exec)
  moreover have "bridge_ok new_xhr" by (simp add: bridge_ok_def new_xhr_def)
  ultimately show ?thesis by (simp add: xrun_def)
qed

section \<open>Listeners in the order of their registration\<close>

text \<open>The theme's listeners of an event in a list of registrations, and those that a sequence of actions adds.\<close>

definition theme_of :: "listener \<Rightarrow> nat list" where
  "theme_of l = (case l of Theme t \<Rightarrow> [t] | Bridge _ \<Rightarrow> [])"

definition themes :: "string \<Rightarrow> (string \<times> listener) list \<Rightarrow> nat list" where
  "themes name ls = concat (map (\<lambda>l. theme_of (snd l)) (filter (\<lambda>l. fst l = name) ls))"

definition listens :: "string \<Rightarrow> xaction list \<Rightarrow> nat list" where
  "listens name as = concat (map (\<lambda>a. case a of XListen n t \<Rightarrow> if n = name then [t] else [] | _ \<Rightarrow> []) as)"

definition no_open :: "xaction list \<Rightarrow> bool" where
  "no_open as \<longleftrightarrow> list_all (\<lambda>a. case a of XOpen _ _ \<Rightarrow> False | _ \<Rightarrow> True) as"

lemma call_keeps:
  "x_entry (call_listeners E name ls s) = x_entry s \<and> x_listeners (call_listeners E name ls s) = x_listeners s \<and>
   x_count (call_listeners E name ls s) = x_count s"
proof (induction E name ls s rule: call_listeners.induct)
  case (3 E name i ls s)
  obtain stop s' where l: "bridge_listener E i s = (stop, s')" by fastforce
  then have "x_entry s' = x_entry s" "x_listeners s' = x_listeners s" "x_count s' = x_count s"
    by (auto simp: bridge_listener_def handle_done_def override_def Let_def split: if_splits option.splits sum.splits)
  then show ?case using 3 l by simp
qed simp_all

lemma later_listeners:
  "no_open as \<Longrightarrow> x_entry (fold (xexec E) as s) = x_entry s \<and>
     (\<exists>ls. x_listeners (fold (xexec E) as s) = x_listeners s @ ls \<and>
       map snd (filter (\<lambda>l. fst l = name) ls) = map Theme (listens name as))"
proof (induction as arbitrary: s)
  case (Cons a as)
  have one: "x_entry (xexec E a s) = x_entry s \<and> (\<exists>l1. x_listeners (xexec E a s) = x_listeners s @ l1 \<and>
      map snd (filter (\<lambda>l. fst l = name) l1) = map Theme (listens name [a]))"
    using Cons.prems call_keeps
    by (cases a) (auto simp: no_open_def listens_def bridge_setRequestHeader_def bridge_send_def split: sum.split)
  moreover have "no_open as" using Cons.prems by (simp add: no_open_def)
  ultimately show ?case
    using Cons.IH [of "xexec E a s"] by (auto simp: listens_def)
qed (simp add: listens_def)

text \<open>The listeners of the bridge have the numbers of states that exist.\<close>

definition numbered :: "bxhr \<Rightarrow> bool" where
  "numbered s \<longleftrightarrow> (\<forall>n i. (n, Bridge i) \<in> set (x_listeners s) \<longrightarrow> i < x_count s)"

lemma numbered_run: "numbered (xrun E as)"
proof -
  have "numbered s \<Longrightarrow> numbered (xexec E a s)" for a s
  proof (cases a)
    case (XFire name)
    then show "numbered s \<Longrightarrow> numbered (xexec E a s)" using call_keeps by (simp add: numbered_def)
  next
    case (XOpen m u)
    then show "numbered s \<Longrightarrow> numbered (xexec E a s)"
      by (auto simp: numbered_def bridge_open_def Let_def less_Suc_eq split: option.split)
  qed (auto simp: numbered_def bridge_setRequestHeader_def bridge_send_def split: sum.split)
  then have "numbered s \<Longrightarrow> numbered (fold (xexec E) as s)" for s
    by (induction as arbitrary: s) simp_all
  moreover have "numbered new_xhr" by (simp add: numbered_def new_xhr_def)
  ultimately show ?thesis by (simp add: xrun_def)
qed

text \<open>An object on which the theme has opened a login: the listener of the bridge stands between the listeners that the theme
  registered before and those after.\<close>

lemma opened_listeners:
  fixes E :: origin_env and m u name :: string and as1 as2 :: "xaction list"
  assumes "login_open E m u" and "no_open as2" and "name \<in> bridge_events"
  defines "s0 \<equiv> xrun E as1" and "s \<equiv> xrun E (as1 @ XOpen m u # as2)"
  shows "\<exists>ls. bridge_listeners_of name s = ls @ Bridge (x_count s0) # map Theme (listens name as2) \<and>
      Bridge (x_count s0) \<notin> set ls \<and> concat (map theme_of ls) = themes name (x_listeners s0)"
    and "x_entry s = Some (x_count s0)"
proof -
  define s1 where "s1 = bridge_open E m u s0"
  have legacy: "to_upper m = ''POST''" "legacyEndpoint E u"
    using assms(1) by (auto simp: login_open_def legacyEndpoint_def split: option.splits)
  have s1: "x_entry s1 = Some (x_count s0)" "x_listeners s1 = x_listeners s0 @
      [(''readystatechange'', Bridge (x_count s0)), (''load'', Bridge (x_count s0)), (''loadend'', Bridge (x_count s0))]"
    by (simp_all add: s1_def bridge_open_def legacy Let_def split: option.split)
  have s: "s = fold (xexec E) as2 s1" by (simp add: s_def s1_def s0_def xrun_def)
  show "x_entry s = Some (x_count s0)" using later_listeners [OF assms(2)] s1(1) s by simp
  obtain ls where ls: "x_listeners s = x_listeners s1 @ ls" "map snd (filter (\<lambda>l. fst l = name) ls) = map Theme (listens name as2)"
    using later_listeners [OF assms(2), of E s1 name] s by auto
  have "bridge_listeners_of name s = map snd (filter (\<lambda>l. fst l = name) (x_listeners s0)) @ Bridge (x_count s0) # map Theme (listens name as2)"
    using assms(3) ls s1(2) by (auto simp: bridge_listeners_of_def bridge_events_def)
  moreover have "Bridge (x_count s0) \<notin> set (map snd (filter (\<lambda>l. fst l = name) (x_listeners s0)))"
    using numbered_run [of E as1] by (fastforce simp: numbered_def s0_def)
  moreover have "concat (map theme_of (map snd (filter (\<lambda>l. fst l = name) (x_listeners s0)))) = themes name (x_listeners s0)"
    by (simp add: themes_def comp_def)
  ultimately show "\<exists>ls. bridge_listeners_of name s = ls @ Bridge (x_count s0) # map Theme (listens name as2) \<and>
      Bridge (x_count s0) \<notin> set ls \<and> concat (map theme_of ls) = themes name (x_listeners s0)"
    by blast
qed

text \<open>What the listeners of the theme see while the bridge leaves the object alone: what it looks like.\<close>

definition seen :: "string \<Rightarrow> bxhr \<Rightarrow> nat list \<Rightarrow> (nat \<times> string \<times> nat \<times> nat) list" where
  "seen name s ts = map (\<lambda>t. (t, name, x_readyState s, visible_status s)) ts"

lemma seen_log [simp]: "seen name (s\<lparr>x_log := l\<rparr>) ts = seen name s ts"
  by (simp add: seen_def)

text \<open>A listener of the bridge that has nothing to do: it is one of an earlier state, the request is under way, or its answer is handled and
  the page stays.\<close>

definition rests :: "bxhr \<Rightarrow> listener \<Rightarrow> bool" where
  "rests s l \<longleftrightarrow> (case l of Theme _ \<Rightarrow> True
     | Bridge j \<Rightarrow> x_entry s \<noteq> Some j \<or> x_readyState s \<noteq> 4 \<or> handled (x_states s j) \<and> \<not> navigating (x_states s j))"

lemma rests_log [simp]: "rests (s\<lparr>x_log := x\<rparr>) l = rests s l"
  by (cases l) (simp_all add: rests_def)

lemma resting_calls:
  "list_all (rests s) ls \<Longrightarrow>
   call_listeners E name (ls @ ls') s = call_listeners E name ls' (s\<lparr>x_log := x_log s @ seen name s (concat (map theme_of ls))\<rparr>)"
proof (induction ls arbitrary: s)
  case (Cons l ls)
  show ?case
  proof (cases l)
    case (Bridge j)
    then have "bridge_listener E j s = (False, s)" using Cons.prems by (auto simp: bridge_listener_def rests_def)
    then show ?thesis using Cons Bridge by (simp add: theme_of_def)
  next
    case (Theme t)
    define s1 where "s1 = s\<lparr>x_log := x_log s @ seen name s [t]\<rparr>"
    have "list_all (rests s1) ls"
      using Cons.prems by (simp add: list_all_iff s1_def)
    from Cons.IH [OF this] show ?thesis using Theme by (simp add: theme_of_def s1_def) (simp add: seen_def)
  qed
qed (simp add: seen_def)

text \<open>The listener of the current state of a finished request either stops the event, or leaves no success to see.\<close>

lemma bridge_handles:
  assumes "bridge_ok s" and "x_entry s = Some i" and "x_readyState s = 4"
  obtains s' where "bridge_listener E i s = (navigating (x_states s' i), s')" and "x_log s' = x_log s" and "x_entry s' = Some i"
    and "handled (x_states s' i)" and "\<not> navigating (x_states s' i) \<Longrightarrow> \<not> ok_status (visible_status s')"
proof -
  obtain stop s' where l: "bridge_listener E i s = (stop, s')" by fastforce
  have s': "bridge_ok s'" "x_log s' = x_log s" "x_entry s' = Some i" "handled (x_states s' i)" "stop = navigating (x_states s' i)"
    using ok_listener [OF assms(1), of E i] l assms(2,3) handle_done_marks(2) [of s i "x_settled s" E] assms(1)
    by (auto simp: bridge_listener_def Let_def bridge_ok_def split: if_splits)
  then show ?thesis
    using that [of s'] l by (auto simp: bridge_ok_def marks_ok_def)
qed

lemma late_calls:
  assumes "bridge_ok s" and "x_entry s = Some i" and "x_readyState s = 4"
  shows "\<exists>es. x_log (call_listeners E name (Bridge i # map Theme ts) s) = x_log s @ es \<and> (es = [] \<or> map fst es = ts) \<and>
    (\<forall>e\<in>set es. \<not> ok_status (snd (snd (snd e))))"
proof -
  obtain s' where s': "bridge_listener E i s = (navigating (x_states s' i), s')" "x_log s' = x_log s"
    "\<not> navigating (x_states s' i) \<Longrightarrow> \<not> ok_status (visible_status s')"
    using bridge_handles [OF assms, where E = E] by metis
  show ?thesis
  proof (cases "navigating (x_states s' i)")
    case False
    have "concat (map theme_of (map Theme ts)) = ts" "list_all (rests s') (map Theme ts)"
      by (simp_all add: theme_of_def comp_def list_all_iff rests_def)
    then have "call_listeners E name (Bridge i # map Theme ts) s = s'\<lparr>x_log := x_log s @ seen name s' ts\<rparr>"
      using False s'(1,2) resting_calls [of s' "map Theme ts" E name "[]"] by simp
    then show ?thesis
      using s'(3) [OF False] by (intro exI [of _ "seen name s' ts"]) (auto simp: seen_def comp_def)
  qed (use s' in auto)
qed

text \<open>C11: Once the request of a login is done, no listener that the theme registered after its call of \<open>open\<close> sees a success. Whatever
  the theme did before it opened the login and does after, short of opening another request, and whatever the server answers: the browser was asked
  for a POST to the endpoint of the login service with the two headers of the bridge; and when \<open>readystatechange\<close>, \<open>load\<close> or \<open>loadend\<close>
  is fired with \<open>readyState\<close> 4, the listeners registered before \<open>open\<close> are called first, and then either those registered after it are
  not called, or each of them is, in order, and sees a status that is none of a success. (What listeners see before
  \<open>readyState\<close> is 4, and what the early ones see, is another theorem.)\<close>

theorem xhr_never_reports_login:
  fixes E :: origin_env and m u name :: string and as1 as2 :: "xaction list"
  assumes "login_open E m u" and "no_open as2"
  defines "s \<equiv> xrun E (as1 @ XOpen m u # as2)"
  shows "request_ok (x_opened s) (x_headers s) \<and>
    (x_readyState s = 4 \<and> name \<in> bridge_events \<longrightarrow>
      (\<exists>es. x_log (xrun E (as1 @ XOpen m u # as2 @ [XFire name])) =
          x_log s @ map (\<lambda>t. (t, name, 4, visible_status s)) (themes name (x_listeners (xrun E as1))) @ es \<and>
        (es = [] \<or> map fst es = listens name as2) \<and> (\<forall>e\<in>set es. \<not> ok_status (snd (snd (snd e))))))"
proof (intro conjI impI)
  have entry: "x_entry s = Some (x_count (xrun E as1))"
    using opened_listeners(2) [OF assms(1,2), of "''load''"] by (simp add: bridge_events_def s_def)
  then show "request_ok (x_opened s) (x_headers s)"
    using ok_run [of E "as1 @ XOpen m u # as2"] by (simp add: bridge_ok_def s_def)
  let ?i = "x_count (xrun E as1)"
  assume fin: "x_readyState s = 4 \<and> name \<in> bridge_events"
  then obtain ls where ls: "bridge_listeners_of name s = ls @ Bridge ?i # map Theme (listens name as2)" "Bridge ?i \<notin> set ls"
    "concat (map theme_of ls) = themes name (x_listeners (xrun E as1))"
    using opened_listeners(1) [OF assms(1,2), of name] by (auto simp: s_def)
  let ?s = "s\<lparr>x_log := x_log s @ seen name s (themes name (x_listeners (xrun E as1)))\<rparr>"
  have "list_all (rests s) ls"
    using ls(2) entry by (auto simp: list_all_iff rests_def split: listener.split)
  then have "xrun E (as1 @ XOpen m u # as2 @ [XFire name]) = call_listeners E name (Bridge ?i # map Theme (listens name as2)) ?s"
    using resting_calls [of s ls E name] ls by (simp add: s_def xrun_def)
  moreover have "bridge_ok ?s" using ok_run [of E "as1 @ XOpen m u # as2"] by (simp add: s_def)
  ultimately show "\<exists>es. x_log (xrun E (as1 @ XOpen m u # as2 @ [XFire name])) =
          x_log s @ map (\<lambda>t. (t, name, 4, visible_status s)) (themes name (x_listeners (xrun E as1))) @ es \<and>
        (es = [] \<or> map fst es = listens name as2) \<and> (\<forall>e\<in>set es. \<not> ok_status (snd (snd (snd e))))"
    using late_calls [of ?s ?i E name "listens name as2"] entry fin by (auto simp: seen_def)
qed

definition theme_login :: "xaction list" where
  "theme_login = [XSetHeader ''content-type'' ''text/plain'', XListen ''load'' 7, XSend ''A'', XProgress 2 200 (Inr []), XAnswer 200 (Inr ''C'') JNull]"

theorem xhr_never_reports_login_witness:
  "\<exists>es. x_log (xrun sample_env (XOpen ''post'' ''/api/login'' # theme_login @ [XFire ''load''])) = es \<and> map fst es = [7] \<and>
    (\<forall>e\<in>set es. \<not> ok_status (snd (snd (snd e))))"
proof -
  have run: "login_open sample_env ''post'' ''/api/login''" "no_open theme_login"
    "x_readyState (xrun sample_env (XOpen ''post'' ''/api/login'' # theme_login)) = 4"
    "x_log (xrun sample_env (XOpen ''post'' ''/api/login'' # theme_login)) = []" "themes ''load'' (x_listeners (xrun sample_env [])) = []"
    "map fst (x_log (xrun sample_env (XOpen ''post'' ''/api/login'' # theme_login @ [XFire ''load'']))) = [7]"
    by code_simp+
  then show ?thesis
    using xhr_never_reports_login [OF run(1,2), of "[]" "''load''"] by (auto simp: bridge_events_def)
qed

text \<open>C37: Not everything is hidden. While the answer of a login arrives (\<open>readyState\<close> 2 or 3) the bridge hides nothing: every
  listener sees its status, a success as well. And a listener that the theme registered before it called \<open>open\<close>, which is the
  usual order for \<open>onreadystatechange\<close> and \<open>onload\<close>, runs before the one of the bridge and sees the status of the finished request
  too, until the bridge has handled it. The comment in the code says that the bridge registers first and hides the success.\<close>

theorem xhr_early_listener_sees_success:
  fixes E :: origin_env and m u name :: string and as1 as2 :: "xaction list"
  assumes "login_open E m u" and "no_open as2" and "name \<in> bridge_events"
  defines "s \<equiv> xrun E (as1 @ XOpen m u # as2)"
  defines "s' \<equiv> xrun E (as1 @ XOpen m u # as2 @ [XFire name])"
  shows "(x_readyState s \<noteq> 4 \<longrightarrow> x_log s' =
      x_log s @ map (\<lambda>t. (t, name, x_readyState s, x_status s)) (themes name (x_listeners (xrun E as1)) @ listens name as2)) \<and>
    (x_readyState s = 4 \<and> \<not> handled (x_states s (the (x_entry s))) \<longrightarrow> (\<exists>es. x_log s' =
      x_log s @ map (\<lambda>t. (t, name, 4, x_status s)) (themes name (x_listeners (xrun E as1))) @ es))"
proof -
  let ?i = "x_count (xrun E as1)"
  have entry: "x_entry s = Some ?i"
    using opened_listeners(2) [OF assms(1-3)] by (simp add: s_def)
  obtain ls where ls: "bridge_listeners_of name s = ls @ Bridge ?i # map Theme (listens name as2)" "Bridge ?i \<notin> set ls"
    "concat (map theme_of ls) = themes name (x_listeners (xrun E as1))"
    using opened_listeners(1) [OF assms(1-3), of as1] by (auto simp: s_def)
  have fire: "s' = call_listeners E name (ls @ Bridge ?i # map Theme (listens name as2)) s"
    using ls(1) by (simp add: s_def s'_def xrun_def)
  have ok: "bridge_ok s" using ok_run by (simp add: s_def)
  have bare: "visible_status s = x_status s" if "x_readyState s \<noteq> 4 \<or> \<not> handled (x_states s ?i)"
    using ok entry that by (auto simp: bridge_ok_def marks_ok_def visible_status_def)
  have early: "list_all (rests s) ls"
    using ls(2) entry by (auto simp: list_all_iff rests_def split: listener.split)
  show ?thesis
  proof (intro conjI impI)
    assume "x_readyState s \<noteq> 4"
    moreover from this have "list_all (rests s) (ls @ Bridge ?i # map Theme (listens name as2))"
      using early by (auto simp: list_all_iff rests_def)
    ultimately show "x_log s' = x_log s @ map (\<lambda>t. (t, name, x_readyState s, x_status s)) (themes name (x_listeners (xrun E as1)) @ listens name as2)"
      using resting_calls [of s "ls @ Bridge ?i # map Theme (listens name as2)" E name "[]"] fire ls(3) bare
      by (simp add: seen_def theme_of_def comp_def)
  next
    assume a: "x_readyState s = 4 \<and> \<not> handled (x_states s (the (x_entry s)))"
    let ?s = "s\<lparr>x_log := x_log s @ seen name s (themes name (x_listeners (xrun E as1)))\<rparr>"
    have "s' = call_listeners E name (Bridge ?i # map Theme (listens name as2)) ?s"
      using resting_calls [OF early] fire ls(3) by simp
    then show "\<exists>es. x_log s' = x_log s @ map (\<lambda>t. (t, name, 4, x_status s)) (themes name (x_listeners (xrun E as1))) @ es"
      using late_calls [of ?s ?i E name "listens name as2"] ok entry a bare by (auto simp: seen_def)
  qed
qed

theorem xhr_early_listener_sees_success_witness:
  "\<exists>es. x_log (xrun sample_env ([XListen ''load'' 7] @ XOpen ''POST'' ''/api/login'' # [XSend ''A'', XAnswer 200 (Inr ''B'') JNull] @ [XFire ''load''])) =
     (7, ''load'', 4, 200) # es"
proof -
  have run: "login_open sample_env ''POST'' ''/api/login''" "no_open [XSend ''A'', XAnswer 200 (Inr ''B'') JNull]"
    "x_readyState (xrun sample_env ([XListen ''load'' 7] @ XOpen ''POST'' ''/api/login'' # [XSend ''A'', XAnswer 200 (Inr ''B'') JNull])) = 4"
    "x_status (xrun sample_env ([XListen ''load'' 7] @ XOpen ''POST'' ''/api/login'' # [XSend ''A'', XAnswer 200 (Inr ''B'') JNull])) = 200"
    "handled (x_states (xrun sample_env ([XListen ''load'' 7] @ XOpen ''POST'' ''/api/login'' # [XSend ''A'', XAnswer 200 (Inr ''B'') JNull]))
       (the (x_entry (xrun sample_env ([XListen ''load'' 7] @ XOpen ''POST'' ''/api/login'' # [XSend ''A'', XAnswer 200 (Inr ''B'') JNull]))))) = False"
    "x_log (xrun sample_env ([XListen ''load'' 7] @ XOpen ''POST'' ''/api/login'' # [XSend ''A'', XAnswer 200 (Inr ''B'') JNull])) = []"
    "themes ''load'' (x_listeners (xrun sample_env [XListen ''load'' 7])) = [7]"
    by code_simp+
  then show ?thesis
    using xhr_early_listener_sees_success [OF run(1,2), of "''load''" "[XListen ''load'' 7]"] by (auto simp: bridge_events_def)
qed

end
