(* ===== verification/Url_Text.thy ===== *)
theory Url_Text
  imports Web_Headers
begin

text \<open>
  The text layer of \<open>pkg/jsruntime/url\<close>: strings as sequences of UTF-16 code units, the conversion of
  lone surrogates (\<open>scalar\<close>), the form encoding \<open>escape\<close> of \<open>url.js\<close> with the standard function
  \<open>encodeURIComponent\<close> under it, and its inverse, the native \<open>decodeForm\<close> of \<open>url.go\<close>, which decodes
  the bytes of UTF-8.

  The conversion of a string to a Go string is part of the JavaScript engine: it is the parameter
  \<open>go_string\<close> of \<open>decodeForm\<close>, with the hypothesis \<open>engine_utf8\<close> that a well-formed string becomes its UTF-8.
\<close>

type_synonym jstr = "16 word list"

definition lit :: "string \<Rightarrow> jstr" where
  "lit s = map (\<lambda>c. of_nat (char_code c)) s"

section \<open>Code units and code points\<close>

definition is_high :: "16 word \<Rightarrow> bool" where
  "is_high u \<longleftrightarrow> 0xD800 \<le> unat u \<and> unat u \<le> 0xDBFF"

definition is_low :: "16 word \<Rightarrow> bool" where
  "is_low u \<longleftrightarrow> 0xDC00 \<le> unat u \<and> unat u \<le> 0xDFFF"

definition unpaired :: "16 word \<Rightarrow> 16 word" where
  "unpaired u = (if is_high u \<or> is_low u then 0xFFFD else u)"

text \<open>\<open>scalar\<close>: a pair of surrogates stays, any other surrogate becomes the replacement character.\<close>

fun scalar :: "jstr \<Rightarrow> jstr" where
  "scalar [] = []"
| "scalar [u] = [unpaired u]"
| "scalar (u # v # s) = (if is_high u \<and> is_low v then u # v # scalar s else unpaired u # scalar (v # s))"

text \<open>The code points of a string; \<open>None\<close> when a surrogate is alone.\<close>

definition pair_point :: "16 word \<Rightarrow> 16 word \<Rightarrow> nat" where
  "pair_point u v = 0x10000 + (unat u - 0xD800) * 0x400 + (unat v - 0xDC00)"

fun codepoints :: "jstr \<Rightarrow> nat list option" where
  "codepoints [] = Some []"
| "codepoints [u] = (if is_high u \<or> is_low u then None else Some [unat u])"
| "codepoints (u # v # s) =
     (if is_high u \<and> is_low v then map_option (Cons (pair_point u v)) (codepoints s)
      else if is_high u \<or> is_low u then None
      else map_option (Cons (unat u)) (codepoints (v # s)))"

definition well_formed :: "jstr \<Rightarrow> bool" where
  "well_formed s \<longleftrightarrow> codepoints s \<noteq> None"

definition units :: "nat \<Rightarrow> jstr" where
  "units c = (if c < 0x10000 then [of_nat c]
     else [of_nat (0xD800 + (c - 0x10000) div 0x400), of_nat (0xDC00 + (c - 0x10000) mod 0x400)])"

definition scalar_value :: "nat \<Rightarrow> bool" where
  "scalar_value c \<longleftrightarrow> c < 0xD800 \<or> 0xE000 \<le> c \<and> c < 0x110000"

section \<open>UTF-8\<close>

definition utf8_codes :: "nat \<Rightarrow> nat list" where
  "utf8_codes c = (if c < 0x80 then [c]
     else if c < 0x800 then [0xC0 + c div 64, 0x80 + c mod 64]
     else if c < 0x10000 then [0xE0 + c div 4096, 0x80 + c div 64 mod 64, 0x80 + c mod 64]
     else [0xF0 + c div 262144, 0x80 + c div 4096 mod 64, 0x80 + c div 64 mod 64, 0x80 + c mod 64])"

definition utf8 :: "nat \<Rightarrow> bytes" where
  "utf8 c = map of_nat (utf8_codes c)"

text \<open>Go's decoding of the next rune of a string: its value and its width, with the replacement
  character for a byte that starts no valid sequence.\<close>

definition cont :: "nat \<Rightarrow> bool" where
  "cont b \<longleftrightarrow> 0x80 \<le> b \<and> b \<le> 0xBF"

definition second_ok :: "nat \<Rightarrow> nat \<Rightarrow> bool" where
  "second_ok b0 b1 \<longleftrightarrow> (if b0 = 0xE0 then 0xA0 else if b0 = 0xF0 then 0x90 else 0x80) \<le> b1 \<and>
     b1 \<le> (if b0 = 0xED then 0x9F else if b0 = 0xF4 then 0x8F else 0xBF)"

definition decode_rune :: "nat list \<Rightarrow> nat \<times> nat" where
  "decode_rune s = (case s of
       [] \<Rightarrow> (0xFFFD, 0)
     | b0 # s1 \<Rightarrow> if b0 < 0x80 then (b0, 1) else (case s1 of
         [] \<Rightarrow> (0xFFFD, 1)
       | b1 # s2 \<Rightarrow> if \<not> second_ok b0 b1 then (0xFFFD, 1)
         else if 0xC2 \<le> b0 \<and> b0 \<le> 0xDF then ((b0 - 0xC0) * 64 + (b1 - 0x80), 2)
         else (case s2 of
           [] \<Rightarrow> (0xFFFD, 1)
         | b2 # s3 \<Rightarrow> if \<not> cont b2 then (0xFFFD, 1)
           else if 0xE0 \<le> b0 \<and> b0 \<le> 0xEF then ((b0 - 0xE0) * 4096 + (b1 - 0x80) * 64 + (b2 - 0x80), 3)
           else (case s3 of
             [] \<Rightarrow> (0xFFFD, 1)
           | b3 # _ \<Rightarrow> if cont b3 \<and> 0xF0 \<le> b0 \<and> b0 \<le> 0xF4
               then ((b0 - 0xF0) * 262144 + (b1 - 0x80) * 4096 + (b2 - 0x80) * 64 + (b3 - 0x80), 4)
               else (0xFFFD, 1)))))"

fun rune_loop :: "nat list \<Rightarrow> nat list" where
  "rune_loop [] = []"
| "rune_loop (b # s) = (case decode_rune (b # s) of (r, w) \<Rightarrow> r # rune_loop (drop (w - 1) s))"

definition runes :: "bytes \<Rightarrow> nat list" where
  "runes b = rune_loop (map unat b)"

section \<open>The form encoding\<close>

definition hex_digit :: "nat \<Rightarrow> 16 word" where
  "hex_digit n = of_nat (if n < 10 then 48 + n else 55 + n)"

definition percent :: "nat \<Rightarrow> jstr" where
  "percent n = [0x25, hex_digit (n div 16), hex_digit (n mod 16)]"

definition uri_unreserved :: "nat \<Rightarrow> bool" where
  "uri_unreserved c \<longleftrightarrow> 65 \<le> c \<and> c \<le> 90 \<or> 97 \<le> c \<and> c \<le> 122 \<or> 48 \<le> c \<and> c \<le> 57 \<or>
     c \<in> set (map char_code ''-_.!~*'' @ [39, 40, 41])"

definition encodeURIComponent :: "jstr \<Rightarrow> jstr option" where
  "encodeURIComponent s = map_option (\<lambda>cs. concat (map (\<lambda>c.
     if uri_unreserved c then [of_nat c] else concat (map (percent \<circ> unat) (utf8 c))) cs)) (codepoints s)"

text \<open>\<open>String.prototype.replace\<close> of every occurrence of a literal text.\<close>

fun replace_all :: "'a list \<Rightarrow> 'a list \<Rightarrow> 'a list \<Rightarrow> 'a list" where
  "replace_all pat rep [] = []"
| "replace_all pat rep (c # s) =
     (if pat \<noteq> [] \<and> take (length pat) (c # s) = pat then rep @ replace_all pat rep (drop (length pat - 1) s)
      else c # replace_all pat rep s)"

definition escape_mark :: "16 word \<Rightarrow> jstr" where
  "escape_mark u = (if unat u \<in> {33, 39, 40, 41, 126} then percent (unat u) else [u])"

definition escape :: "jstr \<Rightarrow> jstr option" where
  "escape s = map_option (\<lambda>t. replace_all (lit ''%20'') (lit ''+'') (concat (map escape_mark t)))
     (encodeURIComponent s)"

definition hex_value :: "byte \<Rightarrow> nat option" where
  "hex_value b = (let n = unat b in
     if 48 \<le> n \<and> n \<le> 57 then Some (n - 48)
     else if 65 \<le> n \<and> n \<le> 70 then Some (n - 55)
     else if 97 \<le> n \<and> n \<le> 102 then Some (n - 87) else None)"

fun form_bytes :: "bytes \<Rightarrow> bytes" where
  "form_bytes (b # h # l # s) =
     (if b = 0x2B then 0x20 # form_bytes (h # l # s)
      else if b = 0x25 then (case (hex_value h, hex_value l) of
          (Some x, Some y) \<Rightarrow> of_nat (16 * x + y) # form_bytes s
        | _ \<Rightarrow> b # form_bytes (h # l # s))
      else b # form_bytes (h # l # s))"
| "form_bytes (b # s) = (if b = 0x2B then 0x20 else b) # form_bytes s"
| "form_bytes [] = []"

definition decodeForm :: "(jstr \<Rightarrow> bytes) \<Rightarrow> jstr \<Rightarrow> jstr" where
  "decodeForm go_string s = concat (map units (runes (form_bytes (go_string s))))"

definition engine_utf8 :: "(jstr \<Rightarrow> bytes) \<Rightarrow> bool" where
  "engine_utf8 go_string \<longleftrightarrow> (\<forall>s cs. codepoints s = Some cs \<longrightarrow> go_string s = concat (map utf8 cs))"

text \<open>A conversion that satisfies the hypothesis: lone surrogates are replaced.\<close>

definition go_utf8 :: "jstr \<Rightarrow> bytes" where
  "go_utf8 s = concat (map utf8 (case codepoints (scalar s) of Some cs \<Rightarrow> cs | None \<Rightarrow> []))"

section \<open>Conversions are inverse\<close>

lemma unat_bound16: "unat (u :: 16 word) < 65536"
  using unsigned_less [of u] by simp

lemma units_point: "\<not> is_high u \<Longrightarrow> \<not> is_low u \<Longrightarrow> units (unat u) = [u] \<and> scalar_value (unat u)"
  using unat_bound16 [of u] by (auto simp: units_def scalar_value_def is_high_def is_low_def)

lemma units_pair: "is_high u \<Longrightarrow> is_low v \<Longrightarrow> units (pair_point u v) = [u, v] \<and> scalar_value (pair_point u v)"
proof -
  assume "is_high u" "is_low v"
  then have h: "0xD800 \<le> unat u" "unat u \<le> 0xDBFF" "0xDC00 \<le> unat v" "unat v \<le> 0xDFFF"
    by (simp_all add: is_high_def is_low_def)
  define a b where "a = unat u - 0xD800" and "b = unat v - 0xDC00"
  with h have a: "unat u = 0xD800 + a" "a < 1024" and b: "unat v = 0xDC00 + b" "b < 1024"
    by linarith+
  have "u = of_nat (unat u)" "v = of_nat (unat v)"
    by simp_all
  then have "u = of_nat (0xD800 + a)" "v = of_nat (0xDC00 + b)"
    by (simp_all only: a b)
  then show ?thesis
    using a b by (simp add: units_def pair_point_def scalar_value_def)
qed

lemma codepoints_units:
  "codepoints s = Some cs \<Longrightarrow> concat (map units cs) = s \<and> list_all scalar_value cs"
  by (induction s arbitrary: cs rule: codepoints.induct)
    (auto simp: units_point units_pair split: if_splits)

lemma unpaired_ok: "\<not> is_high (unpaired u) \<and> \<not> is_low (unpaired u)"
  by (auto simp: unpaired_def is_high_def is_low_def)

lemma codepoints_Cons_plain:
  "\<not> is_high u \<Longrightarrow> \<not> is_low u \<Longrightarrow> codepoints (u # s) = map_option (Cons (unat u)) (codepoints s)"
  by (cases s) auto

lemma well_formed_scalar: "well_formed (scalar s)"
  by (induction s rule: scalar.induct)
    (auto simp: well_formed_def unpaired_ok codepoints_Cons_plain simp del: not_None_eq)

lemma scalar_well_formed: "well_formed s \<Longrightarrow> scalar s = s"
  by (induction s rule: scalar.induct)
    (auto simp: well_formed_def unpaired_def split: if_splits)

lemma scalar_idem [simp]: "scalar (scalar s) = scalar s"
  by (simp add: scalar_well_formed well_formed_scalar)

lemma unat_byte [simp]: "n < 256 \<Longrightarrow> unat (of_nat n :: byte) = n"
  by (simp add: unat_of_nat)

lemma decode_rune_two:
  assumes "2 \<le> a" "a < 32" "b < 64"
  shows "decode_rune ((0xC0 + a) # (0x80 + b) # s) = (a * 64 + b, 2)"
  using assms by (auto simp: decode_rune_def second_ok_def)

lemma decode_rune_three:
  assumes "a < 16" "b < 64" "c < 64" "a = 0 \<Longrightarrow> 32 \<le> b" "a = 13 \<Longrightarrow> b < 32"
  shows "decode_rune ((0xE0 + a) # (0x80 + b) # (0x80 + c) # s) = (a * 4096 + b * 64 + c, 3)"
  using assms by (auto simp: decode_rune_def second_ok_def cont_def)

lemma decode_rune_four:
  assumes "a < 5" "b < 64" "c < 64" "d < 64" "a = 0 \<Longrightarrow> 16 \<le> b" "a = 4 \<Longrightarrow> b < 16"
  shows "decode_rune ((0xF0 + a) # (0x80 + b) # (0x80 + c) # (0x80 + d) # s) = (a * 262144 + b * 4096 + c * 64 + d, 4)"
  using assms by (auto simp: decode_rune_def second_ok_def cont_def)

lemma utf8_codes_bytes: "scalar_value c \<Longrightarrow> map unat (utf8 c) = utf8_codes c"
proof -
  assume "scalar_value c"
  then have "list_all (\<lambda>n. n < 256) (utf8_codes c)"
    by (auto simp: utf8_codes_def scalar_value_def)
  then show ?thesis
    by (simp add: utf8_def list_all_iff map_idI)
qed

lemma utf8_not_Nil [simp]: "utf8_codes c \<noteq> []" "utf8 c \<noteq> []"
  by (simp_all add: utf8_def utf8_codes_def)

lemma split64: "(n::nat) = n div 64 * 64 + n mod 64"
  by simp

lemma div64: "(n::nat) div 64 div 64 = n div 4096" "n div 4096 div 64 = n div 262144"
  by (simp_all flip: div_mult2_eq)

lemma decode_rune_utf8:
  assumes "scalar_value c"
  shows "decode_rune (utf8_codes c @ s) = (c, length (utf8_codes c))"
proof -
  consider "c < 0x80" | "0x80 \<le> c" "c < 0x800" | "0x800 \<le> c" "c < 0x10000" | "0x10000 \<le> c" "c < 0x110000"
    using assms by (fastforce simp: scalar_value_def)
  then show ?thesis
  proof cases
    case 1
    then show ?thesis by (simp add: utf8_codes_def decode_rune_def)
  next
    case 2
    then have "2 \<le> c div 64" "c div 64 < 32" by auto
    then show ?thesis using 2 decode_rune_two [of "c div 64" "c mod 64" s] by (simp add: utf8_codes_def)
  next
    case 3
    then have a: "c div 4096 < 16" by auto
    have z: "32 \<le> c div 64 mod 64" if "c div 4096 = 0" using 3 that by auto
    note sp = split64 [of c] split64 [of "c div 64", unfolded div64]
    from sp(2) assms have y: "c div 64 mod 64 < 32" if "c div 4096 = 13" using that by (auto simp: scalar_value_def)
    have "c div 4096 * 4096 + c div 64 mod 64 * 64 + c mod 64 = c" using sp by linarith
    then show ?thesis
      using 3 a decode_rune_three [of "c div 4096" "c div 64 mod 64" "c mod 64" s, OF _ _ _ z y] by (simp add: utf8_codes_def)
  next
    case 4
    then have a: "c div 262144 < 5" by auto
    have z: "16 \<le> c div 4096 mod 64" if "c div 262144 = 0" using 4 that by auto
    note sp = split64 [of c] split64 [of "c div 64", unfolded div64] split64 [of "c div 4096", unfolded div64]
    from sp(3) 4 have y: "c div 4096 mod 64 < 16" if "c div 262144 = 4" using that by auto
    have "c div 262144 * 262144 + c div 4096 mod 64 * 4096 + c div 64 mod 64 * 64 + c mod 64 = c" using sp by linarith
    then show ?thesis
      using 4 a decode_rune_four [of "c div 262144" "c div 4096 mod 64" "c div 64 mod 64" "c mod 64" s, OF _ _ _ _ z y]
      by (simp add: utf8_codes_def)
  qed
qed

lemma rune_loop_utf8:
  assumes "scalar_value c"
  shows "rune_loop (utf8_codes c @ s) = c # rune_loop s"
  using decode_rune_utf8 [OF assms, of s] by (cases "utf8_codes c") auto

lemma runes_utf8: "list_all scalar_value cs \<Longrightarrow> runes (concat (map utf8 cs)) = cs"
  by (induction cs) (simp_all add: runes_def rune_loop_utf8 utf8_codes_bytes)

section \<open>The shape of encoded text\<close>

text \<open>Encoded text is a sequence of pieces: plain characters and escaped bytes.\<close>

datatype piece = Plain "16 word" | Pct nat

fun render :: "piece \<Rightarrow> jstr" where
  "render (Plain u) = [u]"
| "render (Pct n) = percent n"

fun piece_ok :: "piece \<Rightarrow> bool" where
  "piece_ok (Plain u) = uri_unreserved (unat u)"
| "piece_ok (Pct n) = (n < 256)"

definition point_pieces :: "nat \<Rightarrow> piece list" where
  "point_pieces c = (if uri_unreserved c then [Plain (of_nat c)] else map Pct (utf8_codes c))"

fun mark_piece :: "piece \<Rightarrow> piece" where
  "mark_piece (Plain u) = (if unat u \<in> {33, 39, 40, 41, 126} then Pct (unat u) else Plain u)"
| "mark_piece (Pct n) = Pct n"

fun plus_piece :: "piece \<Rightarrow> piece" where
  "plus_piece (Pct n) = (if n = 32 then Plain 0x2B else Pct n)"
| "plus_piece (Plain u) = Plain u"

lemma uri_unreserved_less: "uri_unreserved c \<Longrightarrow> c < 128"
  by (auto simp: uri_unreserved_def char_code_def)

lemma unat_unit [simp]: "n < 65536 \<Longrightarrow> unat (of_nat n :: 16 word) = n"
  by (simp add: unat_of_nat)

lemma utf8_codes_less: "scalar_value c \<Longrightarrow> list_all (\<lambda>n. n < 256) (utf8_codes c)"
  by (auto simp: utf8_codes_def scalar_value_def)

lemma point_pieces_ok: "scalar_value c \<Longrightarrow> list_all piece_ok (point_pieces c)"
  using utf8_codes_less [of c] uri_unreserved_less [of c] by (auto simp: point_pieces_def list_all_iff)

lemma point_pieces_render:
  assumes "scalar_value c"
  shows "concat (map render (point_pieces c)) =
    (if uri_unreserved c then [of_nat c] else concat (map (percent \<circ> unat) (utf8 c)))"
proof -
  have "concat (map (percent \<circ> unat) (utf8 c)) = concat (map percent (utf8_codes c))"
    using utf8_codes_bytes [OF assms] by (metis map_map)
  then show ?thesis
    by (simp add: point_pieces_def comp_def)
qed

lemma hex_digit_cases: "n < 16 \<Longrightarrow> 48 \<le> unat (hex_digit n) \<and> unat (hex_digit n) \<le> 70 \<and> (unat (hex_digit n) \<le> 57 \<or> 65 \<le> unat (hex_digit n))"
  by (auto simp: hex_digit_def simp del: of_nat_add)

lemma hex_digit_inj: "m < 16 \<Longrightarrow> n < 16 \<Longrightarrow> hex_digit m = hex_digit n \<Longrightarrow> m = n"
  by (drule arg_cong [where f = unat]) (auto simp: hex_digit_def simp del: of_nat_add split: if_splits)

lemma escape_mark_hex: "n < 16 \<Longrightarrow> escape_mark (hex_digit n) = [hex_digit n]"
  using hex_digit_cases [of n] by (auto simp: escape_mark_def)

lemma escape_mark_render: "piece_ok p \<Longrightarrow> concat (map escape_mark (render p)) = render (mark_piece p)"
  by (cases p) (auto simp: percent_def escape_mark_hex, auto simp: escape_mark_def percent_def)

lemma escape_marks_render:
  "list_all piece_ok ps \<Longrightarrow> concat (map escape_mark (concat (map render ps))) = concat (map render (map mark_piece ps))"
  by (induction ps) (simp_all add: escape_mark_render)

lemma mark_piece_ok: "piece_ok p \<Longrightarrow> piece_ok (mark_piece p)"
  using uri_unreserved_less by (cases p) (auto dest: uri_unreserved_less)

lemma hex_not_percent: "n < 16 \<Longrightarrow> hex_digit n \<noteq> 0x25"
  using hex_digit_cases [of n] by auto

lemma percent_20: "n < 256 \<Longrightarrow> percent n = lit ''%20'' \<longleftrightarrow> n = 32"
proof -
  assume "n < 256"
  have "lit ''%20'' = percent 32"
    by (simp add: percent_def lit_def char_code_def hex_digit_def)
  moreover have "percent n = percent 32 \<Longrightarrow> n = 32"
    using \<open>n < 256\<close> hex_digit_inj [of "n div 16" 2] hex_digit_inj [of "n mod 16" 0]
    by (auto simp: percent_def)
  ultimately show ?thesis by auto
qed

lemma replace_all_other:
  "pat \<noteq> [] \<Longrightarrow> c \<noteq> hd pat \<Longrightarrow> replace_all pat rep (c # s) = c # replace_all pat rep s"
  by (cases pat) auto

lemma replace_plus_percent:
  assumes "n < 256"
  shows "replace_all (lit ''%20'') (lit ''+'') (percent n @ s) =
    render (plus_piece (Pct n)) @ replace_all (lit ''%20'') (lit ''+'') s"
proof (cases "n = 32")
  case True
  then show ?thesis by (simp add: percent_def lit_def char_code_def hex_digit_def)
next
  case False
  have pat: "lit ''%20'' \<noteq> []" "hd (lit ''%20'') = 0x25" "length (lit ''%20'') = 3"
    by (simp_all add: lit_def char_code_def)
  have "take 3 (percent n @ s) \<noteq> lit ''%20''"
    using False percent_20 [OF assms] by (simp add: percent_def)
  moreover have "hex_digit (n div 16) \<noteq> 0x25" "hex_digit (n mod 16) \<noteq> 0x25"
    using assms by (auto intro!: hex_not_percent)
  moreover have "replace_all (lit ''%20'') (lit ''+'') (0x25 # t) = 0x25 # replace_all (lit ''%20'') (lit ''+'') t"
    if "take 3 (0x25 # t) \<noteq> lit ''%20''" for t
    using that pat by simp
  ultimately show ?thesis
    using False replace_all_other [OF pat(1), unfolded pat(2)] by (simp add: percent_def del: replace_all.simps(2))
qed

lemma plain_not_percent: "piece_ok (Plain u) \<Longrightarrow> u \<noteq> 0x25"
  by (auto simp: uri_unreserved_def char_code_def)

lemma replace_plus_render:
  "list_all piece_ok ps \<Longrightarrow> replace_all (lit ''%20'') (lit ''+'') (concat (map render ps)) =
     concat (map (render \<circ> plus_piece) ps)"
proof (induction ps)
  case (Cons p ps)
  show ?case
  proof (cases p)
    case (Plain u)
    then have "u \<noteq> hd (lit ''%20'')" "lit ''%20'' \<noteq> []"
      using Cons.prems plain_not_percent [of u] by (auto simp: lit_def char_code_def)
    then show ?thesis using Cons Plain replace_all_other [of "lit ''%20''" u] by simp
  next
    case (Pct n)
    then show ?thesis using Cons replace_plus_percent [of n] by simp
  qed
qed simp

definition text_pieces :: "nat list \<Rightarrow> piece list" where
  "text_pieces cs = map (plus_piece \<circ> mark_piece) (concat (map point_pieces cs))"

lemma text_pieces_ok: "list_all scalar_value cs \<Longrightarrow> list_all piece_ok (concat (map point_pieces cs))"
  by (induction cs) (auto simp: point_pieces_ok)

lemma escape_render:
  assumes "codepoints s = Some cs"
  shows "escape s = Some (concat (map render (text_pieces cs)))"
proof -
  let ?ps = "concat (map point_pieces cs)"
  have sv: "list_all scalar_value cs"
    using codepoints_units assms by blast
  then have ok: "list_all piece_ok ?ps"
    by (rule text_pieces_ok)
  have "concat (map render ?ps) = concat (map (\<lambda>c. if uri_unreserved c then [of_nat c]
      else concat (map (percent \<circ> unat) (utf8 c))) cs)"
    using sv by (induction cs) (simp_all add: point_pieces_render)
  then have "encodeURIComponent s = Some (concat (map render ?ps))"
    using assms by (simp add: encodeURIComponent_def)
  moreover have "concat (map escape_mark (concat (map render ?ps))) = concat (map render (map mark_piece ?ps))"
    using ok by (rule escape_marks_render)
  moreover have "list_all piece_ok (map mark_piece ?ps)"
    using ok by (auto simp: list_all_iff mark_piece_ok)
  ultimately show ?thesis
    using replace_plus_render [of "map mark_piece ?ps"] by (simp add: escape_def text_pieces_def comp_def)
qed

section \<open>Decoding encoded text\<close>

definition safe_unit :: "16 word \<Rightarrow> bool" where
  "safe_unit u \<longleftrightarrow> (let n = unat u in 65 \<le> n \<and> n \<le> 90 \<or> 97 \<le> n \<and> n \<le> 122 \<or> 48 \<le> n \<and> n \<le> 57 \<or>
     n \<in> {0x25, 0x2A, 0x2B, 0x2D, 0x2E, 0x5F})"

definition low_byte :: "16 word \<Rightarrow> byte" where
  "low_byte u = of_nat (unat u)"

lemma unat_low_byte [simp]: "unat u < 256 \<Longrightarrow> unat (low_byte u) = unat u"
  unfolding low_byte_def by (rule unat_byte)

fun piece_byte :: "piece \<Rightarrow> byte" where
  "piece_byte (Plain u) = (if u = 0x2B then 0x20 else low_byte u)"
| "piece_byte (Pct n) = of_nat n"

lemma render_safe: "piece_ok p \<Longrightarrow> list_all safe_unit (render (plus_piece (mark_piece p)))"
proof (cases p)
  case (Plain u)
  then show "piece_ok p \<Longrightarrow> ?thesis"
    by (auto simp: safe_unit_def Let_def uri_unreserved_def char_code_def percent_def hex_digit_def)
next
  case (Pct n)
  have "safe_unit (hex_digit k)" if "k < 16" for k
    using hex_digit_cases [OF that] by (auto simp: safe_unit_def Let_def)
  then show "piece_ok p \<Longrightarrow> ?thesis"
    using Pct by (auto simp: percent_def) (auto simp: safe_unit_def Let_def)
qed

lemma hex_value_digit: "n < 16 \<Longrightarrow> hex_value (low_byte (hex_digit n)) = Some n"
  using hex_digit_cases [of n] by (auto simp: hex_value_def Let_def)
      (auto simp: hex_digit_def simp del: of_nat_add split: if_splits)

lemma form_bytes_plain: "b \<noteq> 0x25 \<Longrightarrow> form_bytes (b # s) = (if b = 0x2B then 0x20 else b) # form_bytes s"
  by (cases s rule: list.exhaust; cases "tl s") (auto split: list.split)

lemma form_bytes_piece:
  assumes "piece_ok p"
  shows "form_bytes (map low_byte (render (plus_piece (mark_piece p))) @ s) =
    piece_byte (plus_piece (mark_piece p)) # form_bytes s"
proof (cases "plus_piece (mark_piece p)")
  case (Plain u)
  then have "safe_unit u" "u \<noteq> 0x25"
    using render_safe [OF assms] assms plain_not_percent
    by (cases p; auto split: if_splits)+
  then have n: "unat u < 128" "unat u \<noteq> 0x25"
    by (auto simp: safe_unit_def Let_def word_unat_eq_iff)
  then have "low_byte u \<noteq> 0x25" "low_byte u = 0x2B \<longleftrightarrow> u = 0x2B"
    by (simp_all add: word_unat_eq_iff [where 'a = 8] word_unat_eq_iff [of u])
  then show ?thesis
    using Plain by (simp add: form_bytes_plain)
next
  case (Pct n)
  then have n: "n < 256"
    using assms uri_unreserved_less by (cases p) (auto split: if_splits)
  then show ?thesis
    using Pct hex_value_digit [of "n div 16"] hex_value_digit [of "n mod 16"]
    by (simp add: percent_def) (simp add: low_byte_def)
qed

lemma form_bytes_pieces:
  "list_all piece_ok ps \<Longrightarrow> form_bytes (map low_byte (concat (map (render \<circ> (plus_piece \<circ> mark_piece)) ps))) =
     map (piece_byte \<circ> (plus_piece \<circ> mark_piece)) ps"
  by (induction ps) (simp_all add: form_bytes_piece)

lemma piece_byte_point:
  assumes "scalar_value c"
  shows "map (piece_byte \<circ> (plus_piece \<circ> mark_piece)) (point_pieces c) = utf8 c"
proof (cases "uri_unreserved c")
  case True
  then show ?thesis
    using uri_unreserved_less [OF True]
    by (auto simp: point_pieces_def utf8_def utf8_codes_def low_byte_def) (auto simp: uri_unreserved_def char_code_def word_unat_eq_iff)
next
  case False
  then show ?thesis
    by (simp add: point_pieces_def utf8_def)
qed

lemma ascii_points:
  "list_all (\<lambda>u. unat u < 128) s \<Longrightarrow> codepoints s = Some (map unat s)"
proof (induction s)
  case (Cons u s)
  then have "\<not> is_high u" "\<not> is_low u"
    by (auto simp: is_high_def is_low_def)
  then show ?case using Cons by (simp add: codepoints_Cons_plain)
qed simp

lemma go_string_ascii:
  assumes "engine_utf8 g" "list_all (\<lambda>u. unat u < 128) s"
  shows "g s = map low_byte s"
proof -
  have "g s = concat (map utf8 (map unat s))"
    using assms ascii_points unfolding engine_utf8_def by blast
  moreover have "concat (map utf8 (map unat s)) = map low_byte s"
    using assms(2) by (induction s) (auto simp: utf8_def utf8_codes_def low_byte_def)
  ultimately show ?thesis by simp
qed

lemma safe_unit_ascii: "safe_unit u \<Longrightarrow> unat u < 128"
  by (auto simp: safe_unit_def Let_def)

lemma escape_safe: "escape s = Some t \<Longrightarrow> list_all safe_unit t"
proof -
  assume t: "escape s = Some t"
  then obtain cs where cs: "codepoints s = Some cs"
    by (auto simp: escape_def encodeURIComponent_def)
  have "list_all piece_ok (concat (map point_pieces cs))"
    using codepoints_units [OF cs] text_pieces_ok by blast
  moreover have "t = concat (map (render \<circ> (plus_piece \<circ> mark_piece)) (concat (map point_pieces cs)))"
    using t escape_render [OF cs] by (simp add: text_pieces_def)
  ultimately show ?thesis
    using render_safe unfolding list_all_iff by fastforce
qed

lemma escape_Some_iff: "(\<exists>t. escape s = Some t) \<longleftrightarrow> well_formed s"
  by (auto simp: escape_def encodeURIComponent_def well_formed_def)

lemma decodeForm_escape:
  assumes "engine_utf8 g" and t: "escape s = Some t"
  shows "decodeForm g t = s"
proof -
  obtain cs where cs: "codepoints s = Some cs"
    using t by (auto simp: escape_def encodeURIComponent_def)
  let ?ps = "concat (map point_pieces cs)"
  have sv: "list_all scalar_value cs" and s: "concat (map units cs) = s"
    using codepoints_units [OF cs] by auto
  have t': "t = concat (map (render \<circ> (plus_piece \<circ> mark_piece)) ?ps)"
    using t escape_render [OF cs] by (simp add: text_pieces_def)
  have "list_all (\<lambda>u. unat u < 128) t"
    using escape_safe [OF t] safe_unit_ascii by (auto simp: list_all_iff)
  then have "form_bytes (g t) = map (piece_byte \<circ> (plus_piece \<circ> mark_piece)) ?ps"
    using go_string_ascii [OF assms(1)] form_bytes_pieces [OF text_pieces_ok [OF sv]] t' by simp
  also have "\<dots> = concat (map utf8 cs)"
    using sv by (induction cs) (auto simp: piece_byte_point simp del: map_map)
  finally show ?thesis
    using runes_utf8 [OF sv] s by (simp add: decodeForm_def)
qed

lemma engine_go_utf8: "engine_utf8 go_utf8"
  using scalar_well_formed by (auto simp: engine_utf8_def go_utf8_def well_formed_def)

end
