(* ===== verification/Url_Params.thy ===== *)
theory Url_Params
  imports Url_Text "HOL-Library.Multiset"
begin

text \<open>
  The class \<open>URLSearchParams\<close> of \<open>pkg/jsruntime/url/url.js\<close>: an array of pairs of names and values. The
  constructor and the methods that read or change the pairs are functions on that array; \<open>_notify\<close>, which
  tells the \<open>URL\<close> an object belongs to, is in \<open>Url\<close>. \<open>None\<close> is an exception: the \<open>TypeError\<close> of a pair that
  has not two elements, and the \<open>URIError\<close> of \<open>encodeURIComponent\<close>.
\<close>

type_synonym pairs = "(jstr \<times> jstr) list"

section \<open>Text of pairs\<close>

fun split_on :: "'a \<Rightarrow> 'a list \<Rightarrow> 'a list list" where
  "split_on c [] = [[]]"
| "split_on c (x # xs) = (if x = c then [] # split_on c xs
     else (case split_on c xs of [] \<Rightarrow> [[x]] | p # ps \<Rightarrow> (x # p) # ps))"

definition pair_of_text :: "('a list \<Rightarrow> 'b) \<Rightarrow> 'a \<Rightarrow> 'a list \<Rightarrow> 'b \<times> 'b" where
  "pair_of_text dec eq p = (case find_index (\<lambda>u. u = eq) p of
       None \<Rightarrow> (dec p, dec [])
     | Some i \<Rightarrow> (dec (take i p), dec (drop (Suc i) p)))"

definition pairs_of_text :: "('a list \<Rightarrow> 'b) \<Rightarrow> 'a \<Rightarrow> 'a \<Rightarrow> 'a \<Rightarrow> 'a list \<Rightarrow> ('b \<times> 'b) list" where
  "pairs_of_text dec amp eq ques s = (let s = (if take 1 s = [ques] then drop 1 s else s) in
     map (pair_of_text dec eq) (filter (\<lambda>p. p \<noteq> []) (split_on amp s)))"

fun pair_texts :: "('b \<Rightarrow> 'a list option) \<Rightarrow> 'a \<Rightarrow> ('b \<times> 'b) list \<Rightarrow> 'a list list option" where
  "pair_texts enc eq [] = Some []"
| "pair_texts enc eq ((k, v) # ps) = (case enc k of None \<Rightarrow> None | Some k' \<Rightarrow>
     (case enc v of None \<Rightarrow> None | Some v' \<Rightarrow>
     (case pair_texts enc eq ps of None \<Rightarrow> None | Some ts \<Rightarrow> Some ((k' @ [eq] @ v') # ts))))"

definition params_toString :: "pairs \<Rightarrow> jstr option" where
  "params_toString ps = map_option (join (lit ''&'')) (pair_texts escape 0x3D ps)"

section \<open>The constructor\<close>

datatype params_init = PNull | PString jstr | PIterable "jstr list list" | PObject "(jstr \<times> jstr) list"

fun load_iterable :: "jstr list list \<Rightarrow> pairs option" where
  "load_iterable [] = Some []"
| "load_iterable ([k, v] # ps) = map_option (Cons (scalar k, scalar v)) (load_iterable ps)"
| "load_iterable (_ # ps) = None"

fun params_load :: "(jstr \<Rightarrow> jstr) \<Rightarrow> params_init \<Rightarrow> pairs option" where
  "params_load unescape PNull = Some []"
| "params_load unescape (PString s) = Some (pairs_of_text unescape 0x26 0x3D 0x3F s)"
| "params_load unescape (PIterable ps) = load_iterable ps"
| "params_load unescape (PObject kvs) = Some (map (\<lambda>(k, v). (k, scalar v)) kvs)"

section \<open>The methods\<close>

definition params_size :: "pairs \<Rightarrow> nat" where
  "params_size ps = length ps"

definition params_append :: "jstr \<Rightarrow> jstr \<Rightarrow> pairs \<Rightarrow> pairs" where
  "params_append k v ps = ps @ [(scalar k, scalar v)]"

definition params_delete :: "jstr \<Rightarrow> jstr option \<Rightarrow> pairs \<Rightarrow> pairs" where
  "params_delete k v ps = filter (\<lambda>p. fst p \<noteq> scalar k \<or>
     (case v of None \<Rightarrow> False | Some w \<Rightarrow> snd p \<noteq> scalar w)) ps"

fun params_find :: "jstr \<Rightarrow> pairs \<Rightarrow> jstr option" where
  "params_find k [] = None"
| "params_find k (p # ps) = (if fst p = k then Some (snd p) else params_find k ps)"

definition params_get :: "jstr \<Rightarrow> pairs \<Rightarrow> jstr option" where
  "params_get k ps = params_find (scalar k) ps"

definition params_getAll :: "jstr \<Rightarrow> pairs \<Rightarrow> jstr list" where
  "params_getAll k ps = map snd (filter (\<lambda>p. fst p = scalar k) ps)"

definition params_has :: "jstr \<Rightarrow> jstr option \<Rightarrow> pairs \<Rightarrow> bool" where
  "params_has k v ps = list_ex (\<lambda>p. fst p = scalar k \<and> (case v of None \<Rightarrow> True | Some w \<Rightarrow> snd p = scalar w)) ps"

definition params_put :: "jstr \<Rightarrow> jstr \<Rightarrow> pairs \<Rightarrow> pairs" where
  "params_put k v ps = params_set (scalar k) (scalar v) ps"

text \<open>\<open>Array.prototype.sort\<close> is a stable sort; the comparison is the one of code units.\<close>

definition params_sort :: "pairs \<Rightarrow> pairs" where
  "params_sort ps = sort_key fst ps"

text \<open>One step of the generator \<open>entries\<close>: it reads the array of the moment at its index.\<close>

definition entries_next :: "nat \<Rightarrow> pairs \<Rightarrow> (jstr \<times> jstr) option \<times> nat" where
  "entries_next i ps = (if i < length ps then (Some (ps ! i), Suc i) else (None, i))"

definition params_keys :: "pairs \<Rightarrow> jstr list" where
  "params_keys ps = map fst ps"

definition params_values :: "pairs \<Rightarrow> jstr list" where
  "params_values ps = map snd ps"

text \<open>\<open>forEach\<close>: the callback may change the pairs, and the loop reads the length again before each call. The
  state \<open>'a\<close> is what else the callback changes; \<open>None\<close> when the fuel is used up.\<close>

fun params_forEach :: "nat \<Rightarrow> (jstr \<Rightarrow> jstr \<Rightarrow> pairs \<times> 'a \<Rightarrow> pairs \<times> 'a) \<Rightarrow> nat \<Rightarrow> pairs \<times> 'a \<Rightarrow> (pairs \<times> 'a) option" where
  "params_forEach 0 fn i st = None"
| "params_forEach (Suc n) fn i st = (if i < length (fst st)
     then (case fst st ! i of (k, v) \<Rightarrow> params_forEach n fn (Suc i) (fn v k st))
     else Some st)"

section \<open>Reading back what was printed\<close>

lemma split_on_free: "c \<notin> set xs \<Longrightarrow> split_on c xs = [xs]"
  by (induction xs) auto

lemma split_on_append: "c \<notin> set xs \<Longrightarrow> split_on c (xs @ c # ys) = xs # split_on c ys"
  by (induction xs) auto

lemma split_on_join:
  "ts \<noteq> [] \<Longrightarrow> list_all (\<lambda>t. c \<notin> set t) ts \<Longrightarrow> split_on c (join [c] ts) = ts"
  by (induction "[c]" ts rule: join.induct) (auto simp: split_on_free split_on_append)

lemma find_index_append: "c \<notin> set xs \<Longrightarrow> find_index (\<lambda>u. u = c) (xs @ c # ys) = Some (length xs)"
  by (induction xs) auto

locale form_codec =
  fixes enc :: "'b \<Rightarrow> 'a list option"
    and dec :: "'a list \<Rightarrow> 'b"
    and amp :: 'a and eq :: 'a and ques :: 'a
  assumes dec_enc: "enc s = Some t \<Longrightarrow> dec t = s"
    and enc_free: "enc s = Some t \<Longrightarrow> amp \<notin> set t \<and> eq \<notin> set t \<and> ques \<notin> set t"
    and marks: "amp \<noteq> eq" "ques \<noteq> eq"
begin

lemma pair_of_text_enc:
  "enc k = Some k' \<Longrightarrow> enc v = Some v' \<Longrightarrow> pair_of_text dec eq (k' @ eq # v') = (k, v)"
  using enc_free [of k k'] dec_enc [of k k'] dec_enc [of v v'] by (simp add: pair_of_text_def find_index_append)

lemma pair_texts_back:
  "pair_texts enc eq ps = Some ts \<Longrightarrow> map (pair_of_text dec eq) ts = ps \<and>
     list_all (\<lambda>t. t \<noteq> [] \<and> amp \<notin> set t \<and> hd t \<noteq> ques) ts"
proof (induction ps arbitrary: ts)
  case (Cons p ps)
  obtain k v where p: "p = (k, v)" by force
  with Cons.prems obtain k' v' ts' where e: "enc k = Some k'" "enc v = Some v'" "pair_texts enc eq ps = Some ts'"
    and ts: "ts = (k' @ [eq] @ v') # ts'"
    by (auto split: option.splits)
  have "hd (k' @ [eq] @ v') \<noteq> ques"
    using enc_free [OF e(1)] marks by (cases k') auto
  then show ?case
    using Cons.IH [OF e(3)] ts p pair_of_text_enc [OF e(1,2)] enc_free [OF e(1)] enc_free [OF e(2)] marks by simp
qed simp

lemma pairs_roundtrip:
  assumes "pair_texts enc eq ps = Some ts"
  shows "pairs_of_text dec amp eq ques (join [amp] ts) = ps \<and>
    pairs_of_text dec amp eq ques (ques # join [amp] ts) = ps"
proof (cases ts)
  case Nil
  then show ?thesis
    using pair_texts_back [OF assms] by (simp add: pairs_of_text_def)
next
  case (Cons t us)
  have parts: "map (pair_of_text dec eq) ts = ps" "list_all (\<lambda>t. t \<noteq> [] \<and> amp \<notin> set t \<and> hd t \<noteq> ques) ts"
    using pair_texts_back [OF assms] by auto
  have "take 1 (join [amp] ts) \<noteq> [ques]"
    using Cons parts(2) by (cases us; cases t) auto
  moreover have "split_on amp (join [amp] ts) = ts"
    using Cons parts(2) by (intro split_on_join) (auto simp: list_all_iff)
  moreover have "filter (\<lambda>p. p \<noteq> []) ts = ts"
    using parts(2) by (simp add: filter_id_conv list_all_iff)
  ultimately show ?thesis
    using parts(1) by (simp add: pairs_of_text_def)
qed

end

lemma safe_unit_marks: "\<not> safe_unit 0x26" "\<not> safe_unit 0x3D" "\<not> safe_unit 0x3F" "\<not> safe_unit 0x23" "\<not> safe_unit 0x20"
  by (simp_all add: safe_unit_def Let_def)

lemma form_codec_engine: "engine_utf8 g \<Longrightarrow> form_codec escape (decodeForm g) 0x26 0x3D 0x3F"
  using safe_unit_marks by unfold_locales (auto simp: decodeForm_escape list_all_iff dest!: escape_safe)

interpretation form_text: form_codec escape "decodeForm go_utf8" "0x26" "0x3D" "0x3F"
  by (rule form_codec_engine [OF engine_go_utf8])

section \<open>Well-formed pairs\<close>

definition pairs_ok :: "pairs \<Rightarrow> bool" where
  "pairs_ok ps \<longleftrightarrow> list_all (\<lambda>p. well_formed (fst p) \<and> well_formed (snd p)) ps"

lemma lit_amp: "lit ''&'' = [0x26]"
  by (simp add: lit_def char_code_def)

lemma pair_texts_iff: "(\<exists>ts. pair_texts escape eq ps = Some ts) \<longleftrightarrow> pairs_ok ps"
proof (induction ps)
  case (Cons p ps)
  then show ?case
    using escape_Some_iff [of "fst p"] escape_Some_iff [of "snd p"]
    by (cases p) (auto simp: pairs_ok_def split: option.splits)
qed (simp add: pairs_ok_def)

lemma toString_iff: "(\<exists>t. params_toString ps = Some t) \<longleftrightarrow> pairs_ok ps"
  using pair_texts_iff [of "0x3D" ps] by (auto simp: params_toString_def)

lemma params_roundtrip:
  assumes "engine_utf8 g" "params_toString ps = Some t"
  shows "params_load (decodeForm g) (PString t) = Some ps \<and> params_load (decodeForm g) (PString (0x3F # t)) = Some ps"
  using assms(2) form_codec.pairs_roundtrip [OF form_codec_engine [OF assms(1)]]
  by (auto simp: params_toString_def lit_amp)

section \<open>What keeps pairs well-formed\<close>

lemma decode_rune_scalar: "scalar_value (fst (decode_rune s))"
  by (auto simp: decode_rune_def scalar_value_def second_ok_def cont_def split: list.split if_splits)

lemma rune_loop_scalar: "list_all scalar_value (rune_loop s)"
proof (induction s rule: rune_loop.induct)
  case (2 b s)
  then show ?case
    using decode_rune_scalar [of "b # s"] by (auto split: prod.splits)
qed simp

lemma units_cases:
  assumes "scalar_value c"
  shows "(\<exists>u. units c = [u] \<and> \<not> is_high u \<and> \<not> is_low u) \<or> (\<exists>u v. units c = [u, v] \<and> is_high u \<and> is_low v)"
proof (cases "c < 0x10000")
  case True
  then show ?thesis
    using assms by (auto simp: units_def scalar_value_def is_high_def is_low_def)
next
  case False
  then have "(c - 0x10000) div 0x400 < 0x400"
    using assms by (auto simp: scalar_value_def)
  then show ?thesis
    using False by (simp add: units_def is_high_def is_low_def del: of_nat_add)
qed

lemma well_formed_units: "list_all scalar_value cs \<Longrightarrow> well_formed (concat (map units cs))"
proof (induction cs)
  case (Cons c cs)
  then show ?case
    using units_cases [of c] by (auto simp: well_formed_def codepoints_Cons_plain)
qed (simp add: well_formed_def)

lemma well_formed_decodeForm: "well_formed (decodeForm g s)"
  by (simp add: decodeForm_def well_formed_units runes_def rune_loop_scalar)

lemma pairs_ok_text: "pairs_ok (pairs_of_text (decodeForm g) amp eq ques s)"
  by (auto simp: pairs_ok_def pairs_of_text_def Let_def list_all_iff pair_of_text_def well_formed_decodeForm split: option.split)

lemma pairs_ok_iterable: "load_iterable xs = Some ps \<Longrightarrow> pairs_ok ps"
  by (induction xs arbitrary: ps rule: load_iterable.induct) (auto simp: pairs_ok_def well_formed_scalar)

lemma pairs_ok_append [intro]: "pairs_ok ps \<Longrightarrow> pairs_ok (params_append k v ps)"
  by (simp add: pairs_ok_def params_append_def well_formed_scalar)

lemma pairs_ok_delete [intro]: "pairs_ok ps \<Longrightarrow> pairs_ok (params_delete k v ps)"
  by (auto simp: pairs_ok_def params_delete_def list_all_iff)

lemma replace_first_set: "set (replace_first k v ps) \<subseteq> insert (k, v) (set ps)"
  by (induction ps) (auto simp: entries_delete_def)

lemma pairs_ok_put [intro]: "pairs_ok ps \<Longrightarrow> pairs_ok (params_put k v ps)"
  using replace_first_set [of "scalar k" "scalar v" ps]
  by (auto simp: pairs_ok_def params_put_def params_set_eq list_all_iff well_formed_scalar)

lemma pairs_ok_sort [intro]: "pairs_ok ps \<Longrightarrow> pairs_ok (params_sort ps)"
  by (simp add: pairs_ok_def params_sort_def list_all_iff)

section \<open>Iteration\<close>

lemma forEach_visits:
  assumes "\<And>k v st. fst (fn v k st) = fst st"
  shows "length (fst st) - i < n \<Longrightarrow> params_forEach n fn i st =
    Some (fold (\<lambda>p. fn (snd p) (fst p)) (drop i (fst st)) st)"
proof (induction n arbitrary: i st)
  case (Suc n)
  show ?case
  proof (cases "i < length (fst st)")
    case True
    obtain k v where p: "fst st ! i = (k, v)" by force
    have "length (fst (fn v k st)) - Suc i < n"
      using Suc.prems True assms by simp
    then show ?thesis
      using Suc.IH [of "fn v k st" "Suc i"] True p assms [of v k st] Cons_nth_drop_Suc [OF True, symmetric] by simp
  qed simp
qed simp

section \<open>Properties\<close>

text \<open>C16: Printing and parsing are inverse. For names and values without lone surrogates, \<open>toString\<close> does not
  throw, and a new \<open>URLSearchParams\<close> made of its text, with or without a question mark before it, has the same pairs in the same
  order: the percent-encoding, the UTF-8 encoding and the native decoder cancel out.\<close>

theorem params_text_roundtrip:
  assumes "engine_utf8 g" and "pairs_ok ps"
  shows "\<exists>t. params_toString ps = Some t \<and> params_load (decodeForm g) (PString t) = Some ps \<and>
    params_load (decodeForm g) (PString (0x3F # t)) = Some ps"
  using params_roundtrip [OF assms(1)] assms(2) toString_iff [of ps] by blast

definition sample_pairs :: pairs where
  "sample_pairs = [(lit ''a b'', lit ''1&2=3''), (lit [], lit ''100%''), ([0x901A, 0x77E5], [0xD83D, 0xDE00]), (lit ''a b'', lit ''!~'')]"

lemmas text_eval = lit_def char_code_def is_high_def is_low_def unpaired_def

lemma sample_ok: "pairs_ok sample_pairs"
  by (simp add: sample_pairs_def pairs_ok_def well_formed_def text_eval)

theorem params_text_roundtrip_witness:
  "\<exists>t. params_toString sample_pairs = Some t \<and> params_load (decodeForm go_utf8) (PString t) = Some sample_pairs \<and>
    params_load (decodeForm go_utf8) (PString (0x3F # t)) = Some sample_pairs"
  by (rule params_text_roundtrip [OF engine_go_utf8 sample_ok])

text \<open>Sorting keeps what the names hold. \<open>sort\<close> permutes the pairs into the order of the code units of
  their names, and what \<open>get\<close>, \<open>getAll\<close> and \<open>has\<close> return for any name does not change: pairs of one name
  keep their order.\<close>

theorem params_sort_stable:
  "sorted (params_keys (params_sort ps)) \<and> mset (params_sort ps) = mset ps \<and>
   params_getAll k (params_sort ps) = params_getAll k ps \<and> params_get k (params_sort ps) = params_get k ps \<and>
   params_has k v (params_sort ps) = params_has k v ps"
proof -
  have st: "filter (\<lambda>p. fst p = scalar k) (params_sort ps) = filter (\<lambda>p. fst p = scalar k) ps"
    by (simp add: params_sort_def sort_key_stable)
  have hd: "params_get k qs = (case filter (\<lambda>p. fst p = scalar k) qs of [] \<Rightarrow> None | p # _ \<Rightarrow> Some (snd p))" for qs
    unfolding params_get_def by (induction qs) auto
  have "params_get k (params_sort ps) = params_get k ps"
    by (simp only: hd st)
  then show ?thesis
    using st by (simp add: params_keys_def params_getAll_def params_has_def params_sort_def Bex_set [symmetric])
qed

text \<open>\<open>delete\<close> removes what it names and nothing else. After \<open>delete(k, v)\<close> the object no longer has the
  pair of that name and value, every other pair it has or has not as before, and without a value all pairs
  of the name are gone.\<close>

theorem params_delete_exact:
  "\<not> params_has k v (params_delete k v ps) \<and>
   ((scalar k' \<noteq> scalar k \<or> (\<exists>w. v = Some w \<and> scalar w \<noteq> scalar w')) \<longrightarrow>
     params_has k' (Some w') (params_delete k v ps) = params_has k' (Some w') ps) \<and>
   params_getAll k (params_delete k None ps) = [] \<and> params_get k (params_delete k None ps) = None"
  by (induction ps) (auto simp: params_has_def params_delete_def params_getAll_def params_get_def split: option.splits)

theorem params_delete_exact_witness:
  "params_has (lit ''a'') (Some (lit ''2'')) (params_delete (lit ''a'') (Some (lit ''1''))
    [(lit ''a'', lit ''1''), (lit ''a'', lit ''2'')])"
proof -
  have "scalar (lit ''1'') \<noteq> scalar (lit ''2'')"
    "params_has (lit ''a'') (Some (lit ''2'')) [(lit ''a'', lit ''1''), (lit ''a'', lit ''2'')]"
    by (simp_all add: text_eval params_has_def)
  then show ?thesis
    using params_delete_exact [of "lit ''a''" "Some (lit ''1'')" "[(lit ''a'', lit ''1''), (lit ''a'', lit ''2'')]"
      "lit ''a''" "lit ''2''"] by blast
qed

text \<open>Only the object constructor lets a lone surrogate in. Pairs read from a text or an iterable can always
  be printed, and so they can after \<open>append\<close>, \<open>delete\<close>, \<open>set\<close> and \<open>sort\<close>; the names of an object are not
  converted, so a lone surrogate in one makes \<open>toString\<close> throw a \<open>URIError\<close> later.\<close>

theorem params_print_total:
  "(\<forall>ps. params_load (decodeForm g) (PString s) = Some ps \<longrightarrow> pairs_ok ps) \<and>
   (\<forall>ps. params_load (decodeForm g) (PIterable xs) = Some ps \<longrightarrow> pairs_ok ps) \<and>
   (pairs_ok ps \<longrightarrow> pairs_ok (params_append k v ps) \<and> pairs_ok (params_delete k w ps) \<and>
      pairs_ok (params_put k v ps) \<and> pairs_ok (params_sort ps)) \<and>
   (\<exists>qs. params_load (decodeForm g) (PObject [([0xD800], v)]) = Some qs \<and> params_toString qs = None)"
  using pairs_ok_text pairs_ok_iterable toString_iff [of "[([0xD800], scalar v)]"]
  by (auto simp: pairs_ok_def [of "[([0xD800], scalar v)]"] well_formed_def is_high_def)

theorem params_print_total_witness:
  "pairs_ok (params_sort sample_pairs) \<and> pairs_ok (params_put (lit ''x'') [0xD800] sample_pairs)"
  using params_print_total [of go_utf8 "[]" "[]" sample_pairs "lit ''x''" "[0xD800]" None] sample_ok by blast

end
