(* ===== verification/Url.thy ===== *)
theory Url
  imports Url_Params
begin

text \<open>
  The class \<open>URL\<close> of \<open>pkg/jsruntime/url/url.js\<close> and its link with the \<open>URLSearchParams\<close> it owns.

  The parser of addresses and the conversion of domain names are natives: \<open>parseURL\<close> is given a text and
  an optional base and returns the components, or \<open>None\<close> where the native throws its \<open>TypeError\<close>. The object
  keeps the components in \<open>_data\<close> and the search parameters in \<open>_params\<close>, whose \<open>_change\<close> writes the search
  component back without loading it again.
\<close>

record url_data =
  href :: jstr
  protocol :: jstr
  username :: jstr
  password :: jstr
  host :: jstr
  hostname :: jstr
  port :: jstr
  pathname :: jstr
  search :: jstr
  hash :: jstr
  origin :: jstr

record url_natives =
  parseURL :: "jstr \<Rightarrow> jstr option \<Rightarrow> url_data option"
  domain :: "jstr \<Rightarrow> bool \<Rightarrow> jstr"
  unescape :: "jstr \<Rightarrow> jstr"

record url =
  url_data :: url_data
  url_params :: pairs

datatype url_key = Href | Protocol | Username | Password | Host | Hostname | Port | Pathname | Search | Hash

definition read_params :: "url_natives \<Rightarrow> jstr \<Rightarrow> pairs" where
  "read_params N s = (case params_load (unescape N) (PString s) of Some ps \<Rightarrow> ps | None \<Rightarrow> [])"

section \<open>Construction\<close>

definition new_URL :: "url_natives \<Rightarrow> jstr \<Rightarrow> jstr option \<Rightarrow> url option" where
  "new_URL N input base = (case parseURL N (scalar input) (map_option scalar base) of
       None \<Rightarrow> None
     | Some d \<Rightarrow> Some \<lparr>url_data = d, url_params = read_params N (search d)\<rparr>)"

definition canParse :: "url_natives \<Rightarrow> jstr \<Rightarrow> jstr option \<Rightarrow> bool" where
  "canParse N s b = (case new_URL N s b of Some _ \<Rightarrow> True | None \<Rightarrow> False)"

definition url_parse :: "url_natives \<Rightarrow> jstr \<Rightarrow> jstr option \<Rightarrow> url option" where
  "url_parse N s b = new_URL N s b"

text \<open>\<open>_parse\<close>: without synchronisation the parameters stay as they are.\<close>

definition url_reparse :: "url_natives \<Rightarrow> jstr \<Rightarrow> bool \<Rightarrow> url \<Rightarrow> url option" where
  "url_reparse N s sync u = (case parseURL N s None of
       None \<Rightarrow> None
     | Some d \<Rightarrow> Some (u\<lparr>url_data := d, url_params := (if sync then read_params N (search d) else url_params u)\<rparr>))"

section \<open>Assignment to a component\<close>

definition starts_with :: "'a list \<Rightarrow> 'a list \<Rightarrow> bool" where
  "starts_with p s \<longleftrightarrow> take (length p) s = p"

definition ends_with :: "'a list \<Rightarrow> 'a list \<Rightarrow> bool" where
  "ends_with p s \<longleftrightarrow> starts_with (rev p) (rev s)"

definition special :: "jstr \<Rightarrow> bool" where
  "special p \<longleftrightarrow> p \<in> set (map lit [''http:'', ''https:'', ''ws:'', ''wss:'', ''ftp:''])"

text \<open>\<open>toLowerCase\<close>, as far as the test after it can see: besides the capital letters of ASCII, two
  characters have a lower case with a letter of ASCII in it, the Kelvin sign and the dotted capital I; text
  with any other character is refused either way.\<close>

definition lower_unit :: "16 word \<Rightarrow> jstr" where
  "lower_unit u = (if 65 \<le> unat u \<and> unat u \<le> 90 then [u + 32] else if u = 0x212A then lit ''k''
     else if u = 0x130 then [0x69, 0x307] else [u])"

definition lower_text :: "jstr \<Rightarrow> jstr" where
  "lower_text s = concat (map lower_unit s)"

definition is_az :: "16 word \<Rightarrow> bool" where
  "is_az u \<longleftrightarrow> 97 \<le> unat u \<and> unat u \<le> 122"

definition is_09 :: "16 word \<Rightarrow> bool" where
  "is_09 u \<longleftrightarrow> 48 \<le> unat u \<and> unat u \<le> 57"

definition scheme_ok :: "jstr \<Rightarrow> bool" where
  "scheme_ok p \<longleftrightarrow> (case p of [] \<Rightarrow> False | u # s \<Rightarrow> is_az u \<and> s \<noteq> [] \<and> last s = 0x3A \<and>
     list_all (\<lambda>c. is_az c \<or> is_09 c \<or> c \<in> set (lit ''+.-'')) (butlast s))"

definition decimal :: "jstr \<Rightarrow> nat" where
  "decimal s = foldl (\<lambda>n u. 10 * n + (unat u - 48)) 0 s"

definition with_colon :: "jstr \<Rightarrow> jstr" where
  "with_colon v = (if ends_with (lit '':'') v then v else v @ lit '':'')"

text \<open>The early returns of \<open>_set\<close>, for the value \<open>v\<close> of a component other than \<open>href\<close>.\<close>

definition refused :: "url_key \<Rightarrow> jstr \<Rightarrow> url_data \<Rightarrow> bool" where
  "refused k v d \<longleftrightarrow>
     k = Protocol \<and> (let p = lower_text (with_colon v) in \<not> scheme_ok p \<or> special p \<noteq> special (protocol d)) \<or>
     k \<in> {Host, Hostname, Port, Username, Password} \<and> (host d = [] \<or> protocol d = lit ''file:'') \<or>
     k = Port \<and> (\<not> list_all is_09 v \<or> 65535 < decimal v) \<or>
     k = Hostname \<and> (0x2F \<in> set v \<or> 0x3F \<in> set v \<or> 0x23 \<in> set v \<or> (\<not> starts_with (lit ''['') v \<and> 0x3A \<in> set v)) \<or>
     k = Pathname \<and> host d = [] \<and> \<not> starts_with (lit ''/'') (pathname d)"

definition encode_text :: "jstr \<Rightarrow> jstr" where
  "encode_text v = (case encodeURIComponent v of Some t \<Rightarrow> t | None \<Rightarrow> [])"

definition with_start :: "string \<Rightarrow> jstr \<Rightarrow> jstr" where
  "with_start c v = (if starts_with (lit c) v then v else lit c @ v)"

fun assign :: "url_key \<Rightarrow> jstr \<Rightarrow> url_data \<Rightarrow> url_data" where
  "assign Href v d = d\<lparr>href := v\<rparr>"
| "assign Protocol v d = d\<lparr>protocol := lower_text (with_colon v)\<rparr>"
| "assign Host v d = d\<lparr>host := takeWhile (\<lambda>u. u \<notin> set (lit ''/?#'')) v\<rparr>"
| "assign Hostname v d = d\<lparr>hostname := v, host := v @ (if port d \<noteq> [] then lit '':'' @ port d else [])\<rparr>"
| "assign Port v d = d\<lparr>port := v, host := hostname d @ (if v \<noteq> [] then lit '':'' @ v else [])\<rparr>"
| "assign Username v d = d\<lparr>username := encode_text v\<rparr>"
| "assign Password v d = d\<lparr>password := encode_text v\<rparr>"
| "assign Search v d = d\<lparr>search := if v \<noteq> []
     then replace_all (lit '' '') (lit ''%20'') (replace_all (lit ''#'') (lit ''%23'') (with_start ''?'' v)) else []\<rparr>"
| "assign Hash v d = d\<lparr>hash := if v \<noteq> [] then replace_all (lit '' '') (lit ''%20'') (with_start ''#'' v) else []\<rparr>"
| "assign Pathname v d = d\<lparr>pathname :=
     replace_all (lit ''#'') (lit ''%23'') (replace_all (lit ''?'') (lit ''%3F'') (with_start ''/'' v))\<rparr>"

definition assemble :: "url_data \<Rightarrow> jstr" where
  "assemble d = (let auth = (if username d \<noteq> [] \<or> password d \<noteq> []
       then username d @ (if password d \<noteq> [] then lit '':'' @ password d else []) @ lit ''@'' else []) in
     protocol d @ (if host d \<noteq> [] then lit ''//'' @ auth @ host d else []) @ pathname d @ search d @ hash d)"

text \<open>\<open>_set\<close>: an assignment to \<open>href\<close> may throw (\<open>None\<close>); any other that is refused or cannot be parsed
  leaves the object as it was.\<close>

definition url_set :: "url_natives \<Rightarrow> url_key \<Rightarrow> jstr \<Rightarrow> bool \<Rightarrow> url \<Rightarrow> url option" where
  "url_set N k value sync u = (let v = scalar value in
     if k = Href then url_reparse N v sync u
     else if refused k v (url_data u) then Some u
     else (case url_reparse N (assemble (assign k v (url_data u))) sync u of None \<Rightarrow> Some u | Some u' \<Rightarrow> Some u'))"

section \<open>The parameters of an address\<close>

text \<open>A method of \<open>searchParams\<close> that changes the pairs calls \<open>_notify\<close> at its end, which prints them and
  assigns the search component.\<close>

datatype params_op = PAppend jstr jstr | PDelete jstr "jstr option" | PSet jstr jstr | PSort

fun params_run :: "params_op \<Rightarrow> pairs \<Rightarrow> pairs" where
  "params_run (PAppend k v) ps = params_append k v ps"
| "params_run (PDelete k v) ps = params_delete k v ps"
| "params_run (PSet k v) ps = params_put k v ps"
| "params_run PSort ps = params_sort ps"

definition url_notify :: "url_natives \<Rightarrow> url \<Rightarrow> url option" where
  "url_notify N u = (case params_toString (url_params u) of
       None \<Rightarrow> None
     | Some s \<Rightarrow> url_set N Search (if s \<noteq> [] then lit ''?'' @ s else []) False u)"

definition url_params_call :: "url_natives \<Rightarrow> params_op \<Rightarrow> url \<Rightarrow> url option" where
  "url_params_call N f u = url_notify N (u\<lparr>url_params := params_run f (url_params u)\<rparr>)"

section \<open>Reading\<close>

fun component :: "url_key \<Rightarrow> url_data \<Rightarrow> jstr" where
  "component Href d = href d"
| "component Protocol d = protocol d"
| "component Username d = username d"
| "component Password d = password d"
| "component Host d = host d"
| "component Hostname d = hostname d"
| "component Port d = port d"
| "component Pathname d = pathname d"
| "component Search d = search d"
| "component Hash d = hash d"

definition url_toString :: "url \<Rightarrow> jstr" where
  "url_toString u = component Href (url_data u)"

definition domainToASCII :: "url_natives \<Rightarrow> jstr \<Rightarrow> jstr" where
  "domainToASCII N s = domain N (scalar s) False"

definition domainToUnicode :: "url_natives \<Rightarrow> jstr \<Rightarrow> jstr" where
  "domainToUnicode N s = domain N (scalar s) True"

end
