(* ===== verification/Url_Spec.thy ===== *)
theory Url_Spec
  imports Url
begin

text \<open>
  What \<open>URL\<close> promises: assignments to components never leave it in a state the parser did not produce, and
  its search parameters and its search component agree unless the parser did not take the last change of the
  parameters over. Nothing is assumed of the parser: every result names what the parser answers for the one address
  it depends on.
\<close>

section \<open>Printed queries\<close>

definition query_unit :: "16 word \<Rightarrow> bool" where
  "query_unit u \<longleftrightarrow> safe_unit u \<or> u = 0x26 \<or> u = 0x3D"

definition query_text :: "jstr \<Rightarrow> bool" where
  "query_text q \<longleftrightarrow> (case q of [] \<Rightarrow> True | u # t \<Rightarrow> u = 0x3F \<and> t \<noteq> [] \<and> list_all query_unit t)"

definition search_of :: "jstr \<Rightarrow> jstr" where
  "search_of s = (if s \<noteq> [] then lit ''?'' @ s else [])"

lemma pair_texts_query: "pair_texts escape 0x3D ps = Some ts \<Longrightarrow> list_all (list_all query_unit) ts"
proof (induction ps arbitrary: ts)
  case (Cons p ps)
  then show ?case
    by (cases p) (auto 0 3 split: option.splits dest!: escape_safe simp: query_unit_def list_all_iff)
qed simp

lemma join_query: "list_all (list_all query_unit) ts \<Longrightarrow> list_all query_unit (join (lit ''&'') ts)"
  by (induction "lit ''&''" ts rule: join.induct) (auto simp: lit_amp query_unit_def list_all_iff)

lemma toString_query: "params_toString ps = Some s \<Longrightarrow> list_all query_unit s"
  using pair_texts_query join_query by (auto simp: params_toString_def)

lemma search_of_query: "params_toString ps = Some s \<Longrightarrow> query_text (search_of s)"
  using toString_query by (auto simp: query_text_def search_of_def lit_def char_code_def)

lemma query_unit_ascii: "query_unit u \<Longrightarrow> unat u < 128 \<and> u \<noteq> 0x23 \<and> u \<noteq> 0x20"
  using safe_unit_ascii safe_unit_marks by (auto simp: query_unit_def)

lemma replace_all_none: "c \<notin> set s \<Longrightarrow> replace_all [c] rep s = s"
  by (induction s) auto

lemma scalar_ascii: "list_all (\<lambda>u. unat u < 128) s \<Longrightarrow> scalar s = s"
  using ascii_points by (auto intro!: scalar_well_formed simp: well_formed_def)

lemma query_text_plain:
  assumes "query_text q"
  shows "scalar q = q" "0x23 \<notin> set q" "0x20 \<notin> set q" "q \<noteq> [] \<Longrightarrow> with_start ''?'' q = q"
proof -
  have *: "list_all (\<lambda>u. unat u < 128 \<and> u \<noteq> 0x23 \<and> u \<noteq> 0x20) q"
    using assms query_unit_ascii by (auto simp: query_text_def list_all_iff split: list.splits)
  then show "scalar q = q" "0x23 \<notin> set q" "0x20 \<notin> set q"
    by (auto intro!: scalar_ascii simp: list_all_iff)
  show "q \<noteq> [] \<Longrightarrow> with_start ''?'' q = q"
    using assms by (cases q) (auto simp: query_text_def with_start_def starts_with_def lit_def char_code_def)
qed

lemma assign_search: "query_text q \<Longrightarrow> assign Search q d = d\<lparr>search := q\<rparr>"
  using query_text_plain [of q] by (simp add: lit_def char_code_def replace_all_none)

section \<open>Assignments\<close>

lemma url_set_search:
  "query_text q \<Longrightarrow> url_set N Search q sync u =
     (case url_reparse N (assemble ((url_data u)\<lparr>search := q\<rparr>)) sync u of None \<Rightarrow> Some u | Some u' \<Rightarrow> Some u')"
  using query_text_plain(1) [of q] assign_search [of q] by (simp add: url_set_def refused_def Let_def del: assign.simps)

definition in_sync :: "url_natives \<Rightarrow> url \<Rightarrow> bool" where
  "in_sync N u \<longleftrightarrow> read_params N (search (url_data u)) = url_params u"

definition parsed :: "url_natives \<Rightarrow> url \<Rightarrow> bool" where
  "parsed N u \<longleftrightarrow> (\<exists>s b. parseURL N s b = Some (url_data u))"

lemma reparse_sync: "url_reparse N s True u = Some u' \<Longrightarrow> in_sync N u' \<and> parsed N u'"
  by (auto 0 4 simp: url_reparse_def in_sync_def parsed_def split: option.splits)

lemma url_set_cases: "url_set N k v True u = Some u' \<Longrightarrow> u' = u \<or> in_sync N u' \<and> parsed N u'"
  using reparse_sync by (auto simp: url_set_def Let_def split: if_splits option.splits)

lemma params_run_ok: "pairs_ok ps \<Longrightarrow> pairs_ok (params_run f ps)"
  by (cases f) auto

text \<open>What \<open>_notify\<close> does, for any parser: the components become what the parser makes of the address with the
  new query, and stay as they are where it refuses it.\<close>

definition rebuilt :: "url \<Rightarrow> jstr \<Rightarrow> jstr" where
  "rebuilt u s = assemble ((url_data u)\<lparr>search := search_of s\<rparr>)"

lemma params_call_result:
  assumes "pairs_ok (url_params u)"
  shows "\<exists>s. params_toString (params_run f (url_params u)) = Some s \<and>
    url_params_call N f u = Some \<lparr>url_data = (case parseURL N (rebuilt u s) None of None \<Rightarrow> url_data u | Some d \<Rightarrow> d),
      url_params = params_run f (url_params u)\<rparr>"
proof -
  obtain s where s: "params_toString (params_run f (url_params u)) = Some s"
    using params_run_ok [OF assms] toString_iff by blast
  then show ?thesis
    using url_set_search [OF search_of_query [OF s]]
    by (cases u) (simp add: url_params_call_def url_notify_def url_reparse_def rebuilt_def flip: search_of_def split: option.split)
qed

section \<open>Reachable addresses\<close>

inductive url_reach :: "url_natives \<Rightarrow> url \<Rightarrow> bool" for N where
  made: "new_URL N s b = Some u \<Longrightarrow> url_reach N u"
| assigned: "url_reach N u \<Longrightarrow> url_set N k v True u = Some u' \<Longrightarrow> url_reach N u'"
| called: "url_reach N u \<Longrightarrow> url_params_call N f u = Some u' \<Longrightarrow> url_reach N u'"

definition native_texts :: "(jstr \<Rightarrow> bytes) \<Rightarrow> url_natives \<Rightarrow> bool" where
  "native_texts g N \<longleftrightarrow> engine_utf8 g \<and> unescape N = decodeForm g"

lemma read_params_ok: "native_texts g N \<Longrightarrow> pairs_ok (read_params N s)"
  by (simp add: read_params_def native_texts_def pairs_ok_text)

lemma read_params_search:
  "native_texts g N \<Longrightarrow> params_toString ps = Some s \<Longrightarrow> read_params N (search_of s) = ps"
  using params_roundtrip [of g ps s]
  by (cases s) (auto simp: read_params_def native_texts_def search_of_def lit_def char_code_def)

text \<open>The parser did not take the parameters over: for the address with them as its query it answers an error,
  or the components that the object has now, whose query is another one.\<close>

definition not_taken :: "url_natives \<Rightarrow> url \<Rightarrow> bool" where
  "not_taken N u \<longleftrightarrow> (\<exists>s d. params_toString (url_params u) = Some s \<and>
     (case parseURL N (assemble (d\<lparr>search := search_of s\<rparr>)) None of None \<Rightarrow> url_data u = d
      | Some d' \<Rightarrow> url_data u = d' \<and> search d' \<noteq> search_of s))"

lemma reach_sync:
  assumes "native_texts g N"
  shows "url_reach N u \<Longrightarrow> pairs_ok (url_params u) \<and> parsed N u \<and> (in_sync N u \<or> not_taken N u)"
proof (induction rule: url_reach.induct)
  case (made s b u)
  then show ?case
    using read_params_ok [OF assms] by (auto 0 4 simp: new_URL_def in_sync_def parsed_def split: option.splits)
next
  case (assigned u k v u')
  then have "u' = u \<or> in_sync N u' \<and> parsed N u'" using url_set_cases by blast
  then show ?case
    using assigned read_params_ok [OF assms] unfolding in_sync_def by metis
next
  case (called u f u')
  then obtain s where s: "params_toString (params_run f (url_params u)) = Some s"
    "u' = \<lparr>url_data = (case parseURL N (rebuilt u s) None of None \<Rightarrow> url_data u | Some d \<Rightarrow> d),
      url_params = params_run f (url_params u)\<rparr>"
    using params_call_result [of u f N] by auto
  have "parsed N u'"
    using called s(2) by (auto simp: parsed_def split: option.split)
  moreover have "in_sync N u' \<or> not_taken N u'"
  proof (cases "parseURL N (rebuilt u s) None")
    case None
    then show ?thesis using s by (auto simp: not_taken_def rebuilt_def intro!: exI [of _ "url_data u"])
  next
    case (Some d)
    then show ?thesis
      using s read_params_search [OF assms s(1)]
      by (cases "search d = search_of s") (auto simp: in_sync_def not_taken_def rebuilt_def intro!: exI [of _ "url_data u"])
  qed
  ultimately show ?case using called s(2) params_run_ok by auto
qed

section \<open>Sample parsers\<close>

text \<open>The first knows the addresses of one host, with a query.\<close>

definition sample_data :: "jstr \<Rightarrow> jstr \<Rightarrow> url_data" where
  "sample_data h q = \<lparr>href = h, protocol = lit ''http:'', username = [], password = [], host = lit ''a.test'',
     hostname = lit ''a.test'', port = [], pathname = lit ''/'', search = q, hash = [], origin = lit ''http://a.test''\<rparr>"

definition sample_prefix :: jstr where
  "sample_prefix = lit ''http://a.test/''"

definition sample_natives :: url_natives where
  "sample_natives = \<lparr>parseURL = (\<lambda>s b. let q = drop (length sample_prefix) s in
       if take (length sample_prefix) s = sample_prefix \<and> query_text q then Some (sample_data s q) else None),
     domain = (\<lambda>s _. s), unescape = decodeForm go_utf8\<rparr>"

lemma sample_texts: "native_texts go_utf8 sample_natives"
  by (simp add: native_texts_def engine_go_utf8 sample_natives_def)

definition sample_url :: url where
  "sample_url = \<lparr>url_data = sample_data sample_prefix [], url_params = []\<rparr>"

lemma sample_made: "new_URL sample_natives sample_prefix None = Some sample_url"
proof -
  have "scalar sample_prefix = sample_prefix"
    by (simp add: sample_prefix_def text_eval)
  moreover have "read_params sample_natives [] = []"
    by (simp add: read_params_def pairs_of_text_def)
  ultimately show ?thesis
    by (simp add: new_URL_def sample_natives_def query_text_def sample_url_def sample_data_def)
qed

section \<open>Properties\<close>

text \<open>C14: The search component and \<open>searchParams\<close> agree in every state that the constructor, assignments to
  components and calls on \<open>searchParams\<close> can bring a \<open>URL\<close> to, unless the parser did not take the parameters over.
  For any parser of addresses: the components are some result of the parser; the pairs have a printed form, and are
  what the search component reads as unless, for an address with this printed form as its query, the parser
  answered an error (the components were kept) or components with another query (those are the ones of the object). Every
  call on \<open>searchParams\<close> returns and changes the pairs, and the components are then what the parser makes of
  the address rebuilt with the new query, or as they were if it refuses; an assignment that changes anything makes the two
  agree again.\<close>

theorem url_params_in_sync:
  assumes "native_texts g N" and "url_reach N u"
  shows "(\<exists>s b. parseURL N s b = Some (url_data u)) \<and>
    (\<exists>s. params_toString (url_params u) = Some s \<and>
      (read_params N (search (url_data u)) = url_params u \<or>
       parseURL N (assemble ((url_data u)\<lparr>search := search_of s\<rparr>)) None = None \<or>
       (\<exists>d. parseURL N (assemble (d\<lparr>search := search_of s\<rparr>)) None = Some (url_data u) \<and> search (url_data u) \<noteq> search_of s))) \<and>
    (\<forall>f. \<exists>s. params_toString (params_run f (url_params u)) = Some s \<and>
      url_params_call N f u = Some \<lparr>url_data =
          (case parseURL N (assemble ((url_data u)\<lparr>search := search_of s\<rparr>)) None of None \<Rightarrow> url_data u | Some d \<Rightarrow> d),
        url_params = params_run f (url_params u)\<rparr>) \<and>
    (\<forall>k v u'. url_set N k v True u = Some u' \<longrightarrow> u' = u \<or> read_params N (search (url_data u')) = url_params u')"
proof -
  have ok: "pairs_ok (url_params u)" and p: "parsed N u" and sync: "in_sync N u \<or> not_taken N u"
    using reach_sync [OF assms] by auto
  obtain s where s: "params_toString (url_params u) = Some s" using ok toString_iff by blast
  have "read_params N (search (url_data u)) = url_params u \<or>
       parseURL N (assemble ((url_data u)\<lparr>search := search_of s\<rparr>)) None = None \<or>
       (\<exists>d. parseURL N (assemble (d\<lparr>search := search_of s\<rparr>)) None = Some (url_data u) \<and> search (url_data u) \<noteq> search_of s)"
    using sync s unfolding in_sync_def not_taken_def by (auto split: option.splits)
  then show ?thesis
    using s p params_call_result [OF ok] url_set_cases unfolding parsed_def in_sync_def rebuilt_def by blast
qed

lemma sample_append:
  "params_run (PAppend (lit ''a b'') (lit ''&'')) (url_params sample_url) = [(lit ''a b'', lit ''&'')]"
  "params_toString [(lit ''a b'', lit ''&'')] = Some (lit ''a+b=%26'')"
  by (simp_all add: sample_url_def params_append_def text_eval params_toString_def escape_def encodeURIComponent_def
      uri_unreserved_def utf8_def utf8_codes_def percent_def hex_digit_def escape_mark_def)

theorem url_params_in_sync_witness:
  "url_params_call sample_natives (PAppend (lit ''a b'') (lit ''&'')) sample_url =
    Some \<lparr>url_data = sample_data (sample_prefix @ lit ''?a+b=%26'') (lit ''?a+b=%26''), url_params = [(lit ''a b'', lit ''&'')]\<rparr>"
proof -
  have "query_text (lit ''?a+b=%26'')"
    by (simp add: query_text_def text_eval query_unit_def safe_unit_def uri_unreserved_def)
  then have parse: "parseURL sample_natives (assemble ((url_data sample_url)\<lparr>search := search_of (lit ''a+b=%26'')\<rparr>)) None =
      Some (sample_data (sample_prefix @ lit ''?a+b=%26'') (lit ''?a+b=%26''))"
    by (simp add: sample_natives_def sample_url_def assemble_def sample_data_def sample_prefix_def search_of_def lit_def char_code_def Let_def)
  obtain s where s: "params_toString (params_run (PAppend (lit ''a b'') (lit ''&'')) (url_params sample_url)) = Some s"
    "url_params_call sample_natives (PAppend (lit ''a b'') (lit ''&'')) sample_url = Some \<lparr>url_data =
          (case parseURL sample_natives (assemble ((url_data sample_url)\<lparr>search := search_of s\<rparr>)) None of None \<Rightarrow> url_data sample_url | Some d \<Rightarrow> d),
        url_params = params_run (PAppend (lit ''a b'') (lit ''&'')) (url_params sample_url)\<rparr>"
    using url_params_in_sync [OF sample_texts url_reach.made [OF sample_made]] by blast
  then show ?thesis
    using parse sample_append by simp
qed

text \<open>Where the parser refuses the address that \<open>_set\<close> puts together, a change of the parameters is lost for
  the address, and nobody is told: the pairs have it, \<open>search\<close> and \<open>href\<close> do not.\<close>

theorem url_params_lost:
  assumes "pairs_ok (url_params u)" and "params_toString (params_run f (url_params u)) = Some s"
    and "parseURL N (rebuilt u s) None = None"
  shows "url_params_call N f u = Some (u\<lparr>url_params := params_run f (url_params u)\<rparr>)"
  using params_call_result [OF assms(1), of f N] assms(2,3) by (cases u) auto

text \<open>So it is for an IPv6 address with a zone. The parser unescapes the zone of \<open>http://[fe80::1%25eth0]/\<close>, and does not
  take an address with a bare \<open>%\<close> in it; the second sample parser knows this one address.\<close>

definition zone_data :: url_data where
  "zone_data = \<lparr>href = lit ''http://[fe80::1%25eth0]/'', protocol = lit ''http:'', username = [], password = [],
     host = lit ''[fe80::1%eth0]'', hostname = lit ''[fe80::1%eth0]'', port = [], pathname = lit ''/'', search = [], hash = [],
     origin = lit ''http://[fe80::1%eth0]''\<rparr>"

definition zone_natives :: url_natives where
  "zone_natives = \<lparr>parseURL = (\<lambda>s b. if s = lit ''http://[fe80::1%25eth0]/'' then Some zone_data else None),
     domain = (\<lambda>s _. s), unescape = decodeForm go_utf8\<rparr>"

theorem url_params_can_differ:
  "\<exists>u. new_URL zone_natives (lit ''http://[fe80::1%25eth0]/'') None = Some u \<and>
     url_params_call zone_natives (PAppend (lit ''a b'') (lit ''&'')) u =
       Some \<lparr>url_data = zone_data, url_params = [(lit ''a b'', lit ''&'')]\<rparr>"
proof -
  have "scalar (lit ''http://[fe80::1%25eth0]/'') = lit ''http://[fe80::1%25eth0]/''"
    by (simp add: text_eval)
  moreover have "read_params zone_natives [] = []"
    by (simp add: read_params_def pairs_of_text_def)
  ultimately have made: "new_URL zone_natives (lit ''http://[fe80::1%25eth0]/'') None = Some \<lparr>url_data = zone_data, url_params = []\<rparr>"
    by (simp add: new_URL_def zone_natives_def) (simp add: zone_data_def)
  have "parseURL zone_natives (rebuilt \<lparr>url_data = zone_data, url_params = []\<rparr> (lit ''a+b=%26'')) None = None"
    by (simp add: zone_natives_def rebuilt_def zone_data_def assemble_def search_of_def lit_def char_code_def)
  then have "url_params_call zone_natives (PAppend (lit ''a b'') (lit ''&'')) \<lparr>url_data = zone_data, url_params = []\<rparr> =
       Some \<lparr>url_data = zone_data, url_params = [(lit ''a b'', lit ''&'')]\<rparr>"
    using url_params_lost [of "\<lparr>url_data = zone_data, url_params = []\<rparr>" "PAppend (lit ''a b'') (lit ''&'')"] sample_append
    by (simp add: sample_url_def pairs_ok_def)
  with made show ?thesis by blast
qed

text \<open>C15: An assignment to a component is all or nothing and guarded. It never throws unless it is to \<open>href\<close>;
  it leaves the whole object as it was, or the components are what the parser makes of the rebuilt text; and
  it does not change anything for a port that is not a number up to 65535, a host name with a separator in
  it, a scheme of the other class, or a host of an address without one.\<close>

theorem url_assignment_guarded:
  assumes "k \<noteq> Href" and "url_set N k value True u = r"
  shows "\<exists>u'. r = Some u' \<and> (u' = u \<or>
      (parseURL N (assemble (assign k (scalar value) (url_data u))) None = Some (url_data u') \<and>
       read_params N (search (url_data u')) = url_params u' \<and>
       (k = Port \<longrightarrow> list_all is_09 (scalar value) \<and> decimal (scalar value) \<le> 65535) \<and>
       (k = Hostname \<longrightarrow> 0x2F \<notin> set (scalar value) \<and> 0x3F \<notin> set (scalar value) \<and> 0x23 \<notin> set (scalar value)) \<and>
       (k = Protocol \<longrightarrow> special (protocol (assign k (scalar value) (url_data u))) = special (protocol (url_data u))) \<and>
       (k \<in> {Host, Hostname, Port, Username, Password} \<longrightarrow> host (url_data u) \<noteq> [] \<and> protocol (url_data u) \<noteq> lit ''file:'')))"
proof (cases "refused k (scalar value) (url_data u) \<or>
    url_reparse N (assemble (assign k (scalar value) (url_data u))) True u = None")
  case True
  then show ?thesis using assms by (auto simp: url_set_def Let_def)
next
  case False
  then obtain u' where u': "url_reparse N (assemble (assign k (scalar value) (url_data u))) True u = Some u'"
    by blast
  then have "r = Some u'"
    using False assms by (auto simp: url_set_def Let_def)
  moreover have "parseURL N (assemble (assign k (scalar value) (url_data u))) None = Some (url_data u')"
    "read_params N (search (url_data u')) = url_params u'"
    using u' by (auto simp: url_reparse_def split: option.splits)
  moreover have "\<not> refused k (scalar value) (url_data u)"
    using False by simp
  ultimately show ?thesis
    by (intro exI [of _ u'] conjI disjI2) (auto simp: refused_def Let_def)
qed

theorem url_assignment_guarded_witness:
  "url_set sample_natives Port (lit ''99999'') True sample_url = Some sample_url"
proof -
  have "scalar (lit ''99999'') = lit ''99999''" "decimal (lit ''99999'') = 99999"
    by (simp_all add: text_eval decimal_def)
  then show ?thesis
    using url_assignment_guarded [of Port sample_natives "lit ''99999''" sample_url, OF _ refl] by auto
qed

end
