(* ===== verification/Stream_Pipeline.thy ===== *)
theory Stream_Pipeline
  imports Stream_Async
begin

text \<open>
  \<open>Readable.from\<close>, \<open>pipeline\<close> and \<open>addAbortSignal\<close> (\<open>src/pkg/jsruntime/stream/stream.js\<close>): functions of the module
  that only use its other operations. They are programs of \<open>Stream_Run\<close>; their closures are the functions
  \<open>b + 2\<close>, \<open>b + 3\<close>, \dots of \<open>lib_fun b\<close>, where \<open>b\<close> is the number of the call, and the variables they capture are
  the variables \<open>b + 2\<close>, \<open>b + 3\<close>, \dots of the world. \<open>with_lib\<close> puts them beside the functions of the program.

  The result of a promise is a variable: undefined while it is pending, then \<open>[true]\<close> or \<open>[false, error]\<close>. The
  reactions of promises are tasks of the queue. A result of an iterator is an array \<open>[done, value]\<close>.
\<close>

section \<open>The variables\<close>

abbreviation "v_completed b \<equiv> b + 2"
abbreviation "v_result b \<equiv> b + 3"
abbreviation "v_destDone b \<equiv> b + 4"
abbreviation "v_streams b \<equiv> b + 5"
abbreviation "v_callback b \<equiv> b + 6"
abbreviation "v_done b \<equiv> b + 7"
abbreviation "v_next b \<equiv> b + 8"
abbreviation "v_items b \<equiv> b + 9"
abbreviation "v_stream b \<equiv> b + 10"
abbreviation "v_reason b \<equiv> b + 11"
abbreviation "v_abort b \<equiv> b + 12"

definition get_var :: "nat \<Rightarrow> (val \<Rightarrow> program) \<Rightarrow> program" where
  "get_var i k = Do (GetVar i) k Raise"

definition set_var :: "nat \<Rightarrow> val \<Rightarrow> program \<Rightarrow> program" where
  "set_var i v p = Do (SetVar i v) (\<lambda>_. p) Raise"

definition do_api :: "api \<Rightarrow> program \<Rightarrow> program" where
  "do_api a p = Do a (\<lambda>_. p) Raise"

definition query :: "nat \<Rightarrow> (stream \<Rightarrow> bool) \<Rightarrow> (bool \<Rightarrow> program) \<Rightarrow> program" where
  "query s f k = Do (Query s (\<lambda>ob. VBool (f ob))) (\<lambda>v. k (truthy v)) Raise"

section \<open>Readable.from\<close>

text \<open>\<open>result.done\<close> and \<open>result.value\<close>; \<open>None\<close> where there is no property to read.\<close>

definition result_done :: "val \<Rightarrow> bool option" where
  "result_done r = (if nullish r then None
     else Some (case r of VArr vs \<Rightarrow> truthy (arg 0 vs) | _ \<Rightarrow> False))"

definition result_value :: "val \<Rightarrow> val" where
  "result_value r = (case r of VArr vs \<Rightarrow> arg 1 vs | _ \<Rightarrow> VUndef)"

text \<open>\<open>_read\<close> over a synchronous iterator.\<close>

definition from_fail :: "nat \<Rightarrow> nat \<Rightarrow> val \<Rightarrow> program" where
  "from_fail b s e = set_var (v_done b) (VBool True) (do_api (Destroy s e) (Finish VUndef))"

definition from_result :: "nat \<Rightarrow> nat \<Rightarrow> val \<Rightarrow> program" where
  "from_result b s r = (case result_done r of
       None \<Rightarrow> from_fail b s (VErr TypeError ''cannot read property'')
     | Some True \<Rightarrow> set_var (v_done b) (VBool True) (Do (Push s VNull VUndef) (\<lambda>_. Finish VUndef) (from_fail b s))
     | Some False \<Rightarrow> Do (Push s (result_value r) VUndef) (\<lambda>_. Finish VUndef) (from_fail b s))"

definition from_read :: "nat \<Rightarrow> nat \<Rightarrow> program" where
  "from_read b s = get_var (v_done b) (\<lambda>d. if truthy d then Finish VUndef
     else get_var (v_next b) (\<lambda>f. case f of
         VFun next \<Rightarrow> Do (Call next VUndef []) (from_result b s) (from_fail b s)
       | _ \<Rightarrow> from_fail b s (VErr TypeError ''not a function'')))"

text \<open>\<open>_read\<close> over an asynchronous iterator calls \<open>next\<close>, outside of any handler; the promise it returns settles
  later, with a call of the function \<open>b + 8\<close>: its arguments are whether it was fulfilled, and the result.\<close>

definition from_read_async :: "nat \<Rightarrow> program" where
  "from_read_async b = get_var (v_next b) (\<lambda>f. case f of
       VFun next \<Rightarrow> do_api (Call next VUndef []) (Finish VUndef)
     | _ \<Rightarrow> Raise (VErr TypeError ''not a function''))"

definition from_settled :: "nat \<Rightarrow> bool \<Rightarrow> val \<Rightarrow> program" where
  "from_settled s fulfilled r = (let failed = (\<lambda>e. do_api (Destroy s e) (Finish VUndef)) in
     if \<not> fulfilled then failed r
     else query s is_destroyed (\<lambda>gone. if gone then Finish VUndef
       else case result_done r of
         None \<Rightarrow> failed (VErr TypeError ''cannot read property'')
       | Some True \<Rightarrow> Do (Push s VNull VUndef) (\<lambda>_. Finish VUndef) failed
       | Some False \<Rightarrow> Do (Push s (result_value r) VUndef) (\<lambda>_. Finish VUndef) failed))"

text \<open>The task of a string.\<close>

definition from_string_task :: "nat \<Rightarrow> nat \<Rightarrow> program" where
  "from_string_task b s = query s is_destroyed (\<lambda>gone. if gone then Finish VUndef
     else get_var (v_items b) (\<lambda>x. do_api (Push s x VUndef) (do_api (Push s VNull VUndef) (Finish VUndef))))"

text \<open>The iterator of an array or of a byte array; what other values iterate over is for the program to say:
  the \<open>next\<close> of the iterator that the value's method returns.\<close>

definition array_next :: "nat \<Rightarrow> program" where
  "array_next b = get_var (v_items b) (\<lambda>v. case v of
       VArr (x # xs) \<Rightarrow> set_var (v_items b) (VArr xs) (Finish (VArr [VBool False, x]))
     | _ \<Rightarrow> Finish (VArr [VBool True, VUndef]))"

definition elements_of :: "val \<Rightarrow> val list option" where
  "elements_of x = (case x of
       VArr vs \<Rightarrow> Some vs
     | VBuf bs \<Rightarrow> Some (map (\<lambda>x. VNum (Fin (uint x))) bs)
     | VU8 bs \<Rightarrow> Some (map (\<lambda>x. VNum (Fin (uint x))) bs)
     | _ \<Rightarrow> None)"

datatype iteration = NotIterable | SyncIterator closure | AsyncIterator closure

definition from_options :: "options option \<Rightarrow> options" where
  "from_options opts = (case opts of
       None \<Rightarrow> no_options\<lparr>o_objectMode := True\<rparr> | Some o1 \<Rightarrow> o1)"

definition as_stream :: "val \<Rightarrow> (nat \<Rightarrow> program) \<Rightarrow> program" where
  "as_stream v k = (case v of VStream s \<Rightarrow> k s | _ \<Rightarrow> Raise VUndef)"

text \<open>The option \<open>objectMode\<close> counts as set unless it is \<open>false\<close>: \<open>from_options\<close> without options, and the given
  record where it says which. A string forces it. \<open>k\<close> and \<open>h\<close> are what follows on a stream and on an error.\<close>

definition from_iterator :: "nat \<Rightarrow> options option \<Rightarrow> closure \<Rightarrow> nat \<Rightarrow> (val \<Rightarrow> program) \<Rightarrow> (val \<Rightarrow> program) \<Rightarrow> program" where
  "from_iterator b opts next hook k h =
     Do (NewReadable ((from_options opts)\<lparr>o_read := Some (User hook)\<rparr>)) (\<lambda>v.
       set_var (v_done b) (VBool False) (set_var (v_next b) (VFun next) (set_var (v_stream b) v (k v)))) h"

definition readable_from :: "nat \<Rightarrow> (val \<Rightarrow> iteration) \<Rightarrow> options option \<Rightarrow> val \<Rightarrow> (val \<Rightarrow> program) \<Rightarrow> (val \<Rightarrow> program) \<Rightarrow> program" where
  "readable_from b it opts x k h = (case x of
       VStr _ \<Rightarrow>
         Do (NewReadable ((from_options opts)\<lparr>o_objectMode := True\<rparr>)) (\<lambda>v.
           set_var (v_items b) x (set_var (v_stream b) v (do_api (NextTick (User (b + 6))) (k v)))) h
     | _ \<Rightarrow> (case elements_of x of
         Some vs \<Rightarrow> set_var (v_items b) (VArr vs) (from_iterator b opts (User (b + 9)) (b + 5) k h)
       | None \<Rightarrow> (case (if nullish x then NotIterable else it x) of
           NotIterable \<Rightarrow> h (VErr TypeError ''Readable.from() requires an iterable'')
         | AsyncIterator next \<Rightarrow> from_iterator b opts next (b + 7) k h
         | SyncIterator next \<Rightarrow> from_iterator b opts next (b + 5) k h)))"

section \<open>pipeline\<close>

text \<open>The promise settles once; its reaction calls the callback, if there is one, in a later task.\<close>

definition settle_promise :: "nat \<Rightarrow> val \<Rightarrow> val \<Rightarrow> program \<Rightarrow> program" where
  "settle_promise b r e p = get_var (v_result b) (\<lambda>old. if old \<noteq> VUndef then p
     else set_var (v_result b) r (get_var (v_callback b) (\<lambda>cb.
       if is_function cb then do_api (NextTick (TickCallback cb e)) p else p)))"

abbreviation "resolve_promise b \<equiv> settle_promise b (VArr [VBool True]) VNull"
abbreviation "reject_promise b e \<equiv> settle_promise b (VArr [VBool False, e]) e"

primrec destroy_each :: "val \<Rightarrow> val list \<Rightarrow> program \<Rightarrow> program" where
  "destroy_each e [] p = p"
| "destroy_each e (v # vs) p = (case v of
       VStream s \<Rightarrow> Do (Destroy s e) (\<lambda>_. destroy_each e vs p) (\<lambda>_. destroy_each e vs p)
     | _ \<Rightarrow> destroy_each e vs p)"

definition pipeline_fail :: "nat \<Rightarrow> val \<Rightarrow> program \<Rightarrow> program" where
  "pipeline_fail b e p = get_var (v_completed b) (\<lambda>c. if truthy c then p
     else set_var (v_completed b) (VBool True) (get_var (v_streams b) (\<lambda>vs.
       destroy_each e (case vs of VArr xs \<Rightarrow> xs | _ \<Rightarrow> []) (reject_promise b e p))))"

definition pipeline_succeed :: "nat \<Rightarrow> program \<Rightarrow> program" where
  "pipeline_succeed b p = get_var (v_completed b) (\<lambda>c. if truthy c then p
     else set_var (v_completed b) (VBool True) (resolve_promise b p))"

definition mark_dest_done :: "nat \<Rightarrow> program \<Rightarrow> program" where
  "mark_dest_done b p = set_var (v_destDone b) (VBool True) (pipeline_succeed b p)"

definition dest_closed :: "nat \<Rightarrow> nat \<Rightarrow> program" where
  "dest_closed b d = get_var (v_destDone b) (\<lambda>dn.
     query d (\<lambda>ob. writableFinished ob \<or> readableEnded ob) (\<lambda>over.
       if truthy dn \<or> over then Finish VUndef
       else Do (Query d premature) (\<lambda>e. pipeline_fail b e (Finish VUndef)) Raise))"

text \<open>The listeners of the destination.\<close>

definition watch_side :: "nat \<Rightarrow> nat \<Rightarrow> (stream \<Rightarrow> bool) \<Rightarrow> (stream \<Rightarrow> bool) \<Rightarrow> evname \<Rightarrow> program \<Rightarrow> program" where
  "watch_side b d side over ev p = query d side (\<lambda>there. if \<not> there then p
     else query d over (\<lambda>x. if x then mark_dest_done b p else do_api (On d ev (VFun (User (b + 3)))) p))"

definition is_writable :: "stream \<Rightarrow> bool" where
  "is_writable ob \<longleftrightarrow> has_w ob \<and> w_writable (wstate ob)"

definition is_readable_side :: "stream \<Rightarrow> bool" where
  "is_readable_side ob \<longleftrightarrow> has_r ob \<and> r_readable (rstate ob)"

definition watch_dest :: "nat \<Rightarrow> nat \<Rightarrow> program \<Rightarrow> program" where
  "watch_dest b d p =
     watch_side b d has_w writableFinished EvFinish
     (watch_side b d is_readable_side readableEnded EvEnd
     (query d (\<lambda>ob. \<not> is_writable ob \<and> \<not> is_readable_side ob) (\<lambda>none.
       (if none then mark_dest_done b else (\<lambda>q. q)) (do_api (On d EvClose (VFun (User (b + 4)))) p))))"

primrec attach_errors :: "nat \<Rightarrow> val list \<Rightarrow> program \<Rightarrow> program" where
  "attach_errors b [] p = p"
| "attach_errors b (v # vs) p = (case v of
       VStream s \<Rightarrow> do_api (On s EvError (VFun (User (b + 2)))) (attach_errors b vs p)
     | _ \<Rightarrow> attach_errors b vs p)"

text \<open>The loop that pipes each stream into the next. What \<open>pipe\<close> throws leaves the executor of the promise, which
  rejects it.\<close>

primrec pipe_all :: "nat \<Rightarrow> nat \<Rightarrow> val list \<Rightarrow> program \<Rightarrow> program \<Rightarrow> program" where
  "pipe_all b src [] k p = k"
| "pipe_all b src (v # vs) k p = (case v of
       VStream d \<Rightarrow> Do (PipeTo src v True) (\<lambda>_. pipe_all b d vs k p) (\<lambda>e. reject_promise b e p)
     | _ \<Rightarrow> pipeline_fail b (VErr TypeError ''pipeline() transform streams must be duplex'') p)"

definition flatten_args :: "val list \<Rightarrow> val list" where
  "flatten_args args = concat (map (\<lambda>v. case v of VArr vs \<Rightarrow> vs | _ \<Rightarrow> [v]) args)"

definition pipeline_connect :: "nat \<Rightarrow> val list \<Rightarrow> nat \<Rightarrow> program \<Rightarrow> program" where
  "pipeline_connect b vs src p = (let bad = pipeline_fail b (VErr TypeError ''pipeline() destination must be a writable stream'') p in
     case last vs of
       VStream d \<Rightarrow> query d has_w (\<lambda>ok. if \<not> ok then bad
         else attach_errors b vs (pipe_all b src (tl vs) (watch_dest b d p) p))
     | _ \<Rightarrow> bad)"

definition pipeline_source :: "nat \<Rightarrow> (val \<Rightarrow> iteration) \<Rightarrow> val list \<Rightarrow> program \<Rightarrow> program" where
  "pipeline_source b it vs p =
     (let bad = (\<lambda>_. pipeline_fail b (VErr TypeError ''pipeline() source must be a stream or iterable'') p);
          from = (\<lambda>x. readable_from b it None x (\<lambda>v. as_stream v (\<lambda>s.
            do_api (On s EvError (VFun (User (b + 2)))) (pipeline_connect b vs s p))) bad)
      in case hd vs of
        VStream s \<Rightarrow> pipeline_connect b vs s p
      | VFun c \<Rightarrow> Do (Call c VUndef [VObj 0]) from bad
      | x \<Rightarrow> from x)"

text \<open>\<open>pipeline(...args)\<close>: a function at the end is the callback.\<close>

definition pipeline_run :: "nat \<Rightarrow> (val \<Rightarrow> iteration) \<Rightarrow> val list \<Rightarrow> val \<Rightarrow> program" where
  "pipeline_run b it streams cb = (let vs = flatten_args streams; p = Finish VUndef in
     set_var (v_completed b) (VBool False) (set_var (v_result b) VUndef (set_var (v_destDone b) (VBool False)
     (set_var (v_streams b) (VArr vs) (set_var (v_callback b) cb
     (if length vs = 0 then pipeline_fail b (VErr TypeError ''pipeline() requires at least one stream'') p
      else if length vs < 2 then pipeline_fail b (VErr TypeError ''pipeline() requires at least two streams'') p
      else pipeline_source b it vs p))))))"

definition pipeline :: "nat \<Rightarrow> (val \<Rightarrow> iteration) \<Rightarrow> val list \<Rightarrow> program" where
  "pipeline b it args = (if args \<noteq> [] \<and> is_function (last args)
     then pipeline_run b it (butlast args) (last args) else pipeline_run b it args VNull)"

section \<open>addAbortSignal\<close>

text \<open>A signal that is one has the method \<open>addEventListener\<close> and is aborted or not, with a reason; its listener
  for \<open>abort\<close> is kept in a variable, and the reason it finds when it runs in another.\<close>

definition abort_error :: "val \<Rightarrow> val" where
  "abort_error reason = (if truthy reason then reason else VErr Error ''The operation was aborted'')"

definition addAbortSignal :: "nat \<Rightarrow> (bool \<times> val) option \<Rightarrow> val \<Rightarrow> program" where
  "addAbortSignal b sig x = (case sig of
       None \<Rightarrow> Raise (VErr TypeError ''addAbortSignal() requires an AbortSignal'')
     | Some (aborted, reason) \<Rightarrow> (case x of
         VStream s \<Rightarrow>
           if aborted then do_api (Destroy s (abort_error reason)) (Finish x)
           else set_var (v_stream b) x (set_var (v_reason b) reason (set_var (v_abort b) (VFun (User (b + 10))) (Finish x)))
       | _ \<Rightarrow> Raise (VErr TypeError ''addAbortSignal() requires a stream'')))"

definition on_abort :: "nat \<Rightarrow> nat \<Rightarrow> program" where
  "on_abort b s = get_var (v_reason b) (\<lambda>r. do_api (Destroy s (abort_error r)) (Finish VUndef))"

section \<open>The small getters\<close>

definition isErrored :: "stream \<Rightarrow> val" where
  "isErrored ob = (if truthy (errored_of ob) then errored_of ob else VBool False)"

definition isReadable :: "stream \<Rightarrow> bool" where
  "isReadable ob \<longleftrightarrow> has_r ob \<and> r_readable (rstate ob) \<and> \<not> is_destroyed ob"

definition isDisturbed :: "stream \<Rightarrow> bool" where
  "isDisturbed ob \<longleftrightarrow> has_r ob \<and> r_disturbed (rstate ob)"

definition getDefaultHighWaterMark :: "val \<Rightarrow> jsnum" where
  "getDefaultHighWaterMark v = defaultHighWaterMark (truthy v)"

definition readableAborted :: "stream \<Rightarrow> bool" where
  "readableAborted ob \<longleftrightarrow> r_destroyed (rstate ob) \<and> \<not> r_endEmitted (rstate ob)"

section \<open>The functions\<close>

definition with_stream :: "nat \<Rightarrow> (nat \<Rightarrow> program) \<Rightarrow> program" where
  "with_stream b k = get_var (v_stream b) (\<lambda>v. as_stream v k)"

definition lib_fun :: "nat \<Rightarrow> nat \<Rightarrow> val list \<Rightarrow> program" where
  "lib_fun b i a =
     (if i = 2 then pipeline_fail b (arg 1 a) (Finish VUndef)
      else if i = 3 then mark_dest_done b (Finish VUndef)
      else if i = 4 then as_stream (arg 0 a) (dest_closed b)
      else if i = 5 then as_stream (arg 0 a) (from_read b)
      else if i = 6 then with_stream b (from_string_task b)
      else if i = 7 then from_read_async b
      else if i = 8 then with_stream b (\<lambda>s. from_settled s (truthy (arg 1 a)) (arg 2 a))
      else if i = 9 then array_next b
      else with_stream b (on_abort b))"

definition with_lib :: "nat \<Rightarrow> (nat \<Rightarrow> val list \<Rightarrow> program) \<Rightarrow> nat \<Rightarrow> val list \<Rightarrow> program" where
  "with_lib b f n a = (if b + 2 \<le> n \<and> n < b + 11 then lib_fun b (n - b) a else f n a)"

end
