(* ===== verification/Stream_Pipeline_Spec.thy ===== *)
theory Stream_Pipeline_Spec
  imports Stream_Pipeline
begin

text \<open>
  What \<open>Readable.from\<close> and \<open>pipeline\<close> promise.
\<close>

section \<open>Running library code\<close>

declare call_fuel.simps [simp del]

definition lib_at :: "outside \<Rightarrow> nat \<Rightarrow> bool" where
  "lib_at U b \<longleftrightarrow> (\<forall>i a. 2 \<le> i \<and> i < 11 \<longrightarrow> user U (b + i) a = lib_fun b i a)"

lemma lib_at_with: "user U = with_lib b f \<Longrightarrow> lib_at U b"
  by (simp add: lib_at_def with_lib_def)

lemma run_get_var [simp]: "run_program R (get_var i k) w = run_program R (k (vars w i)) w"
  by (simp add: get_var_def js_get_def)

lemma run_set_var [simp]: "run_program R (set_var i v p) w = run_program R p (w\<lparr>vars := (vars w)(i := v)\<rparr>)"
  by (simp add: set_var_def js_val_def js_mod_def js_bind_def js_ret_def)

lemma run_query [simp]: "run_program R (query s f k) w = run_program R (k (f (heap w s))) w"
  by (simp add: query_def get_obj_def js_get_def)

lemma run_finish [simp]: "run_program R (Finish v) w = (Return v, w)"
  by (simp add: js_ret_def)

lemma lib_call:
  "lib_at U b \<Longrightarrow> 2 \<le> i \<Longrightarrow> i < 11 \<Longrightarrow> call_fuel U (Suc n) (User (b + i)) t a = run_program (rt_fuel U n) (lib_fun b i (t # a))"
  by (simp add: call_fuel.simps lib_at_def rt_fuel_def)

section \<open>Readable.from over an array\<close>

definition solid :: "val \<Rightarrow> bool" where
  "solid v \<longleftrightarrow> \<not> nullish v \<and> val_len v \<noteq> Some 0"

text \<open>A listener that keeps something about its arguments in the variable \<open>k\<close>: \<open>f\<close> says what, from the value before.\<close>

definition keep_in :: "nat \<Rightarrow> (val \<Rightarrow> val list \<Rightarrow> val) \<Rightarrow> val list \<Rightarrow> (nat \<Rightarrow> val) \<Rightarrow> nat \<Rightarrow> val" where
  "keep_in k f a V = V(k := f (V k) a)"

definition keeper :: "outside \<Rightarrow> closure \<Rightarrow> nat \<Rightarrow> (val \<Rightarrow> val list \<Rightarrow> val) \<Rightarrow> bool" where
  "keeper U c k f \<longleftrightarrow> watcher U c (keep_in k f)"

lemma observer_keeper: "observer U c \<Longrightarrow> keeper U c k (\<lambda>x a. x)"
  by (simp add: observer_watcher keeper_def watcher_def keep_in_def)

type_synonym memos = "(val \<Rightarrow> val list \<Rightarrow> val) list"

lemma fold_keep_in: "fold (\<lambda>g. g a) (map (keep_in k) fs) V = V(k := fold (\<lambda>f x. f x a) fs (V k))"
  by (induction fs arbitrary: V) (simp_all add: keep_in_def)

lemma emit_keepers:
  assumes "list_all2 (\<lambda>c. keeper U c k) (ev_list (emitter (heap w s)) ev) fs" and "ev \<noteq> EvError"
  shows "\<exists>r. emit (rt_fuel U (Suc n)) s ev a w = (Return r, w\<lparr>vars := (vars w)(k := fold (\<lambda>f x. f x a) fs (vars w k))\<rparr>)"
proof -
  have "list_all2 (watcher U) (ev_list (emitter (heap w s)) ev) (map (keep_in k) fs)"
    using assms(1) by (auto simp: list.rel_map keeper_def elim: list_all2_mono)
  then show ?thesis
    using emit_watchers [OF _ assms(2), of U w s "map (keep_in k) fs" n a] by (simp add: fold_keep_in)
qed

text \<open>What a variable holds when the listeners of \<open>data\<close> were given the chunks in order and those of \<open>end\<close> were called.\<close>

definition heard :: "memos \<Rightarrow> memos \<Rightarrow> val list \<Rightarrow> val \<Rightarrow> val" where
  "heard ds es vs x = fold (\<lambda>f x. f x []) es (fold (\<lambda>v. fold (\<lambda>f x. f x [v]) ds) vs x)"

text \<open>A stream made of an array, flowing into listeners that keep notes in a variable, with the chunks \<open>cs\<close> in its buffer and
  the elements \<open>vs\<close> still to come.\<close>

definition from_state :: "outside \<Rightarrow> nat \<Rightarrow> nat \<Rightarrow> memos \<Rightarrow> memos \<Rightarrow> nat \<Rightarrow> val list \<Rightarrow> val list \<Rightarrow> world \<Rightarrow> bool" where
  "from_state U b k ds es s cs vs w \<longleftrightarrow> (let ob = heap w s; r = rstate ob in
     r_readable r \<and> r_objectMode r \<and> r_flowing r = Some True \<and> \<not> r_destroyed r \<and> \<not> r_ended r \<and> \<not> r_endEmitted r \<and>
     \<not> r_reading r \<and> r_buffer r = cs \<and> r_length r = Fin (int (length cs)) \<and> \<not> num_ge (Fin 0) (r_highWaterMark r) \<and>
     has_r ob \<and> h_read (hooks ob) = User (b + 5) \<and>
     list_all2 (\<lambda>c. keeper U c k) (ev_list (emitter ob) EvData) ds \<and> list_all2 (\<lambda>c. keeper U c k) (ev_list (emitter ob) EvEnd) es \<and>
     k \<notin> {b + 7, b + 8, b + 9} \<and>
     \<not> truthy (vars w (b + 7)) \<and> vars w (b + 8) = VFun (User (b + 9)) \<and> vars w (b + 9) = VArr vs)"

lemma array_next_run:
  "lib_at U b \<Longrightarrow> vars w (b + 9) = VArr vs \<Longrightarrow>
   call_fuel U (Suc n) (User (b + 9)) t a w = (case vs of
      [] \<Rightarrow> (Return (VArr [VBool True, VUndef]), w)
    | v # us \<Rightarrow> (Return (VArr [VBool False, v]), w\<lparr>vars := (vars w)(b + 9 := VArr us)\<rparr>))"
  by (simp add: lib_call lib_fun_def array_next_def js_ret_def split: list.split)

lemma from_hook_run:
  assumes "lib_at U b" "\<not> truthy (vars w (b + 7))" "vars w (b + 8) = VFun (User (b + 9))" "vars w (b + 9) = VArr (v # vs)"
  shows "call_fuel U (Suc (Suc n)) (User (b + 5)) (VStream s) a w =
    run_program (rt_fuel U (Suc n)) (Do (Push s v VUndef) (\<lambda>_. Finish VUndef) (from_fail b s))
      (w\<lparr>vars := (vars w)(b + 9 := VArr vs)\<rparr>)"
  using assms array_next_run [OF assms(1,4), of n VUndef "[]"]
  by (simp add: lib_call lib_fun_def as_stream_def arg_def from_read_def rt_fuel_def make_rt_def from_result_def
      result_done_def result_value_def nullish_def)

lemma from_hook_end:
  assumes "lib_at U b" "\<not> truthy (vars w (b + 7))" "vars w (b + 8) = VFun (User (b + 9))" "vars w (b + 9) = VArr []"
  shows "call_fuel U (Suc (Suc n)) (User (b + 5)) (VStream s) a w =
    run_program (rt_fuel U (Suc n)) (Do (Push s VNull VUndef) (\<lambda>_. Finish VUndef) (from_fail b s))
      (w\<lparr>vars := (vars w)(b + 7 := VBool True)\<rparr>)"
  using assms array_next_run [OF assms(1,4), of n VUndef "[]"]
  by (simp add: lib_call lib_fun_def as_stream_def arg_def from_read_def rt_fuel_def make_rt_def from_result_def
      result_done_def result_value_def nullish_def)

lemma read_element:
  assumes "lib_at U b" "from_state U b k ds es s [] (v # vs) w" "solid v"
  shows "\<exists>w'. maybeRead (rt_fuel U (Suc (Suc n))) s w = (Return (), w') \<and> from_state U b k ds es s [v] vs w' \<and>
    history (heap w' s) = history (heap w s) @ [Pushed v] \<and> vars w' k = vars w k"
proof -
  define w1 where "w1 = w\<lparr>heap := (heap w)(s := (heap w s)\<lparr>rstate := (rstate (heap w s))\<lparr>r_reading := True\<rparr>\<rparr>)\<rparr>"
  have hook: "call_fuel U (Suc (Suc n)) (User (b + 5)) (VStream s) a w1 =
    run_program (rt_fuel U (Suc n)) (Do (Push s v VUndef) (\<lambda>_. Finish VUndef) (from_fail b s))
      (w1\<lparr>vars := (vars w1)(b + 9 := VArr vs)\<rparr>)" for a
    using assms by (intro from_hook_run) (simp_all add: from_state_def w1_def Let_def)
  have v: "v \<noteq> VNull" "v \<noteq> VUndef" "val_len v \<noteq> Some 0"
    using assms(3) by (auto simp: solid_def nullish_def)
  show ?thesis
    using assms(2) v
    by (auto simp: maybeRead_def get_obj_def mod_r_def mod_obj_def js_defs rt_fuel_def make_rt_def hook from_state_def Let_def
        method_of_def js_val_def push_def byte_chunk_def scheduleFlow_def schedule_def push_chunk_def chunkLength_def
        hook [unfolded w1_def])
qed

text \<open>An element of length zero is dropped, and the stream is left waiting.\<close>

lemma read_empty:
  assumes "lib_at U b" "from_state U b k ds es s [] (v # vs) w" "\<not> nullish v" "val_len v = Some 0"
  shows "\<exists>w'. maybeRead (rt_fuel U (Suc (Suc n))) s w = (Return (), w') \<and> from_state U b k ds es s [] vs w' \<and>
    history (heap w' s) = history (heap w s) \<and> ticks w' = ticks w \<and> uncaught w' = uncaught w"
proof -
  define w1 where "w1 = w\<lparr>heap := (heap w)(s := (heap w s)\<lparr>rstate := (rstate (heap w s))\<lparr>r_reading := True\<rparr>\<rparr>)\<rparr>"
  have hook: "call_fuel U (Suc (Suc n)) (User (b + 5)) (VStream s) a w1 =
    run_program (rt_fuel U (Suc n)) (Do (Push s v VUndef) (\<lambda>_. Finish VUndef) (from_fail b s))
      (w1\<lparr>vars := (vars w1)(b + 9 := VArr vs)\<rparr>)" for a
    using assms by (intro from_hook_run) (simp_all add: from_state_def w1_def Let_def)
  have v: "v \<noteq> VNull" "v \<noteq> VUndef"
    using assms(3) by (auto simp: nullish_def)
  show ?thesis
    using assms(2,4) v
    by (auto simp: maybeRead_def get_obj_def mod_r_def mod_obj_def js_defs rt_fuel_def make_rt_def from_state_def Let_def
        method_of_def js_val_def push_def byte_chunk_def hook [unfolded w1_def])
qed

text \<open>The stream has ended and nothing is left.\<close>

definition from_over :: "nat \<Rightarrow> world \<Rightarrow> bool" where
  "from_over s w \<longleftrightarrow> (let r = rstate (heap w s) in r_ended r \<and> r_endEmitted r \<and> r_buffer r = [])"

lemma autoDestroy_heap: "\<exists>w'. autoDestroy s w = (Return (), w') \<and> heap w' = heap w \<and> vars w' = vars w"
  by (cases "has_r (heap w s) \<and> \<not> r_endEmitted (rstate (heap w s)) \<or> has_w (heap w s) \<and> \<not> w_finished (wstate (heap w s))")
    (auto simp: autoDestroy_def js_bind_def js_get_def js_ret_def js_mod_def get_obj_def schedule_def)

lemma read_end:
  assumes "lib_at U b" "from_state U b k ds es s [] [] w"
  shows "\<exists>w'. maybeRead (rt_fuel U (Suc (Suc n))) s w = (Return (), w') \<and> from_over s w' \<and>
    history (heap w' s) = history (heap w s) @ [EmitEnd] \<and> vars w' k = fold (\<lambda>f x. f x []) es (vars w k)"
proof -
  define w1 where "w1 = w\<lparr>heap := (heap w)(s := (heap w s)\<lparr>rstate := (rstate (heap w s))\<lparr>r_reading := True\<rparr>\<rparr>)\<rparr>"
  have hook: "call_fuel U (Suc (Suc n)) (User (b + 5)) (VStream s) a w1 =
    run_program (rt_fuel U (Suc n)) (Do (Push s VNull VUndef) (\<lambda>_. Finish VUndef) (from_fail b s))
      (w1\<lparr>vars := (vars w1)(b + 7 := VBool True)\<rparr>)" for a
    using assms by (intro from_hook_end) (simp_all add: from_state_def w1_def Let_def)
  define w2 where "w2 = w1\<lparr>vars := (vars w1)(b + 7 := VBool True),
    heap := (heap w1)(s := snd (emitEnd_begin ((heap w1 s)\<lparr>rstate := push_end (rstate (heap w1 s))\<rparr>)))\<rparr>"
  have e: "from_over s w2" "history (heap w2 s) = history (heap w s) @ [EmitEnd]"
    "list_all2 (\<lambda>c. keeper U c k) (ev_list (emitter (heap w2 s)) EvEnd) es" "vars w2 k = vars w k"
    using assms(2) by (simp_all add: from_over_def w2_def w1_def emitEnd_begin_def push_end_def from_state_def Let_def)
  define w2' where "w2' = w2\<lparr>vars := (vars w2)(k := fold (\<lambda>f x. f x []) es (vars w2 k))\<rparr>"
  obtain r where r: "emit (rt_fuel U (Suc n)) s EvEnd [] w2 = (Return r, w2')"
    unfolding w2'_def using emit_keepers [OF e(3)] by blast
  have e': "from_over s w2'" "history (heap w2' s) = history (heap w2 s)" "vars w2' k = fold (\<lambda>f x. f x []) es (vars w k)"
    using e(1,4) by (simp_all add: from_over_def w2'_def)
  obtain w3 where w3: "autoDestroy s w2' = (Return (), w3)" "heap w3 = heap w2'" "vars w3 = vars w2'"
    using autoDestroy_heap [of s w2'] by blast
  have "push (rt_fuel U (Suc n)) s VNull VUndef (w1\<lparr>vars := (vars w1)(b + 7 := VBool True)\<rparr>) = (Return False, w3)"
    using assms(2) r w3(1)
    by (simp add: push_def get_obj_def js_defs mod_r_def mod_obj_def emitEnd_def step_obj_def from_state_def Let_def
        w2_def w1_def emitEnd_begin_def push_end_def)
  then have "run_program (rt_fuel U (Suc n)) (Do (Push s VNull VUndef) (\<lambda>_. Finish VUndef) (from_fail b s))
      (w1\<lparr>vars := (vars w1)(b + 7 := VBool True)\<rparr>) = (Return VUndef, w3)"
    using assms(2) by (simp add: method_of_def js_val_def get_obj_def js_defs from_state_def w1_def Let_def)
  then have "maybeRead (rt_fuel U (Suc (Suc n))) s w = (Return (), w3)"
    using assms(2) hook
    by (simp add: maybeRead_def get_obj_def mod_r_def mod_obj_def js_defs rt_fuel_def make_rt_def from_state_def Let_def w1_def)
  then show ?thesis using w3 e(2) e' by (auto simp: from_over_def)
qed

lemma flow_over:
  "from_over s w \<Longrightarrow> flow R s w = (Return (), w)"
  by (auto simp: flow_def from_over_def get_obj_def js_defs emitEnd_def step_obj_def emitEnd_begin_def Let_def fun_upd_idem)

lemma flow_from:
  assumes "lib_at U b" "list_all solid vs" "from_state U b k ds es s [] vs w"
  shows "\<exists>w'. flow (rt_fuel U (2 * length vs + 2 + n)) s w = (Return (), w') \<and> from_over s w' \<and>
    history (heap w' s) = history (heap w s) @ concat (map (\<lambda>v. [Pushed v, Delivered v]) vs) @ [EmitEnd] \<and>
    vars w' k = heard ds es vs (vars w k)"
  using assms(2,3)
proof (induction vs arbitrary: w n)
  case Nil
  obtain w' where w': "maybeRead (rt_fuel U (Suc (Suc n))) s w = (Return (), w')" "from_over s w'"
    "history (heap w' s) = history (heap w s) @ [EmitEnd]" "vars w' k = heard ds es [] (vars w k)"
    using read_end [OF assms(1) Nil.prems(2), of n] by (auto simp: heard_def)
  have "rt_call (rt_fuel U (Suc (Suc n))) (FlowLoop s) VUndef [] w' = (Return VUndef, w')"
    using flow_over [OF w'(2)] by (simp add: rt_fuel_def make_rt_def call_fuel.simps js_val_def js_defs)
  then show ?case
    using w' Nil.prems(2) by (simp add: flow_def get_obj_def js_defs from_state_def from_over_def Let_def)
next
  case (Cons v vs)
  let ?R = "rt_fuel U (2 * length (v # vs) + 2 + n)"
  obtain w1 where w1: "maybeRead ?R s w = (Return (), w1)" "from_state U b k ds es s [v] vs w1"
    "history (heap w1 s) = history (heap w s) @ [Pushed v]" "vars w1 k = vars w k"
    using read_element [OF assms(1) Cons.prems(2), of "2 * length vs + 2 + n"] Cons.prems(1) by auto
  define w2 where "w2 = w1\<lparr>heap := (heap w1)(s := snd (flow_shift (heap w1 s)))\<rparr>"
  define w3 where "w3 = w2\<lparr>vars := (vars w2)(k := fold (\<lambda>f x. f x [v]) ds (vars w2 k))\<rparr>"
  have w3: "from_state U b k ds es s [] vs w3" "history (heap w3 s) = history (heap w1 s) @ [Delivered v]"
    "vars w3 k = fold (\<lambda>f x. f x [v]) ds (vars w k)"
    using w1(2,4) by (simp_all add: w3_def w2_def from_state_def flow_shift_def Let_def chunkLength_def)
  obtain w' where w': "flow (rt_fuel U (2 * length vs + 2 + n)) s w3 = (Return (), w')" "from_over s w'"
    "history (heap w' s) = history (heap w3 s) @ concat (map (\<lambda>v. [Pushed v, Delivered v]) vs) @ [EmitEnd]"
    "vars w' k = heard ds es vs (vars w3 k)"
    using Cons.IH [OF _ w3(1)] Cons.prems(1) by auto
  have data: "list_all2 (\<lambda>c. keeper U c k) (ev_list (emitter (heap w2 s)) EvData) ds"
    using w3(1) by (simp add: from_state_def Let_def w3_def)
  obtain r where "emit (rt_fuel U (2 * length vs + 3 + n)) s EvData [v] w2 = (Return r, w3)"
    using emit_keepers [OF data, of "2 * length vs + 2 + n" "[v]"] by (auto simp: numeral_eq_Suc w3_def)
  then have "flow (rt_fuel U (2 * length vs + 3 + n)) s w1 = (Return (), w')"
    using w1(2) w'(1)
    by (simp add: flow_def get_obj_def js_defs from_state_def Let_def step_obj_def flow_shift_def w2_def rt_fuel_def
        make_rt_def call_fuel.simps js_val_def numeral_eq_Suc)
  then have "rt_call ?R (FlowLoop s) VUndef [] w1 = (Return VUndef, w')"
    by (simp add: rt_fuel_def make_rt_def call_fuel.simps js_val_def js_defs numeral_eq_Suc)
  then have "flow ?R s w = (Return (), w')"
    using w1(1,2) Cons.prems(2) by (simp add: flow_def get_obj_def js_defs from_state_def Let_def)
  then show ?case using w' w3 w1 by (auto simp: heard_def)
qed

text \<open>The program that makes the stream and listens to its data.\<close>

definition listen_to_array :: "nat \<Rightarrow> (val \<Rightarrow> iteration) \<Rightarrow> val list \<Rightarrow> closure \<Rightarrow> program" where
  "listen_to_array b it vs l = readable_from b it None (VArr vs) (\<lambda>v. as_stream v (\<lambda>s.
     do_api (On s EvData (VFun l)) (Finish v))) Raise"

text \<open>One that also listens to its end.\<close>

definition listen_to_all :: "nat \<Rightarrow> (val \<Rightarrow> iteration) \<Rightarrow> val list \<Rightarrow> closure \<Rightarrow> closure \<Rightarrow> program" where
  "listen_to_all b it vs l m = readable_from b it None (VArr vs) (\<lambda>v. as_stream v (\<lambda>s.
     do_api (On s EvEnd (VFun m)) (do_api (On s EvData (VFun l)) (Finish v)))) Raise"

lemma listen_run:
  assumes "observer U l"
  shows "\<exists>w1. run_program R (listen_to_array b it vs l) w = (Return (VStream (next_stream w)), w1) \<and>
    ticks w1 = ticks w @ [TickFlow (next_stream w)] \<and> from_state U b b [\<lambda>x a. x] [] (next_stream w) [] vs w1 \<and>
    history (heap w1 (next_stream w)) = [] \<and> uncaught w1 = uncaught w"
  using observer_keeper [OF assms, of b]
  by (auto simp: listen_to_array_def readable_from_def elements_of_def from_iterator_def as_stream_def from_options_def do_api_def
      js_val_def js_defs alloc_def stream_on_def base_on_def listener_added_def resume_def scheduleFlow_def get_obj_def
      mod_obj_def mod_r_def schedule_def object_eval from_state_def emitter_on_def ev_list_def Let_def)

text \<open>A variable that the library does not use.\<close>

definition free_var :: "nat \<Rightarrow> nat \<Rightarrow> bool" where
  "free_var b k \<longleftrightarrow> k < b + 2 \<or> b + 12 < k"

lemma listen_all_run:
  assumes "keeper U l k f" and "keeper U m k g" and "free_var b k"
  shows "\<exists>w1. run_program R (listen_to_all b it vs l m) w = (Return (VStream (next_stream w)), w1) \<and>
    ticks w1 = ticks w @ [TickFlow (next_stream w)] \<and> from_state U b k [f] [g] (next_stream w) [] vs w1 \<and>
    history (heap w1 (next_stream w)) = [] \<and> vars w1 k = vars w k"
  using assms
  by (auto simp: listen_to_all_def readable_from_def elements_of_def from_iterator_def as_stream_def from_options_def do_api_def
      js_val_def js_defs alloc_def stream_on_def base_on_def listener_added_def resume_def scheduleFlow_def get_obj_def
      mod_obj_def mod_r_def schedule_def object_eval from_state_def emitter_on_def ev_list_def Let_def free_var_def)

section \<open>Destruction stays\<close>

definition gone :: "nat \<Rightarrow> nat \<Rightarrow> stream \<Rightarrow> bool" where
  "gone s t ob \<longleftrightarrow> (t = s \<longrightarrow> already_destroyed ob)"

lemma already_same_core: "same_core ob ob' \<Longrightarrow> already_destroyed ob' = already_destroyed ob"
  by (simp add: same_core_def already_destroyed_def)

lemma step_stays_gone:
  "already_destroyed ob \<Longrightarrow> already_destroyed (snd (destroy_begin e ob))"
  "already_destroyed ob \<Longrightarrow> already_destroyed (destroy_clear ob)"
  "already_destroyed ob \<Longrightarrow> already_destroyed (snd (complete_begin e ob))"
  "already_destroyed ob \<Longrightarrow> already_destroyed (snd (emitEnd_begin ob))"
  "already_destroyed ob \<Longrightarrow> already_destroyed (ob\<lparr>rstate := push_end (rstate ob)\<rparr>)"
  "already_destroyed ob \<Longrightarrow> already_destroyed (push_chunk c ob)"
  "already_destroyed ob \<Longrightarrow> already_destroyed (unshift_chunk c ob)"
  "already_destroyed ob \<Longrightarrow> already_destroyed (snd (flow_shift ob))"
  "already_destroyed ob \<Longrightarrow> already_destroyed (snd (finish_begin ob))"
  "already_destroyed ob \<Longrightarrow> already_destroyed (snd (final_begin ob))"
  "already_destroyed ob \<Longrightarrow> already_destroyed (snd (final_called k ob))"
  "already_destroyed ob \<Longrightarrow> already_destroyed (snd (doWrite_begin ob))"
  "already_destroyed ob \<Longrightarrow> already_destroyed (snd (onwrite_begin k ob))"
  "already_destroyed ob \<Longrightarrow> already_destroyed (snd (accept_item i ob))"
  "already_destroyed ob \<Longrightarrow> already_destroyed (set_ended ob)"
  "already_destroyed ob \<Longrightarrow> already_destroyed (ob\<lparr>wstate := (wstate ob)\<lparr>w_corked := j\<rparr>\<rparr>)"
  "already_destroyed ob \<Longrightarrow> already_destroyed (snd (uncork_begin ob))"
  by (auto simp: already_destroyed_def step_defs push_end_def Let_def split: list.splits option.splits prod.splits)

lemma read_take_destroyed: "already_destroyed (snd (read_take n ob)) = already_destroyed ob"
proof -
  have "r_destroyed (rstate (snd (read_take n ob))) = r_destroyed (rstate ob)"
    by (auto simp: read_take_def read_bytes_def Let_def split: option.splits list.splits prod.splits)
  then show ?thesis by (simp add: already_destroyed_def)
qed

lemma gone_laws: "stream_laws (gone s)"
proof
qed (auto simp: gone_def already_same_core read_take_destroyed already_destroyed_def [of "bare_stream"]
    intro: step_stays_gone, auto simp: already_destroyed_def)

interpretation gone_first: stream_laws "gone 0"
  by (rule gone_laws)

lemma gone_client: "stream_client (gone s) (rt_fuel U n)"
  by (simp add: stream_client_def stream_client_axioms_def gone_laws calls_respect_fuel)

text \<open>\<open>destroy\<close> leaves a stream destroyed, however it ends.\<close>

lemma destroy_marks:
  assumes free: "wi (\<lambda>_ _. True) w" and side: "has_r (heap w s) \<or> has_w (heap w s)"
  shows "wi (gone s) (snd (destroy (rt_fuel U n) s e w))"
proof -
  let ?R = "rt_fuel U n"
  define w1 where "w1 = w\<lparr>heap := (heap w)(s := snd (destroy_begin e (heap w s)))\<rparr>"
  have "already_destroyed (heap w1 s)"
    using side by (auto simp: w1_def destroy_begin_def already_destroyed_def destroy_r_def destroy_w_def)
  then have w1: "wi (gone s) w1"
    using free by (auto simp: wi_def gone_def w1_def)
  have w: "destroy ?R s e w = (if fst (destroy_begin e (heap w s)) then js_ret ()
      else js_seq (js_bind (get_obj s has_w) (\<lambda>b. js_when b (fail_writes ?R s e))) (call_destroy_hook ?R s e)) w1"
    by (simp add: destroy_def js_bind_def step_obj_def js_step_def w1_def)
  have "pres_at (wi (gone s)) (js_when (has_w (heap w1 s)) (fail_writes ?R s e)) w1"
    if "\<not> fst (destroy_begin e (heap w s))"
    using stream_client.destroy_begin_False [OF gone_client that]
    by (auto simp: js_when_def preserves_at preserves_ret w1_def intro!: stream_client.clear_after_failing [OF gone_client])
  then have "pres_at (wi (gone s)) (if fst (destroy_begin e (heap w s)) then js_ret ()
      else js_seq (js_bind (get_obj s has_w) (\<lambda>b. js_when b (fail_writes ?R s e))) (call_destroy_hook ?R s e)) w1"
    by (auto simp: preserves_at preserves_ret intro!: pres_at_seq preserves_at [OF stream_client.pres_call_destroy_hook [OF gone_client]])
  then show ?thesis
    using w w1 by (simp add: pres_at_def)
qed

lemma any_client: "stream_client (\<lambda>_ _. True) (rt_fuel U n)"
  by (simp add: stream_client_def stream_client_axioms_def calls_respect_fuel) (unfold_locales, auto)

lemma reachable_free: "reachable U w \<Longrightarrow> wi (\<lambda>_ _. True) w"
proof (induction rule: reachable.induct)
  case start
  show ?case by (simp add: wi_def start_world_def bare_stream_def)
next
  case (next_step w w')
  have "stream_laws (\<lambda>_ _. True)" by unfold_locales auto
  then show ?case using wi_step next_step by blast
qed

lemma gone_free: "wi (gone s) w \<Longrightarrow> wi (\<lambda>_ _. True) w"
  by (simp add: wi_def)






section \<open>Destruction that returns\<close>

text \<open>A function that does nothing any more when the pipeline \<open>b\<close> is marked as completed.\<close>

definition harmless :: "outside \<Rightarrow> nat \<Rightarrow> val \<Rightarrow> closure \<Rightarrow> bool" where
  "harmless U b t c \<longleftrightarrow> (\<forall>n a w. truthy (vars w (b + 2)) \<longrightarrow> (\<exists>v. call_fuel U (Suc n) c t a w = (Return v, w)))"

text \<open>The listeners that the pipeline itself registers are of this kind.\<close>

lemma pipeline_listeners_harmless:
  assumes "lib_at U b"
  shows "harmless U b t (User (b + 2))" "harmless U b (VStream s) (User (b + 4))"
proof -
  have "call_fuel U (Suc n) (User (b + 2)) t a w = (Return VUndef, w)" if "truthy (vars w (b + 2))" for n a w
    using lib_call [OF assms, of 2 n t a] that by (simp add: lib_fun_def pipeline_fail_def js_ret_def)
  then show "harmless U b t (User (b + 2))"
    unfolding harmless_def by blast
  have "\<exists>v. run_program R (dest_closed b s) w = (Return v, w)" if "truthy (vars w (b + 2))" for R w
    using that by (auto simp: dest_closed_def pipeline_fail_def get_obj_def js_get_def js_ret_def)
  then show "harmless U b (VStream s) (User (b + 4))"
    using lib_call [OF assms, of 4] by (auto simp: harmless_def lib_fun_def as_stream_def arg_def)
qed













text \<open>The listener that \<open>addAbortSignal\<close> registers.\<close>

lemma abort_destroys:
  assumes "reachable U w" and "has_r (heap w s) \<or> has_w (heap w s)" and "vars w (b + 10) = VStream s"
  shows "already_destroyed (heap (snd (run_program (rt_fuel U n) (lib_fun b 10 a) w)) s)"
proof -
  obtain r w' where d: "destroy (rt_fuel U n) s (abort_error (vars w (b + 11))) w = (r, w')" by force
  have "wi (gone s) w'"
    using destroy_marks [OF reachable_free [OF assms(1)] assms(2)] d by (metis snd_conv)
  moreover have "heap (snd (run_program (rt_fuel U n) (lib_fun b 10 a) w)) = heap w'"
    using d assms(3) by (cases r) (simp_all add: lib_fun_def with_stream_def as_stream_def on_abort_def do_api_def
        js_val_def js_bind_def js_ret_def js_throw_def)
  ultimately show ?thesis by (simp add: wi_def gone_def)
qed

section \<open>Properties\<close>

text \<open>C17: \<open>Readable.from\<close> delivers an array exactly, if none of its elements is null, undefined or of length zero. (With such an
  element it does not: a null ends the stream, and the others are dropped.) A program that makes a stream of the array and listens to its data and
  its end schedules the task that flows; that task returns, with fuel linear in the length of the array; and by then the
  listener of \<open>data\<close> was called with each element, in order and once, and after that the listener of \<open>end\<close> once. What they were
  given is seen in a variable of the program, which they may use in any way.\<close>

theorem readable_from_delivers:
  assumes "lib_at U b" and "\<forall>v\<in>set vs. v \<noteq> VNull \<and> v \<noteq> VUndef \<and> val_len v \<noteq> Some 0"
    and "keeper U l k f" and "keeper U m k g" and "free_var b k"
  shows "\<exists>w1 w2. run_program R (listen_to_all b it vs l m) w = (Return (VStream (next_stream w)), w1) \<and>
    ticks w1 = ticks w @ [TickFlow (next_stream w)] \<and>
    call_fuel U (2 * length vs + 3 + n) (TickFlow (next_stream w)) VUndef [] w1 = (Return VUndef, w2) \<and>
    vars w2 k = g (fold (\<lambda>v x. f x [v]) vs (vars w k)) [] \<and>
    history (heap w2 (next_stream w)) = concat (map (\<lambda>v. [Pushed v, Delivered v]) vs) @ [EmitEnd]"
proof -
  let ?s = "next_stream w"
  have solid: "list_all solid vs"
    using assms(2) by (simp add: list_all_iff solid_def nullish_def)
  obtain w1 where w1: "run_program R (listen_to_all b it vs l m) w = (Return (VStream ?s), w1)"
    "ticks w1 = ticks w @ [TickFlow ?s]" "from_state U b k [f] [g] ?s [] vs w1" "history (heap w1 ?s) = []" "vars w1 k = vars w k"
    using listen_all_run [OF assms(3-5)] by blast
  define w1' where "w1' = w1\<lparr>heap := (heap w1)(?s := (heap w1 ?s)\<lparr>rstate := (rstate (heap w1 ?s))\<lparr>r_flowScheduled := False\<rparr>\<rparr>)\<rparr>"
  have "from_state U b k [f] [g] ?s [] vs w1'" "history (heap w1' ?s) = []" "vars w1' k = vars w k"
    using w1(3-5) by (simp_all add: from_state_def w1'_def Let_def)
  then obtain w2 where w2: "flow (rt_fuel U (2 * length vs + 2 + n)) ?s w1' = (Return (), w2)"
    "history (heap w2 ?s) = concat (map (\<lambda>v. [Pushed v, Delivered v]) vs) @ [EmitEnd]" "vars w2 k = heard [f] [g] vs (vars w k)"
    using flow_from [OF assms(1) solid, where s = "next_stream w" and w = w1' and n = n] by fastforce
  then have "call_fuel U (2 * length vs + 3 + n) (TickFlow ?s) VUndef [] w1 = (Return VUndef, w2)"
    by (simp add: call_fuel.simps numeral_eq_Suc tick_flow_def js_val_def js_defs mod_r_def mod_obj_def w1'_def rt_fuel_def)
  moreover have "heard [f] [g] vs (vars w k) = g (fold (\<lambda>v x. f x [v]) vs (vars w k)) []"
    by (simp add: heard_def)
  ultimately show ?thesis using w1 w2 by auto
qed

definition plain_lib :: "nat \<Rightarrow> outside" where
  "plain_lib b = latin1 (with_lib b (\<lambda>n a. Finish VUndef))"

lemma plain_lib_at: "lib_at (plain_lib b) b"
  by (rule lib_at_with) (simp add: plain_lib_def latin1_def)

lemma plain_observer: "n < b \<Longrightarrow> observer (plain_lib b) (User n)"
  by (simp add: observer_def call_fuel.simps plain_lib_def latin1_def with_lib_def js_ret_def)

text \<open>A program whose functions append their arguments to a variable.\<close>

definition noting_lib :: outside where
  "noting_lib = latin1 (with_lib 20 (\<lambda>n a. get_var 0 (\<lambda>v. set_var 0 (VArr ((case v of VArr xs \<Rightarrow> xs | _ \<Rightarrow> []) @ tl a)) (Finish VUndef))))"

lemma noting_keeper: "i < 20 \<Longrightarrow> keeper noting_lib (User i) 0 (\<lambda>x a. VArr ((case x of VArr xs \<Rightarrow> xs | _ \<Rightarrow> []) @ a))"
  by (simp add: keeper_def watcher_def keep_in_def call_fuel.simps noting_lib_def latin1_def with_lib_def js_ret_def)

theorem readable_from_delivers_witness:
  "\<exists>w1 w2. run_program (rt_fuel noting_lib 0) (listen_to_all 20 (\<lambda>_. NotIterable) [VStr ''a'', VNum (Fin 0)] (User 0) (User 1)) start_world =
      (Return (VStream 0), w1) \<and>
    call_fuel noting_lib 7 (TickFlow 0) VUndef [] w1 = (Return VUndef, w2) \<and> vars w2 0 = VArr [VStr ''a'', VNum (Fin 0)]"
proof -
  have "lib_at noting_lib 20"
    by (rule lib_at_with) (simp add: noting_lib_def latin1_def)
  then show ?thesis
    using readable_from_delivers [OF _ _ noting_keeper [of 0] noting_keeper [of 1], of 20 "[VStr ''a'', VNum (Fin 0)]"
        "rt_fuel noting_lib 0" "\<lambda>_. NotIterable" start_world 0]
    by (auto simp: start_world_def free_var_def)
qed

text \<open>C39: \<open>Readable.from\<close> stalls on an empty first element. If the first element of the array has the length zero,
  as an empty string, \<open>push\<close> drops it and nothing asks for the next one: the task queue runs empty with nothing
  delivered, no \<open>end\<close> and no error, and the other elements are never read.\<close>

theorem readable_from_stalls:
  assumes "lib_at U b" and "observer U l" and "ticks w = []" and "\<not> nullish v" and "val_len v = Some 0"
  shows "\<exists>w'. run_main U (n + 4) (Suc k) (listen_to_array b it (v # vs) l) w = w' \<and> ticks w' = [] \<and>
    history (heap w' (next_stream w)) = [] \<and> \<not> r_ended (rstate (heap w' (next_stream w))) \<and>
    \<not> r_destroyed (rstate (heap w' (next_stream w))) \<and> vars w' (b + 9) = VArr vs \<and> uncaught w' = uncaught w"
proof (intro exI conjI, rule refl)
  let ?s = "next_stream w"
  obtain w1 where w1: "run_program (rt_fuel U (n + 4)) (listen_to_array b it (v # vs) l) w = (Return (VStream ?s), w1)"
    "ticks w1 = [TickFlow ?s]" "from_state U b b [\<lambda>x a. x] [] ?s [] (v # vs) w1" "history (heap w1 ?s) = []" "uncaught w1 = uncaught w"
    using listen_run [OF assms(2), of "rt_fuel U (n + 4)" b it "v # vs" w] assms(3) by auto
  define w2 where "w2 = w1\<lparr>ticks := [], heap := (heap w1)(?s := (heap w1 ?s)\<lparr>rstate := (rstate (heap w1 ?s))\<lparr>r_flowScheduled := False\<rparr>\<rparr>)\<rparr>"
  have w2: "from_state U b b [\<lambda>x a. x] [] ?s [] (v # vs) w2" "history (heap w2 ?s) = []" "ticks w2 = []" "uncaught w2 = uncaught w"
    using w1 by (simp_all add: from_state_def w2_def Let_def)
  obtain w3 where w3: "maybeRead (rt_fuel U (n + 3)) ?s w2 = (Return (), w3)" "from_state U b b [\<lambda>x a. x] [] ?s [] vs w3"
    "history (heap w3 ?s) = []" "ticks w3 = []" "uncaught w3 = uncaught w"
    using read_empty [OF assms(1) w2(1) assms(4,5), of "Suc n"] w2 by (auto simp: numeral_eq_Suc)
  then have "flow (rt_fuel U (n + 3)) ?s w2 = (Return (), w3)"
    using w2(1) by (simp add: flow_def get_obj_def js_defs from_state_def Let_def)
  then have "call_fuel U (n + 4) (TickFlow ?s) VUndef [] (w1\<lparr>ticks := []\<rparr>) = (Return VUndef, w3)"
    by (simp add: call_fuel.simps numeral_eq_Suc tick_flow_def js_val_def js_defs mod_r_def mod_obj_def w2_def rt_fuel_def)
  then have "run_main U (n + 4) (Suc k) (listen_to_array b it (v # vs) l) w = run_ticks U (n + 4) k w3"
    using w1 by (simp add: run_main_def report_def run_tick_def)
  moreover have "run_ticks U (n + 4) k w3 = w3"
    using w3(4) by (cases k) simp_all
  ultimately have e: "run_main U (n + 4) (Suc k) (listen_to_array b it (v # vs) l) w = w3"
    by simp
  show "ticks (run_main U (n + 4) (Suc k) (listen_to_array b it (v # vs) l) w) = []"
    "history (heap (run_main U (n + 4) (Suc k) (listen_to_array b it (v # vs) l) w) ?s) = []"
    "\<not> r_ended (rstate (heap (run_main U (n + 4) (Suc k) (listen_to_array b it (v # vs) l) w) ?s))"
    "\<not> r_destroyed (rstate (heap (run_main U (n + 4) (Suc k) (listen_to_array b it (v # vs) l) w) ?s))"
    "vars (run_main U (n + 4) (Suc k) (listen_to_array b it (v # vs) l) w) (b + 9) = VArr vs"
    "uncaught (run_main U (n + 4) (Suc k) (listen_to_array b it (v # vs) l) w) = uncaught w"
    using w3 unfolding e by (simp_all add: from_state_def Let_def)
qed

theorem readable_from_stalls_witness:
  "\<exists>w'. run_main (plain_lib 20) 4 1 (listen_to_array 20 (\<lambda>_. NotIterable) [VStr [], VStr ''a''] (User 0)) start_world = w' \<and>
    ticks w' = [] \<and> history (heap w' 0) = [] \<and> \<not> r_ended (rstate (heap w' 0)) \<and> vars w' 29 = VArr [VStr ''a'']"
  using readable_from_stalls [OF plain_lib_at [of 20] plain_observer [of 0 20], of start_world "VStr []" 0 0 "\<lambda>_. NotIterable" "[VStr ''a'']"]
  by (simp add: start_world_def nullish_def)

lemmas pipeline_eval = pipeline_def pipeline_run_def pipeline_source_def pipeline_connect_def flatten_args_def
  readable_from_def elements_of_def from_iterator_def from_options_def watch_dest_def
  watch_side_def mark_dest_done_def pipeline_succeed_def pipeline_fail_def settle_promise_def dest_closed_def
  with_lib_def lib_fun_def array_next_def from_read_def from_result_def result_done_def result_value_def from_fail_def
  readableEnded_def writableFinished_def premature_def errored_of_def is_writable_def is_readable_side_def

lemma run_pieces [simp]:
  "run_program R (do_api a p) w = run_do R (run_api R a w) (\<lambda>_. p) Raise"
  "as_stream (VStream s) k = k s"
  by (simp_all add: do_api_def run_do_def as_stream_def)

text \<open>The rest of a program is not simplified before it runs.\<close>

lemma program_cong:
  "Do a k h = Do a k h" "set_var i v p = set_var i v p" "get_var i k = get_var i k" "query s f k1 = query s f k1"
  "do_api a p = do_api a p" "v = v' \<Longrightarrow> as_stream v k2 = as_stream v' k2"
  by simp_all

text \<open>An outside with the library, a \<open>_write\<close> that reports an error (function 0) and one that succeeds (1), and a
  callback that keeps its arguments (2).\<close>

definition call_arg :: "nat \<Rightarrow> val list \<Rightarrow> val list \<Rightarrow> program" where
  "call_arg i a args = (case arg i a of VFun c \<Rightarrow> Do (Call c VUndef args) Finish Raise | _ \<Rightarrow> Finish VUndef)"

definition some_sinks :: outside where
  "some_sinks = latin1 (with_lib 20 (\<lambda>n a.
     if n = 0 then call_arg 3 a [VErr Error ''full''] else if n = 1 then call_arg 3 a []
     else if n = 2 then do_api (SetVar 0 (VArr (tl a))) (Finish VUndef) else Finish VUndef))"

definition summary :: "world \<Rightarrow> val \<times> val \<times> bool list \<times> bool \<times> closure list \<times> val list \<times> obs list" where
  "summary w = (vars w 0, vars w 23, map (\<lambda>s. is_destroyed (heap w s)) [0, 1], has_r (heap w 1), ticks w, uncaught w, history (heap w 1))"





definition failed_pipeline :: world where
  "failed_pipeline = run_main some_sinks 20 20 (Do (NewWritable (no_options\<lparr>o_write := Some (User 0)\<rparr>)) (\<lambda>v.
     pipeline 20 (\<lambda>_. NotIterable) [VArr [VArr [VBuf [1], VBuf [2]], v], VFun (User 2)]) Raise) start_world"

lemma failed_summary:
  "summary failed_pipeline = (VArr [VErr Error ''full''], VArr [VBool False, VErr Error ''full''], [True, False], True, [], [],
     [Pushed (VBuf [1]), Delivered (VBuf [1])])"
  by (simp add: summary_def failed_pipeline_def some_sinks_def call_arg_def latin1_def js_eval pipeline_eval cong: run_cong program_cong)

text \<open>C40: A pipeline that makes its own source stream does not destroy it. When the destination of a pipeline from
  an array fails, the promise is rejected and the callback gets the error, but the stream made by
  \<open>Readable.from\<close> is not in the list that the handler destroys: no task is left, and the source stays open.\<close>

theorem pipeline_leaks_source:
  "\<exists>w. reachable some_sinks w \<and> vars w 23 = VArr [VBool False, VErr Error ''full''] \<and> vars w 0 = VArr [VErr Error ''full''] \<and>
     is_destroyed (heap w 0) \<and> \<not> is_destroyed (heap w 1) \<and> has_r (heap w 1) \<and>
     history (heap w 1) = [Pushed (VBuf [1]), Delivered (VBuf [1])] \<and> ticks w = [] \<and> uncaught w = []"
proof (intro exI conjI)
  show "reachable some_sinks failed_pipeline"
    unfolding failed_pipeline_def by (rule reachable_first)
qed (use failed_summary in \<open>simp_all add: summary_def\<close>)

end
