(* ===== verification/Http_Client.thy ===== *)
theory Http_Client
  imports Web_Fetch
begin

text \<open>
  The HTTP client \<open>ClientRequest\<close> (\<open>src/pkg/jsruntime/http/client.js\<close>), which is built on \<open>fetch\<close>, \<open>Headers\<close>,
  \<open>Blob\<close> and \<open>AbortController\<close>; the first three are those of the other theories.

  The state of a request is a record. What it emits is the list \<open>rq_events\<close>, the events of the incoming message
  among them; its listeners look on, but whether there is one for \<open>error\<close> matters, since \<open>emit\<close> throws without.
  The promises of \<open>fetch\<close> and the timers that are pending are lists; each settles or fires in a step of its own.
  Exceptions and reasons are strings, as in \<open>Web_Fetch\<close>.
\<close>

section \<open>Agents\<close>

record agent =
  keepAlive :: bool
  maxSockets :: jsnum

text \<open>\<open>options.maxSockets || Infinity\<close>.\<close>

definition new_Agent :: "bool \<Rightarrow> jsnum option \<Rightarrow> agent" where
  "new_Agent ka ms = \<lparr>keepAlive = ka,
     maxSockets = (case ms of None \<Rightarrow> PInf | Some n \<Rightarrow> if n = Fin 0 \<or> n = NaN then PInf else n)\<rparr>"

definition agent_destroy :: "string + unit" where
  "agent_destroy = Inl ''http.Agent.destroy is not supported by jsruntime; no connection pool''"

section \<open>The state\<close>

datatype http_event = Response int string "(string \<times> string) list" "string list" | Data bytes | End | MessageClose
  | ErrorEvent string | Close | AbortEvent | Timeout

datatype flight = Failing string | Flying request

datatype timer = Deliver bytes | Rethrow string | EmitTimeout

record creq =
  rq_method :: string
  rq_url :: string
  rq_headers :: headers
  rq_chunks :: "body_init list"
  rq_signal :: nat
  rq_aborted :: "string option"
  rq_destroyed :: bool
  rq_finished :: bool
  rq_hears_error :: bool
  rq_sent :: "native_request list"
  rq_flights :: "flight list"
  rq_timers :: "timer list"
  rq_events :: "http_event list"
  rq_uncaught :: "string list"

record client_options =
  co_method :: "string option"
  co_headers :: headers_init
  co_protocol :: "string option"
  co_hostname :: "string option"
  co_host :: "string option"
  co_port :: "string option"
  co_path :: "string option"

text \<open>\<open>a || d\<close> of an optional string.\<close>

definition string_or :: "string option \<Rightarrow> string \<Rightarrow> string" where
  "string_or a d = (case a of Some s \<Rightarrow> (if s = [] then d else s) | None \<Rightarrow> d)"

definition option_url :: "client_options \<Rightarrow> string" where
  "option_url c = string_or (co_protocol c) ''http:'' @ ''//'' @
     string_or (co_hostname c) (string_or (co_host c) ''localhost'') @
     (case co_port c of Some p \<Rightarrow> (if p = [] then [] else '':'' @ p) | None \<Rightarrow> []) @ string_or (co_path c) ''/''"

text \<open>The constructor: \<open>input\<close> is the text of an address, or \<open>None\<close> when the options were given instead; \<open>sig\<close> is
  the number of the signal of the new controller. \<open>None\<close> is the \<open>TypeError\<close> of \<open>new Headers\<close>.\<close>

definition new_ClientRequest :: "nat \<Rightarrow> string option \<Rightarrow> client_options \<Rightarrow> creq option" where
  "new_ClientRequest sig input c = (case headers_new (co_headers c) of
       None \<Rightarrow> None
     | Some h \<Rightarrow> Some \<lparr>rq_method = to_upper (string_or (co_method c) ''GET''),
         rq_url = (case input of None \<Rightarrow> option_url c | Some u \<Rightarrow> u), rq_headers = h, rq_chunks = [], rq_signal = sig,
         rq_aborted = None, rq_destroyed = False, rq_finished = False, rq_hears_error = False, rq_sent = [],
         rq_flights = [], rq_timers = [], rq_events = [], rq_uncaught = []\<rparr>)"

section \<open>Headers\<close>

definition setHeader :: "string \<Rightarrow> string \<Rightarrow> creq \<Rightarrow> creq option" where
  "setHeader n v q = map_option (\<lambda>h. q\<lparr>rq_headers := h\<rparr>) (headers_set n v (rq_headers q))"

definition getHeader :: "string \<Rightarrow> creq \<Rightarrow> string option option" where
  "getHeader n q = headers_get n (rq_headers q)"

definition getHeaders :: "creq \<Rightarrow> (string \<times> string) list" where
  "getHeaders q = sortedHeaderEntries (rq_headers q)"

definition getHeaderNames :: "creq \<Rightarrow> string list" where
  "getHeaderNames q = map fst (sortedHeaderEntries (rq_headers q))"

definition hasHeader :: "string \<Rightarrow> creq \<Rightarrow> bool option" where
  "hasHeader n q = headers_has n (rq_headers q)"

definition removeHeader :: "string \<Rightarrow> creq \<Rightarrow> creq option" where
  "removeHeader n q = map_option (\<lambda>h. q\<lparr>rq_headers := h\<rparr>) (headers_delete n (rq_headers q))"

section \<open>Writing and sending\<close>

definition emit_http :: "http_event \<Rightarrow> creq \<Rightarrow> creq" where
  "emit_http ev q = q\<lparr>rq_events := rq_events q @ [ev]\<rparr>"

text \<open>\<open>emitRequestError\<close>: without a listener, what \<open>emit\<close> throws is thrown again from a timer.\<close>

definition emitRequestError :: "string \<Rightarrow> creq \<Rightarrow> creq" where
  "emitRequestError e q = (if rq_hears_error q then emit_http (ErrorEvent e) q else q\<lparr>rq_timers := rq_timers q @ [Rethrow e]\<rparr>)"

definition client_write :: "body_init \<Rightarrow> creq \<Rightarrow> bool \<times> creq" where
  "client_write chunk q = (True, q\<lparr>rq_chunks := rq_chunks q @ [chunk]\<rparr>)"

definition signal_state :: "creq \<Rightarrow> nat \<Rightarrow> string option" where
  "signal_state q n = (if n = rq_signal q then rq_aborted q else None)"

definition client_init :: "natives \<Rightarrow> creq \<Rightarrow> request_init" where
  "client_init N q = no_init\<lparr>i_method := Some (rq_method q), i_headers := Some (FromHeaders (rq_headers q)),
     i_body := (if rq_chunks q \<noteq> [] then Some (BBlob (new_Blob N (rq_chunks q) None)) else None),
     i_signal := Some (Signal (rq_signal q))\<rparr>"

text \<open>\<open>end\<close>: the argument is the last chunk, \<open>None\<close> for none.\<close>

definition client_end :: "natives \<Rightarrow> body_init option \<Rightarrow> creq \<Rightarrow> creq" where
  "client_end N chunk q =
     (let q1 = (case chunk of None \<Rightarrow> q | Some c \<Rightarrow> q\<lparr>rq_chunks := rq_chunks q @ [c]\<rparr>);
          q2 = q1\<lparr>rq_finished := True\<rparr>
      in case fst (fetch N (signal_state q2) (rq_signal q2) (Url (rq_url q2)) (client_init N q2)) of
           Rejected e \<Rightarrow> q2\<lparr>rq_flights := rq_flights q2 @ [Failing e]\<rparr>
         | Sent r n \<Rightarrow> q2\<lparr>rq_sent := rq_sent q2 @ [n], rq_flights := rq_flights q2 @ [Flying r]\<rparr>)"

section \<open>Answers\<close>

text \<open>The first reaction of the promise: the message, then its body in a timer.\<close>

definition client_on_response :: "response \<Rightarrow> creq \<Rightarrow> creq" where
  "client_on_response p q = (let hs = sortedHeaderEntries (p_headers p);
       q1 = emit_http (Response (p_status p) (p_statusText p) hs (concat (map (\<lambda>(n, v). [n, v]) hs))) q
     in q1\<lparr>rq_timers := rq_timers q1 @ [Deliver (bodyBuffer (p_body p))]\<rparr>)"

definition client_on_failure :: "string \<Rightarrow> creq \<Rightarrow> creq" where
  "client_on_failure e q = emit_http Close (emitRequestError e q)"

text \<open>A promise settles: \<open>result\<close> is what the native side says of a request that was sent.\<close>

definition settle_flight :: "natives \<Rightarrow> flight \<Rightarrow> string + raw_response \<Rightarrow> creq \<Rightarrow> creq" where
  "settle_flight N f result q = (case f of
       Failing e \<Rightarrow> client_on_failure e q
     | Flying r \<Rightarrow> (case fetch_settled N (signal_state q) r result of
         Inl e \<Rightarrow> client_on_failure e q
       | Inr p \<Rightarrow> client_on_response p q))"

definition run_timer :: "timer \<Rightarrow> creq \<Rightarrow> creq" where
  "run_timer t q = (case t of
       Deliver bs \<Rightarrow> emit_http Close (emit_http MessageClose (emit_http End (if bs \<noteq> [] then emit_http (Data bs) q else q)))
     | Rethrow e \<Rightarrow> q\<lparr>rq_uncaught := rq_uncaught q @ [e]\<rparr>
     | EmitTimeout \<Rightarrow> emit_http Timeout q)"

section \<open>Ending early\<close>

text \<open>The controller: the first abort counts, and without a reason it is an \<open>AbortError\<close>.\<close>

definition abort_request :: "string option \<Rightarrow> creq \<Rightarrow> creq" where
  "abort_request reason q = (case rq_aborted q of
       Some _ \<Rightarrow> q
     | None \<Rightarrow> q\<lparr>rq_aborted := Some (case reason of Some r \<Rightarrow> r | None \<Rightarrow> ''This operation was aborted'')\<rparr>)"

definition client_abort :: "creq \<Rightarrow> creq" where
  "client_abort q = emit_http AbortEvent (abort_request None (q\<lparr>rq_destroyed := True\<rparr>))"

definition client_destroy :: "string option \<Rightarrow> creq \<Rightarrow> creq" where
  "client_destroy err q = (let q1 = abort_request err (q\<lparr>rq_destroyed := True\<rparr>) in
     emit_http Close (case err of Some e \<Rightarrow> emitRequestError e q1 | None \<Rightarrow> q1))"

definition client_setTimeout :: "creq \<Rightarrow> creq" where
  "client_setTimeout q = q\<lparr>rq_timers := rq_timers q @ [EmitTimeout]\<rparr>"

text \<open>What is not supported throws.\<close>

definition flushHeaders :: "string + creq" where
  "flushHeaders = Inl ''http.ClientRequest.flushHeaders is not supported by jsruntime; headers are buffered until end()''"

definition setNoDelay :: "string + creq" where
  "setNoDelay = Inl ''http.ClientRequest.setNoDelay is not supported by jsruntime''"

section \<open>Programs\<close>

text \<open>What can happen to a request: calls of the program, and promises and timers in any order.\<close>

definition remove_at :: "nat \<Rightarrow> 'a list \<Rightarrow> 'a list" where
  "remove_at i xs = take i xs @ drop (Suc i) xs"

datatype http_action = CWrite body_init | CEnd "body_init option" | CAbort | CDestroy "string option" | CListen | CSetTimeout
  | CSetHeader string string | CRemoveHeader string | CSettle nat "string + raw_response" | CTimer nat

definition keep :: "creq \<Rightarrow> creq option \<Rightarrow> creq" where
  "keep q r = (case r of None \<Rightarrow> q | Some q' \<Rightarrow> q')"

fun http_act :: "natives \<Rightarrow> http_action \<Rightarrow> creq \<Rightarrow> creq" where
  "http_act N (CWrite c) q = snd (client_write c q)"
| "http_act N (CEnd c) q = client_end N c q"
| "http_act N CAbort q = client_abort q"
| "http_act N (CDestroy e) q = client_destroy e q"
| "http_act N CListen q = q\<lparr>rq_hears_error := True\<rparr>"
| "http_act N CSetTimeout q = client_setTimeout q"
| "http_act N (CSetHeader n v) q = keep q (setHeader n v q)"
| "http_act N (CRemoveHeader n) q = keep q (removeHeader n q)"
| "http_act N (CSettle i result) q = (if i < length (rq_flights q)
     then settle_flight N (rq_flights q ! i) result (q\<lparr>rq_flights := remove_at i (rq_flights q)\<rparr>) else q)"
| "http_act N (CTimer i) q = (if i < length (rq_timers q)
     then run_timer (rq_timers q ! i) (q\<lparr>rq_timers := remove_at i (rq_timers q)\<rparr>) else q)"

text \<open>\<open>request\<close> and \<open>get\<close>.\<close>

definition http_request :: "nat \<Rightarrow> string option \<Rightarrow> client_options \<Rightarrow> creq option" where
  "http_request sig input c = new_ClientRequest sig input c"

definition http_get :: "natives \<Rightarrow> nat \<Rightarrow> string option \<Rightarrow> client_options \<Rightarrow> creq option" where
  "http_get N sig input c = map_option (client_end N None) (http_request sig input c)"

definition http_run :: "natives \<Rightarrow> http_action list \<Rightarrow> creq \<Rightarrow> creq" where
  "http_run N acts q = fold (http_act N) acts q"

section \<open>What is sent\<close>

lemma writes_collect:
  "http_run N (map CWrite cs) q = q\<lparr>rq_chunks := rq_chunks q @ cs\<rparr>"
  by (induction cs arbitrary: q) (simp_all add: http_run_def client_write_def)

definition client_body :: "natives \<Rightarrow> creq \<Rightarrow> body_init" where
  "client_body N q = (if rq_chunks q \<noteq> [] then BBlob (new_Blob N (rq_chunks q) None) else NoBody)"

lemma client_body_bytes: "body_toBuffer N (client_body N q) = concat (map (body_toBuffer N) (rq_chunks q))"
  by (simp add: client_body_def body_toBuffer_def new_Blob_def)

lemma client_request:
  assumes "normalizeMethod (rq_method q) = Inr m"
  shows "new_Request N f (Url u) (client_init N q) =
    request_body N (client_body N q) (request_fields f (Url u) (client_init N q) m (rq_headers q) (rq_signal q))"
  using assms by (simp add: new_Request_def client_init_def no_init_def pick_def request_fields_def redirect_modes_def client_body_def)

lemma client_request_body:
  assumes "m \<in> {''GET'', ''HEAD''} \<Longrightarrow> concat (map (body_toBuffer N) (rq_chunks q)) = []" and "q_method r = m" and "q_headers r = rq_headers q"
  shows "\<exists>r'. request_body N (client_body N q) r = Inr r' \<and> r' = r\<lparr>q_headers := rq_headers q, q_body := q_body r'\<rparr> \<and>
    bodyBuffer (q_body r') = concat (map (body_toBuffer N) (rq_chunks q))"
proof -
  have "prepare_body N (client_body N q) h = (client_body N q, Some h)" for h
    by (simp add: prepare_body_def client_body_def new_Blob_def blob_type_of_def)
  moreover have "\<not> (q_method r \<in> {''GET'', ''HEAD''} \<and> client_body N q \<noteq> NoBody \<and> body_toBuffer N (client_body N q) \<noteq> [])"
    using assms(1,2) client_body_bytes by metis
  ultimately show ?thesis
    using assms(3) client_body_bytes [of N q]
    by (simp add: request_body_def initBody_def client_body_def split: if_splits)
qed

lemma client_end_sends:
  assumes "normalizeMethod (rq_method q) = Inr m" and "rq_aborted q = None"
    and "m \<in> {''GET'', ''HEAD''} \<Longrightarrow> concat (map (body_toBuffer N) (rq_chunks q)) = []"
  shows "\<exists>r. client_end N None q = q\<lparr>rq_finished := True, rq_sent := rq_sent q @ [\<lparr>n_method = m, n_url = rq_url q,
      n_headers = sortedHeaderEntries (rq_headers q), n_body = concat (map (body_toBuffer N) (rq_chunks q)),
      n_signalId = rq_signal q, n_redirect = ''follow''\<rparr>], rq_flights := rq_flights q @ [Flying r]\<rparr> \<and> q_signal r = rq_signal q"
proof -
  define q2 where "q2 = q\<lparr>rq_finished := True\<rparr>"
  define r where "r = request_fields (rq_signal q2) (Url (rq_url q2)) (client_init N q2) m (rq_headers q2) (rq_signal q2)"
  have r: "q_method r = m" "q_headers r = rq_headers q2" "q_url r = rq_url q2" "q_signal r = rq_signal q2" "q_redirect r = ''follow''"
    by (simp_all add: r_def request_fields_def client_init_def no_init_def pick_def)
  obtain r' where r': "request_body N (client_body N q2) r = Inr r'" "r' = r\<lparr>q_headers := rq_headers q2, q_body := q_body r'\<rparr>"
    "bodyBuffer (q_body r') = concat (map (body_toBuffer N) (rq_chunks q2))"
    using client_request_body [of m N q2 r] assms(3) r by (auto simp: q2_def)
  have f: "q_method r' = m" "q_headers r' = rq_headers q2" "q_url r' = rq_url q2" "q_signal r' = rq_signal q2" "q_redirect r' = ''follow''"
    using r arg_cong [OF r'(2), of q_method] arg_cong [OF r'(2), of q_headers] arg_cong [OF r'(2), of q_url]
      arg_cong [OF r'(2), of q_signal] arg_cong [OF r'(2), of q_redirect] by simp_all
  have "new_Request N (rq_signal q2) (Url (rq_url q2)) (client_init N q2) = Inr r'"
    using client_request [of q2 m] assms(1) r'(1) by (simp add: q2_def r_def)
  moreover have "signal_state q2 (q_signal r') = None"
    using f(4) assms(2) by (simp add: signal_state_def q2_def)
  ultimately have "fst (fetch N (signal_state q2) (rq_signal q2) (Url (rq_url q2)) (client_init N q2)) = Sent r' (nativeRequest r')"
    by (simp add: fetch_def)
  then show ?thesis
    using f r'(3) by (intro exI [of _ r']) (simp add: client_end_def Let_def flip: q2_def, simp add: nativeRequest_def q2_def)
qed

lemma client_end_refuses:
  assumes "normalizeMethod (rq_method q) = Inl e \<or> (\<exists>m. normalizeMethod (rq_method q) = Inr m \<and> m \<in> {''GET'', ''HEAD''} \<and>
    concat (map (body_toBuffer N) (rq_chunks q)) \<noteq> [] \<and> e = ''GET and HEAD requests cannot have a body'')"
  shows "client_end N None q = q\<lparr>rq_finished := True, rq_flights := rq_flights q @ [Failing e]\<rparr>"
proof -
  define q2 where "q2 = q\<lparr>rq_finished := True\<rparr>"
  have "new_Request N (rq_signal q2) (Url (rq_url q2)) (client_init N q2) = Inl e"
    using assms
  proof (elim disjE exE conjE)
    fix m
    assume m: "normalizeMethod (rq_method q) = Inr m" "m \<in> {''GET'', ''HEAD''}" "concat (map (body_toBuffer N) (rq_chunks q)) \<noteq> []"
      "e = ''GET and HEAD requests cannot have a body''"
    then have "client_body N q2 \<noteq> NoBody" "body_toBuffer N (client_body N q2) \<noteq> []"
      using client_body_bytes [of N q2] by (auto simp: client_body_def q2_def)
    then show ?thesis
      using m client_request [of q2 m] by (simp add: q2_def request_body_def request_fields_def)
  qed (simp add: q2_def new_Request_def client_init_def no_init_def pick_def)
  then have "fst (fetch N (signal_state q2) (rq_signal q2) (Url (rq_url q2)) (client_init N q2)) = Rejected e"
    by (simp add: fetch_def)
  then show ?thesis
    by (simp add: client_end_def Let_def flip: q2_def) (simp add: q2_def)
qed

lemma client_end_chunk: "client_end N (Some c) q = client_end N None (snd (client_write c q))"
  by (simp add: client_end_def client_write_def)

section \<open>The order of events\<close>

definition is_passing :: "http_event \<Rightarrow> bool" where
  "is_passing ev \<longleftrightarrow> ev = AbortEvent \<or> ev = Timeout"

definition exchange_events :: "creq \<Rightarrow> http_event list" where
  "exchange_events q = filter (\<lambda>ev. \<not> is_passing ev) (rq_events q)"

fun is_deliver :: "timer \<Rightarrow> bool" where
  "is_deliver (Deliver bs) = True"
| "is_deliver _ = False"

definition delivered_events :: "bytes \<Rightarrow> http_event list" where
  "delivered_events bs = (if bs \<noteq> [] then [Data bs] else []) @ [End, MessageClose, Close]"

text \<open>Where a request is that was ended once and never destroyed: not sent, under way, answered with its body to
  come, complete, or failed.\<close>

inductive exchange_ok :: "flight list \<Rightarrow> timer list \<Rightarrow> http_event list \<Rightarrow> bool \<Rightarrow> bool" where
  idle: "filter is_deliver ts = [] \<Longrightarrow> exchange_ok [] ts [] False"
| under_way: "filter is_deliver ts = [] \<Longrightarrow> exchange_ok [f] ts [] True"
| answered: "filter is_deliver ts = [Deliver bs] \<Longrightarrow> exchange_ok [] ts [Response n t hs raw] True"
| complete: "filter is_deliver ts = [] \<Longrightarrow> exchange_ok [] ts (Response n t hs raw # delivered_events bs) True"
| failed: "filter is_deliver ts = [] \<Longrightarrow> evs = [Close] \<or> evs = [ErrorEvent e, Close] \<Longrightarrow> exchange_ok [] ts evs True"

inductive_cases exchange_okE: "exchange_ok fs ts evs b"

lemma exchange_timers: "exchange_ok fs ts evs b \<Longrightarrow> filter is_deliver ts' = filter is_deliver ts \<Longrightarrow> exchange_ok fs ts' evs b"
  by (erule exchange_okE) (auto intro: exchange_ok.intros)

definition legal_events :: "http_event list \<Rightarrow> bool" where
  "legal_events evs \<longleftrightarrow> (\<exists>e. evs = [] \<or> evs = [Close] \<or> evs = [ErrorEvent e, Close]) \<or>
     (\<exists>n t hs raw bs. evs = [Response n t hs raw] \<or> evs = Response n t hs raw # delivered_events bs)"

lemma exchange_legal: "exchange_ok fs ts evs b \<Longrightarrow> legal_events evs"
  unfolding legal_events_def by (elim exchange_okE) blast+

lemma exchange_new [simp]: "exchange_ok [] [] [] False"
  by (rule exchange_ok.idle) simp

definition exchange_state :: "creq \<Rightarrow> bool \<Rightarrow> bool" where
  "exchange_state q b \<longleftrightarrow> exchange_ok (rq_flights q) (rq_timers q) (exchange_events q) b"

lemma filter_remove_at: "i < length xs \<Longrightarrow> \<not> P (xs ! i) \<Longrightarrow> filter P (remove_at i xs) = filter P xs"
proof -
  assume "i < length xs" "\<not> P (xs ! i)"
  then have "filter P (take i xs @ xs ! i # drop (Suc i) xs) = filter P (remove_at i xs)"
    by (simp add: remove_at_def)
  then show ?thesis
    using id_take_nth_drop [OF \<open>i < length xs\<close>] by simp
qed

lemma filter_remove_only:
  assumes "i < length xs" "P (xs ! i)" "filter P xs = [x]"
  shows "xs ! i = x \<and> filter P (remove_at i xs) = []"
proof -
  have "filter P (take i xs @ xs ! i # drop (Suc i) xs) = [x]"
    using id_take_nth_drop [OF assms(1)] assms(3) by simp
  then show ?thesis
    using assms(2) by (auto simp: remove_at_def append_eq_Cons_conv)
qed

lemma exchange_timer:
  assumes "exchange_state q b" "i < length (rq_timers q)"
  shows "exchange_state (http_act N (CTimer i) q) b"
proof (cases "rq_timers q ! i")
  case (Deliver bs)
  then have d: "is_deliver (rq_timers q ! i)" by simp
  then have ne: "filter is_deliver (rq_timers q) \<noteq> []"
    using assms(2) by (metis filter_empty_conv nth_mem)
  from assms(1) obtain n t hs raw bs' where q: "rq_flights q = []" "exchange_events q = [Response n t hs raw]" "b"
    "filter is_deliver (rq_timers q) = [Deliver bs']"
    unfolding exchange_state_def using ne by (auto elim!: exchange_okE)
  have "bs' = bs" "filter is_deliver (remove_at i (rq_timers q)) = []"
    using filter_remove_only [OF assms(2) d q(4)] Deliver by auto
  then show ?thesis
    using q Deliver assms(2) exchange_ok.complete [of "remove_at i (rq_timers q)" n t hs raw bs]
    by (cases "bs = []") (simp_all add: exchange_state_def run_timer_def emit_http_def exchange_events_def is_passing_def delivered_events_def)
next
  case (Rethrow e)
  then show ?thesis
    using assms filter_remove_at [OF assms(2), of is_deliver]
    by (auto simp: exchange_state_def run_timer_def exchange_events_def elim!: exchange_okE intro: exchange_ok.intros)
next
  case EmitTimeout
  then show ?thesis
    using assms filter_remove_at [OF assms(2), of is_deliver]
    by (auto simp: exchange_state_def run_timer_def exchange_events_def emit_http_def is_passing_def elim!: exchange_okE intro: exchange_ok.intros)
qed

lemma exchange_settle:
  assumes "exchange_state q b" "i < length (rq_flights q)"
  shows "exchange_state (http_act N (CSettle i result) q) b"
proof -
  from assms obtain f where q: "rq_flights q = [f]" "i = 0" "filter is_deliver (rq_timers q) = []" "exchange_events q = []" "b"
    unfolding exchange_state_def by (auto elim!: exchange_okE)
  have fail: "exchange_state (client_on_failure e (q\<lparr>rq_flights := []\<rparr>)) b" for e
    using q by (auto simp: exchange_state_def client_on_failure_def emitRequestError_def emit_http_def exchange_events_def is_passing_def
        intro: exchange_ok.failed)
  have ok: "exchange_state (client_on_response p (q\<lparr>rq_flights := []\<rparr>)) b" for p
    using q by (auto simp: exchange_state_def client_on_response_def Let_def emit_http_def exchange_events_def is_passing_def
        intro: exchange_ok.answered)
  show ?thesis
    using q fail ok by (auto simp: settle_flight_def remove_at_def split: flight.split sum.split)
qed

lemma exchange_end:
  assumes "exchange_state q False"
  shows "exchange_state (client_end N c q) True"
  using assms
  by (auto simp: exchange_state_def client_end_def Let_def exchange_events_def elim!: exchange_okE
      intro: exchange_ok.under_way split: option.split fetch_start.split)

definition calm :: "http_action \<Rightarrow> bool" where
  "calm a \<longleftrightarrow> (\<forall>e. a \<noteq> CDestroy e)"

fun is_end :: "http_action \<Rightarrow> bool" where
  "is_end (CEnd c) = True"
| "is_end _ = False"

lemma exchange_other:
  assumes "exchange_state q b" "calm a" "\<not> is_end a"
  shows "exchange_state (http_act N a q) b"
proof (cases a)
  case (CSettle i r)
  then show ?thesis using exchange_settle [OF assms(1)] assms(1) by (cases "i < length (rq_flights q)") auto
next
  case (CTimer i)
  then show ?thesis using exchange_timer [OF assms(1)] assms(1) by (cases "i < length (rq_timers q)") auto
next
  case CSetTimeout
  then show ?thesis
    using assms(1) exchange_timers [of _ "rq_timers q" _ b "rq_timers q @ [EmitTimeout]"]
    by (simp add: exchange_state_def client_setTimeout_def exchange_events_def)
qed (use assms in \<open>auto simp: exchange_state_def calm_def client_write_def client_abort_def abort_request_def emit_http_def
    exchange_events_def is_passing_def client_setTimeout_def setHeader_def removeHeader_def keep_def
    elim!: exchange_okE intro: exchange_ok.intros split: option.splits\<close>)

lemma exchange_run:
  assumes "exchange_state q b" "list_all calm acts" "length (filter is_end acts) \<le> (if b then 0 else 1)"
  shows "\<exists>b'. exchange_state (http_run N acts q) b'"
  using assms
proof (induction acts arbitrary: q b)
  case (Cons a acts)
  show ?case
  proof (cases "is_end a")
    case True
    then obtain c where "a = CEnd c" by (cases a) auto
    then show ?thesis
      using Cons.prems Cons.IH [of "client_end N c q" True] exchange_end [of q N c] by (auto simp: http_run_def split: if_splits)
  next
    case False
    then show ?thesis
      using Cons.prems Cons.IH [of "http_act N a q" b] exchange_other [of q b a N] by (auto simp: http_run_def)
  qed
qed (auto simp: http_run_def)

section \<open>Properties\<close>

text \<open>C19: What is written is what is sent, or nothing is. A new request, after any writes and one \<open>end\<close> with or without a last chunk,
  has sent exactly one request if its method is valid and, for \<open>GET\<close> (the default) and \<open>HEAD\<close>, if the chunks have no bytes:
  with the method, the address, the headers in order, and as its body the bytes of the chunks one after the other.
  It has sent nothing, and its promise is going to fail, if the method is \<open>GET\<close> or \<open>HEAD\<close> and there are bytes, or if the method is not
  valid.\<close>

theorem client_sends_what_was_written:
  fixes N :: natives and q :: creq and cs :: "body_init list" and last_chunk :: "body_init option"
  assumes "new_ClientRequest sig input c = Some q"
  defines "q' \<equiv> http_run N (map CWrite cs @ [CEnd last_chunk]) q"
  defines "written \<equiv> concat (map (body_toBuffer N) (cs @ (case last_chunk of None \<Rightarrow> [] | Some b \<Rightarrow> [b])))"
  shows "(\<forall>m. normalizeMethod (rq_method q) = Inr m \<and> (m \<notin> {''GET'', ''HEAD''} \<or> written = []) \<longrightarrow>
      rq_sent q' = [\<lparr>n_method = m, n_url = rq_url q, n_headers = sortedHeaderEntries (rq_headers q), n_body = written,
        n_signalId = sig, n_redirect = ''follow''\<rparr>] \<and> (\<exists>r. rq_flights q' = [Flying r])) \<and>
    (\<forall>m. normalizeMethod (rq_method q) = Inr m \<and> m \<in> {''GET'', ''HEAD''} \<and> written \<noteq> [] \<longrightarrow>
      rq_sent q' = [] \<and> rq_flights q' = [Failing ''GET and HEAD requests cannot have a body'']) \<and>
    (\<forall>e. normalizeMethod (rq_method q) = Inl e \<longrightarrow> rq_sent q' = [] \<and> rq_flights q' = [Failing e])"
proof -
  define q1 where "q1 = q\<lparr>rq_chunks := cs @ (case last_chunk of None \<Rightarrow> [] | Some b \<Rightarrow> [b])\<rparr>"
  have q: "rq_sent q1 = []" "rq_flights q1 = []" "rq_signal q1 = sig" "rq_aborted q1 = None" "rq_chunks q = []"
    "rq_method q1 = rq_method q" "rq_url q1 = rq_url q" "rq_headers q1 = rq_headers q" "concat (map (body_toBuffer N) (rq_chunks q1)) = written"
    using assms(1) by (auto simp: q1_def written_def new_ClientRequest_def split: option.splits)
  have run: "q' = client_end N None q1"
    using writes_collect [of N cs q] q(5)
    by (cases last_chunk) (simp_all add: q'_def q1_def http_run_def client_end_chunk client_write_def)
  have "rq_sent q' = [\<lparr>n_method = m, n_url = rq_url q, n_headers = sortedHeaderEntries (rq_headers q), n_body = written,
        n_signalId = sig, n_redirect = ''follow''\<rparr>] \<and> (\<exists>r. rq_flights q' = [Flying r])"
    if "normalizeMethod (rq_method q) = Inr m" "m \<notin> {''GET'', ''HEAD''} \<or> written = []" for m
    using client_end_sends [of q1 m N] that q run by auto
  moreover have "rq_sent q' = [] \<and> rq_flights q' = [Failing e]"
    if "normalizeMethod (rq_method q) = Inl e \<or> (\<exists>m. normalizeMethod (rq_method q) = Inr m \<and> m \<in> {''GET'', ''HEAD''} \<and>
      written \<noteq> [] \<and> e = ''GET and HEAD requests cannot have a body'')" for e
    using client_end_refuses [of q1 e N] that q run by simp
  ultimately show ?thesis by blast
qed

definition no_client_options :: client_options where
  "no_client_options = \<lparr>co_method = None, co_headers = NoInit, co_protocol = None, co_hostname = None, co_host = None,
     co_port = None, co_path = None\<rparr>"

theorem client_sends_what_was_written_witness:
  "\<exists>q. new_ClientRequest 7 None (no_client_options\<lparr>co_method := Some ''post'', co_port := Some ''81''\<rparr>) = Some q \<and>
    rq_sent (http_run plain_natives (map CWrite [BBytes [1], BBytes [2]] @ [CEnd (Some (BBytes [3]))]) q) =
      [\<lparr>n_method = ''POST'', n_url = ''http://localhost:81/'', n_headers = [], n_body = [1, 2, 3], n_signalId = 7,
        n_redirect = ''follow''\<rparr>]"
proof -
  have up: "to_upper ''post'' = ''POST''"
    by code_simp
  obtain q where q: "new_ClientRequest 7 None (no_client_options\<lparr>co_method := Some ''post'', co_port := Some ''81''\<rparr>) = Some q"
    "rq_method q = ''POST''" "rq_url q = ''http://localhost:81/''" "rq_headers q = []"
    by (auto simp: new_ClientRequest_def no_client_options_def string_or_def option_url_def up)
  have "normalizeMethod ''POST'' = Inr ''POST''"
    by code_simp
  then show ?thesis
    using client_sends_what_was_written [OF q(1), of plain_natives "[BBytes [1], BBytes [2]]" "Some (BBytes [3])"] q
    by (simp add: body_toBuffer_def sortedHeaderEntries_def)
qed

text \<open>C20: The events of a request come in order. Whatever a program does with a new request, if it calls \<open>end\<close> once
  and does not destroy the request, and in whatever order promises and timers come, the events besides \<open>abort\<close> and
  \<open>timeout\<close> are at any time a beginning of: the response, then its data in one piece unless it is empty, then the
  end and the close of the message, then \<open>close\<close>; or an error, if somebody listens, and \<open>close\<close>.\<close>

theorem http_events_in_order:
  assumes "new_ClientRequest sig input c = Some q" and "list_all calm acts" and "length (filter is_end acts) \<le> 1"
  shows "legal_events (filter (\<lambda>ev. \<not> is_passing ev) (rq_events (http_run N acts q)))"
proof -
  have "exchange_state q False"
    using assms(1) by (auto simp: new_ClientRequest_def exchange_state_def exchange_events_def split: option.splits)
  then obtain b where "exchange_state (http_run N acts q) b"
    using exchange_run [OF _ assms(2)] assms(3) by fastforce
  then show ?thesis
    using exchange_legal by (simp add: exchange_state_def exchange_events_def)
qed

theorem http_events_in_order_witness:
  "\<exists>q. new_ClientRequest 7 (Some ''http://a/'') no_client_options = Some q \<and>
    legal_events (filter (\<lambda>ev. \<not> is_passing ev) (rq_events (http_run plain_natives
      [CListen, CEnd None, CAbort, CSettle 0 (Inl ''reset'')] q)))"
proof -
  obtain q where q: "new_ClientRequest 7 (Some ''http://a/'') no_client_options = Some q"
    by (auto simp: new_ClientRequest_def no_client_options_def)
  then show ?thesis
    using http_events_in_order [OF q, of "[CListen, CEnd None, CAbort, CSettle 0 (Inl ''reset'')]" plain_natives]
    by (simp add: calm_def)
qed

text \<open>Destroying a request that is under way reports twice. \<open>destroy(error)\<close> emits \<open>error\<close> and \<open>close\<close>, and the
  abort makes the promise of \<open>fetch\<close> fail, which emits both again. And \<open>destroy()\<close> without an error, on a request
  without a listener for \<open>error\<close>, ends in an uncaught exception.\<close>

theorem destroy_reports_twice:
  assumes "rq_flights q = [Flying r]" and "q_signal r = rq_signal q" and "rq_aborted q = None" and "rq_timers q = []"
  shows "(rq_hears_error q \<longrightarrow> rq_events (http_run N [CDestroy (Some e), CSettle 0 (Inl native)] q) =
      rq_events q @ [ErrorEvent e, Close, ErrorEvent e, Close]) \<and>
    (\<not> rq_hears_error q \<longrightarrow> rq_uncaught (http_run N [CDestroy None, CSettle 0 (Inl native), CTimer 0] q) =
      rq_uncaught q @ [''This operation was aborted''])"
  using assms
  by (simp add: http_run_def client_destroy_def Let_def abort_request_def emitRequestError_def emit_http_def settle_flight_def
      fetch_settled_def signal_state_def client_on_failure_def remove_at_def run_timer_def)

theorem destroy_reports_twice_witness:
  "\<exists>q. new_ClientRequest 7 (Some ''http://a/'') no_client_options = Some q \<and>
    rq_events (http_run plain_natives [CListen, CEnd None, CDestroy (Some ''x''), CSettle 0 (Inl ''y'')] q) =
      [ErrorEvent ''x'', Close, ErrorEvent ''x'', Close]"
proof -
  obtain q where q: "new_ClientRequest 7 (Some ''http://a/'') no_client_options = Some q"
    by (auto simp: new_ClientRequest_def no_client_options_def)
  define q1 where "q1 = q\<lparr>rq_hears_error := True\<rparr>"
  have up: "to_upper ''GET'' = ''GET''"
    by code_simp
  have f: "rq_method q1 = ''GET''" "rq_aborted q1 = None" "rq_chunks q1 = []" "rq_flights q1 = []" "rq_timers q1 = []"
    "rq_events q1 = []" "rq_hears_error q1"
    using q by (auto simp: q1_def new_ClientRequest_def no_client_options_def string_or_def up)
  have "normalizeMethod ''GET'' = Inr ''GET''"
    by code_simp
  then obtain r q2 where q2: "client_end plain_natives None q1 = q2" "rq_flights q2 = [Flying r]" "q_signal r = rq_signal q2"
    "rq_aborted q2 = None" "rq_timers q2 = []" "rq_events q2 = []" "rq_hears_error q2"
    using client_end_sends [of q1 "''GET''" plain_natives] f by auto
  have "http_run plain_natives [CListen, CEnd None, CDestroy (Some ''x''), CSettle 0 (Inl ''y'')] q =
      http_run plain_natives [CDestroy (Some ''x''), CSettle 0 (Inl ''y'')] q2"
    using q2(1) by (simp add: http_run_def q1_def)
  then show ?thesis
    using q q2 destroy_reports_twice [of q2 r plain_natives "''x''" "''y''"] by auto
qed

end
