(* ===== verification/Stdio.thy ===== *)
theory Stdio
  imports Stream_Pipeline_Spec
begin

text \<open>
  Streams over the native side of the runtime: the standard streams of the process (\<open>process/stdio.js\<close>), those of
  a child process (\<open>child_process/stdio.js\<close>), and the message and the response of an HTTP server
  (\<open>http/streams.js\<close>), all under \<open>src/pkg/jsruntime\<close>. Each is a stream of the library with hooks that call the
  native functions; the hooks are the functions \<open>b + 2\<close>, \dots, \<open>b + 9\<close> of \<open>stdio_fun b\<close>. The native functions are
  functions of the program: the record \<open>native_hooks\<close>.
\<close>

record native_hooks =
  nh_write :: closure
  nh_stdinWrite :: closure
  nh_stdinEnd :: closure
  nh_stdinDestroy :: closure
  nh_responseWrite :: closure
  nh_responseFinish :: closure
  nh_responseDestroy :: closure

section \<open>The hooks\<close>

text \<open>The hooks get the stream as \<open>this\<close>, the argument 0, and then their own arguments.\<close>

definition call_native :: "closure \<Rightarrow> val list \<Rightarrow> program" where
  "call_native h args = do_api (Call h VUndef args) (Finish VUndef)"

definition stdio_write :: "native_hooks \<Rightarrow> string \<Rightarrow> val list \<Rightarrow> program" where
  "stdio_write H name a = call_native (nh_write H) [VStr name, arg 1 a, arg 3 a]"

definition stdin_write :: "native_hooks \<Rightarrow> val list \<Rightarrow> program" where
  "stdin_write H a = call_native (nh_stdinWrite H) [arg 1 a, arg 3 a]"

definition stdin_final :: "native_hooks \<Rightarrow> val list \<Rightarrow> program" where
  "stdin_final H a = call_native (nh_stdinEnd H) [arg 1 a]"

definition response_write :: "native_hooks \<Rightarrow> val list \<Rightarrow> program" where
  "response_write H a = call_native (nh_responseWrite H) [arg 0 a, arg 1 a, arg 3 a]"

definition response_final :: "native_hooks \<Rightarrow> val list \<Rightarrow> program" where
  "response_final H a = call_native (nh_responseFinish H) [arg 0 a, arg 1 a]"

text \<open>Both hooks of \<open>destroy\<close> tell the native side, and then complete with the error they were given.\<close>

definition destroy_after :: "closure \<Rightarrow> val list \<Rightarrow> val list \<Rightarrow> program" where
  "destroy_after h args a = do_api (Call h VUndef args) (case arg 2 a of
       VFun c \<Rightarrow> do_api (Call c VUndef [arg 1 a]) (Finish VUndef)
     | _ \<Rightarrow> Raise (VErr TypeError ''not a function''))"

definition stdin_destroy :: "native_hooks \<Rightarrow> val list \<Rightarrow> program" where
  "stdin_destroy H a = destroy_after (nh_stdinDestroy H) [] a"

definition response_destroy :: "native_hooks \<Rightarrow> val list \<Rightarrow> program" where
  "response_destroy H a = destroy_after (nh_responseDestroy H) [arg 0 a] a"

definition no_read :: program where
  "no_read = Finish VUndef"

definition stdio_fun :: "native_hooks \<Rightarrow> nat \<Rightarrow> val list \<Rightarrow> program" where
  "stdio_fun H i a =
     (if i = 2 then stdio_write H ''stdout'' a
      else if i = 3 then stdio_write H ''stderr'' a
      else if i = 4 then stdin_write H a
      else if i = 5 then stdin_final H a
      else if i = 6 then stdin_destroy H a
      else if i = 7 then response_write H a
      else if i = 8 then response_final H a
      else if i = 9 then response_destroy H a
      else no_read)"

definition stdio_at :: "outside \<Rightarrow> native_hooks \<Rightarrow> nat \<Rightarrow> bool" where
  "stdio_at U H b \<longleftrightarrow> (\<forall>i a. 2 \<le> i \<and> i < 11 \<longrightarrow> user U (b + i) a = stdio_fun H i a)"

section \<open>The streams\<close>

definition stdout_stream :: "nat \<Rightarrow> stream" where
  "stdout_stream b = new_Writable (no_options\<lparr>o_write := Some (User (b + 2))\<rparr>)"

definition stderr_stream :: "nat \<Rightarrow> stream" where
  "stderr_stream b = new_Writable (no_options\<lparr>o_write := Some (User (b + 3))\<rparr>)"

definition silent_readable :: "nat \<Rightarrow> stream" where
  "silent_readable b = new_Readable (no_options\<lparr>o_read := Some (User (b + 10))\<rparr>)"

definition stdin_stream :: "nat \<Rightarrow> stream" where
  "stdin_stream b = silent_readable b"

definition createStdin :: "nat \<Rightarrow> stream" where
  "createStdin b = new_Writable (no_options\<lparr>o_write := Some (User (b + 4)), o_final := Some (User (b + 5)), o_destroy := Some (User (b + 6))\<rparr>)"

definition createOutput :: "nat \<Rightarrow> stream" where
  "createOutput b = silent_readable b"

definition createIncomingMessage :: "nat \<Rightarrow> stream" where
  "createIncomingMessage b = silent_readable b"

definition createServerResponse :: "nat \<Rightarrow> stream" where
  "createServerResponse b = new_Writable (no_options\<lparr>o_write := Some (User (b + 7)), o_final := Some (User (b + 8)), o_destroy := Some (User (b + 9))\<rparr>)"

section \<open>What they do\<close>

lemma stdio_call:
  "stdio_at U H b \<Longrightarrow> 2 \<le> i \<Longrightarrow> i < 11 \<Longrightarrow> call_fuel U (Suc n) (User (b + i)) t a = run_program (rt_fuel U n) (stdio_fun H i (t # a))"
  by (simp add: call_fuel.simps stdio_at_def rt_fuel_def)

text \<open>A stream whose source never pushes: nothing comes out of it, and it never ends.\<close>

definition waiting :: "nat \<Rightarrow> stream \<Rightarrow> bool" where
  "waiting b ob \<longleftrightarrow> has_r ob \<and> r_readable (rstate ob) \<and> r_buffer (rstate ob) = [] \<and> r_length (rstate ob) = Fin 0 \<and>
     \<not> r_ended (rstate ob) \<and> \<not> r_endEmitted (rstate ob) \<and> \<not> r_destroyed (rstate ob) \<and> h_read (hooks ob) = User (b + 10) \<and> history ob = []"

lemma waiting_new: "waiting b (stdin_stream b)" "waiting b (createOutput b)" "waiting b (createIncomingMessage b)"
  by (simp_all add: waiting_def stdin_stream_def createOutput_def createIncomingMessage_def silent_readable_def object_eval)

lemma waiting_maybeRead:
  assumes "stdio_at U H b" "waiting b (heap w s)"
  shows "\<exists>w'. maybeRead (rt_fuel U (Suc n)) s w = (Return (), w') \<and> waiting b (heap w' s) \<and> ticks w' = ticks w"
proof -
  have hook: "call_fuel U (Suc n) (User (b + 10)) t a = run_program (rt_fuel U n) (Finish VUndef)" for t a
    using stdio_call [OF assms(1), of 10 n t a] by (simp add: stdio_fun_def no_read_def)
  show ?thesis
    using assms(2)
    by (auto simp: maybeRead_def get_obj_def js_defs mod_r_def mod_obj_def rt_fuel_def make_rt_def hook waiting_def)
qed

lemma waiting_read:
  assumes "stdio_at U H b" "waiting b (heap w s)" "\<not> read_size_bad sz"
  shows "\<exists>w'. read (rt_fuel U (Suc n)) s sz w = (Return VNull, w') \<and> waiting b (heap w' s) \<and> ticks w' = ticks w"
proof (cases "sz = VNum (Fin 0)")
  case True
  then show ?thesis
    using assms by (auto simp: read_def get_obj_def js_defs waiting_def)
next
  case False
  define w1 where "w1 = w\<lparr>heap := (heap w)(s := (heap w s)\<lparr>rstate := (rstate (heap w s))\<lparr>r_disturbed := True, r_needReadable := True\<rparr>\<rparr>)\<rparr>"
  have "waiting b (heap w1 s)"
    using assms(2) by (simp add: waiting_def w1_def)
  then obtain w' where "maybeRead (rt_fuel U (Suc n)) s w1 = (Return (), w')" "waiting b (heap w' s)" "ticks w' = ticks w1"
    using waiting_maybeRead [OF assms(1)] by blast
  then show ?thesis
    using assms(2,3) False
    by (auto simp: read_def get_obj_def js_defs mod_r_def mod_obj_def waiting_def read_buffer_def read_nothing_def w1_def)
qed

lemma waiting_flow:
  assumes "stdio_at U H b" "waiting b (heap w s)"
  shows "\<exists>w'. call_fuel U (Suc (Suc n)) (TickFlow s) t a w = (Return VUndef, w') \<and> waiting b (heap w' s) \<and> ticks w' = ticks w"
proof -
  define w1 where "w1 = w\<lparr>heap := (heap w)(s := (heap w s)\<lparr>rstate := (rstate (heap w s))\<lparr>r_flowScheduled := False\<rparr>\<rparr>)\<rparr>"
  have w1: "waiting b (heap w1 s)"
    using assms(2) by (simp add: waiting_def w1_def)
  then obtain w' where "maybeRead (rt_fuel U (Suc n)) s w1 = (Return (), w')" "waiting b (heap w' s)" "ticks w' = ticks w1"
    using waiting_maybeRead [OF assms(1)] by blast
  then have "\<exists>w'. flow (rt_fuel U (Suc n)) s w1 = (Return (), w') \<and> waiting b (heap w' s) \<and> ticks w' = ticks w"
    using w1 by (auto simp: flow_def get_obj_def js_defs waiting_def w1_def)
  then show ?thesis
    by (auto simp: call_fuel.simps(2) [of U "Suc n"] tick_flow_def js_val_def js_defs mod_r_def mod_obj_def w1_def rt_fuel_def)
qed

text \<open>A response that is destroyed without pending writes, when the native function only looks: it completes at once.\<close>

lemma response_destroyed:
  assumes "stdio_at U H b" "observer U (nh_responseDestroy H)" "observer U c"
  shows "call_fuel U (Suc (Suc n)) (User (b + 9)) (VStream s) [e, VFun c] w = (Return VUndef, w)"
proof -
  obtain v where v: "call_fuel U (Suc n) (nh_responseDestroy H) VUndef [VStream s] w = (Return v, w)"
    using assms(2) unfolding observer_def by blast
  obtain v' where v': "call_fuel U (Suc n) c VUndef [e] w = (Return v', w)"
    using assms(3) unfolding observer_def by blast
  show ?thesis
    using v v' stdio_call [OF assms(1), of 9 "Suc n" "VStream s" "[e, VFun c]"]
    by (simp add: stdio_fun_def response_destroy_def destroy_after_def do_api_def arg_def rt_fuel_def make_rt_def js_ret_def)
qed

text \<open>Standard input never speaks. On a stream whose source pushes nothing, such as the standard input of the
  process, any call of \<open>read\<close> with a valid size returns null, and the task of the flowing mode returns; both leave
  the stream open, empty and without an event in its history, and schedule no further task.\<close>

theorem stdin_stays_silent:
  assumes "stdio_at U H b" and "waiting b (heap w s)"
  shows "(\<not> read_size_bad sz \<longrightarrow> (\<exists>w'. read (rt_fuel U (Suc n)) s sz w = (Return VNull, w') \<and> waiting b (heap w' s) \<and> ticks w' = ticks w)) \<and>
    (\<exists>w'. call_fuel U (Suc (Suc n)) (TickFlow s) t a w = (Return VUndef, w') \<and> waiting b (heap w' s) \<and> ticks w' = ticks w)"
  using waiting_read [OF assms] waiting_flow [OF assms] by blast

definition quiet_hooks :: native_hooks where
  "quiet_hooks = \<lparr>nh_write = User 0, nh_stdinWrite = User 0, nh_stdinEnd = User 0, nh_stdinDestroy = User 0,
     nh_responseWrite = User 0, nh_responseFinish = User 0, nh_responseDestroy = User 0\<rparr>"

definition quiet_outside :: outside where
  "quiet_outside = latin1 (\<lambda>n a. if 22 \<le> n \<and> n < 31 then stdio_fun quiet_hooks (n - 20) a else Finish VUndef)"

theorem stdin_stays_silent_witness:
  "\<exists>w'. read (rt_fuel quiet_outside 3) 0 VUndef (start_world\<lparr>heap := (\<lambda>_. stdin_stream 20)\<rparr>) = (Return VNull, w') \<and> waiting 20 (heap w' 0)"
proof -
  have "stdio_at quiet_outside quiet_hooks 20"
    by (simp add: stdio_at_def quiet_outside_def latin1_def)
  moreover have "waiting 20 (heap (start_world\<lparr>heap := (\<lambda>_. stdin_stream 20)\<rparr>) 0)"
    by (simp add: waiting_new)
  moreover have "\<not> read_size_bad VUndef"
    by (simp add: read_size_bad_def nullish_def)
  ultimately show ?thesis
    using stdin_stays_silent [where n = 2 and sz = VUndef] by (metis Suc_1 numeral_3_eq_3 numeral_2_eq_2)
qed

end
