(* ===== verification/Buffer_Text.thy ===== *)
theory Buffer_Text
  imports Url Buffers
begin

text \<open>
  Strings as buffers: the names of encodings of \<open>buffer/buffer.js\<close>, and the functions \<open>encode\<close> and \<open>decode\<close> of
  \<open>buffer/buffer.go\<close> that it calls, for hex, base64, latin1, ASCII, UTF-16 and UTF-8.

  As in \<open>Url_Text\<close>, a string is the list of its code units, and the conversion of a string to a Go string is the parameter
  \<open>g\<close> with the hypothesis \<open>engine_utf8\<close>. The decoders of hex and base64 of Go's library stop at the first wrong digit and return what
  they have so far. All codecs have one interface, the locale \<open>text_codec\<close>.
\<close>

section \<open>Names of encodings\<close>

datatype codec = Utf8 | Hex | Base64 | Base64url | Latin1 | Ascii | Utf16le

definition text_encodings :: "jstr list" where
  "text_encodings = map lit [''utf8'', ''utf-8'', ''hex'', ''base64'', ''base64url'', ''ascii'', ''latin1'', ''binary'', ''ucs2'', ''ucs-2'',
     ''utf16le'', ''utf-16le'']"

text \<open>\<open>encoding(e)\<close>: \<open>None\<close> for undefined, otherwise the text of the argument.\<close>

definition text_encoding :: "jstr option \<Rightarrow> jstr res" where
  "text_encoding e = (let n = (case e of None \<Rightarrow> lit ''utf8'' | Some s \<Rightarrow> lower_text s)
     in if n \<in> set text_encodings then Inr n else Inl buffer_error.TypeError)"

definition isEncoding :: "jstr option \<Rightarrow> bool" where
  "isEncoding e = (case e of None \<Rightarrow> False | Some s \<Rightarrow> lower_text s \<in> set text_encodings)"

text \<open>\<open>codecName\<close> of \<open>buffer.go\<close>, for a name in lower case; \<open>None\<close> for the empty name that it gives to others.\<close>

definition codecName :: "jstr \<Rightarrow> codec option" where
  "codecName n =
     (if n \<in> set (map lit ['''', ''utf8'', ''utf-8'']) then Some Utf8
      else if n = lit ''hex'' then Some Hex
      else if n = lit ''base64'' then Some Base64
      else if n = lit ''base64url'' then Some Base64url
      else if n = lit ''ascii'' then Some Ascii
      else if n \<in> set (map lit [''latin1'', ''binary'']) then Some Latin1
      else if n \<in> set (map lit [''ucs2'', ''ucs-2'', ''utf16le'', ''utf-16le'']) then Some Utf16le
      else None)"

section \<open>Digits\<close>

fun hex_bytes :: "bytes \<Rightarrow> bytes" where
  "hex_bytes (h # l # s) = (case (hex_value h, hex_value l) of
       (Some x, Some y) \<Rightarrow> of_nat (16 * x + y) # hex_bytes s
     | _ \<Rightarrow> [])"
| "hex_bytes _ = []"

definition hex_char :: "nat \<Rightarrow> 16 word" where
  "hex_char n = of_nat (if n < 10 then 48 + n else 87 + n)"

definition hex_text :: "bytes \<Rightarrow> jstr" where
  "hex_text b = concat (map (\<lambda>x. [hex_char (unat x div 16), hex_char (unat x mod 16)]) b)"

definition b64_value :: "nat \<Rightarrow> nat option" where
  "b64_value r =
     (if 65 \<le> r \<and> r \<le> 90 then Some (r - 65)
      else if 97 \<le> r \<and> r \<le> 122 then Some (r - 71)
      else if 48 \<le> r \<and> r \<le> 57 then Some (r + 4)
      else if r = 43 then Some 62 else if r = 47 then Some 63 else None)"

definition b64_char :: "bool \<Rightarrow> nat \<Rightarrow> nat" where
  "b64_char url v =
     (if v < 26 then v + 65 else if v < 52 then v + 71 else if v < 62 then v - 4
      else if v = 62 then (if url then 45 else 43) else (if url then 95 else 47))"

text \<open>The map over the runes of \<open>decode\<close>: the letters of base64url become those of base64, others are dropped.\<close>

definition b64_rune :: "nat \<Rightarrow> nat list" where
  "b64_rune r =
     (if r = 45 then [43] else if r = 95 then [47]
      else if b64_value r \<noteq> None \<or> r = 61 then [r] else [])"

definition trim_padding :: "nat list \<Rightarrow> nat list" where
  "trim_padding s = rev (dropWhile (\<lambda>r. r = 61) (rev s))"

text \<open>\<open>RawStdEncoding.DecodeString\<close>: groups of four digits, then one of two or three.\<close>

fun b64_groups :: "nat list \<Rightarrow> bytes" where
  "b64_groups (p # q # r # t # s) = (case (b64_value p, b64_value q, b64_value r, b64_value t) of
       (Some a, Some b, Some c, Some d) \<Rightarrow>
         of_nat (a * 4 + b div 16) # of_nat (b mod 16 * 16 + c div 4) # of_nat (c mod 4 * 64 + d) # b64_groups s
     | _ \<Rightarrow> [])"
| "b64_groups [p, q, r] = (case (b64_value p, b64_value q, b64_value r) of
       (Some a, Some b, Some c) \<Rightarrow> [of_nat (a * 4 + b div 16), of_nat (b mod 16 * 16 + c div 4)]
     | _ \<Rightarrow> [])"
| "b64_groups [p, q] = (case (b64_value p, b64_value q) of
       (Some a, Some b) \<Rightarrow> [of_nat (a * 4 + b div 16)]
     | _ \<Rightarrow> [])"
| "b64_groups _ = []"

fun b64_text :: "bool \<Rightarrow> bytes \<Rightarrow> nat list" where
  "b64_text url (x # y # z # s) =
     b64_char url (unat x div 4) # b64_char url (unat x mod 4 * 16 + unat y div 16) #
     b64_char url (unat y mod 16 * 4 + unat z div 64) # b64_char url (unat z mod 64) # b64_text url s"
| "b64_text url [x, y] =
     [b64_char url (unat x div 4), b64_char url (unat x mod 4 * 16 + unat y div 16), b64_char url (unat y mod 16 * 4)] @
     (if url then [] else [61])"
| "b64_text url [x] = [b64_char url (unat x div 4), b64_char url (unat x mod 4 * 16)] @ (if url then [] else [61, 61])"
| "b64_text url [] = []"

section \<open>The codecs\<close>

definition unit_bytes :: "16 word \<Rightarrow> bytes" where
  "unit_bytes u = [low_byte u, of_nat (unat u div 256)]"

definition wide_byte :: "byte \<Rightarrow> 16 word" where
  "wide_byte x = of_nat (unat x)"

definition two_bytes :: "byte \<Rightarrow> byte \<Rightarrow> 16 word" where
  "two_bytes x y = of_nat (unat x + 256 * unat y)"

fun byte_units :: "bytes \<Rightarrow> jstr" where
  "byte_units (x # y # s) = two_bytes x y # byte_units s"
| "byte_units _ = []"

text \<open>The code units that \<open>decode\<close> sees: the string went through the runes of Go.\<close>

definition go_units :: "(jstr \<Rightarrow> bytes) \<Rightarrow> jstr \<Rightarrow> jstr" where
  "go_units g s = concat (map units (runes (g s)))"

definition decode :: "(jstr \<Rightarrow> bytes) \<Rightarrow> codec \<Rightarrow> jstr \<Rightarrow> bytes" where
  "decode g c s = (case c of
       Hex \<Rightarrow> hex_bytes (g s)
     | Base64 \<Rightarrow> b64_groups (trim_padding (concat (map b64_rune (runes (g s)))))
     | Base64url \<Rightarrow> b64_groups (trim_padding (concat (map b64_rune (runes (g s)))))
     | Latin1 \<Rightarrow> map low_byte (go_units g s)
     | Ascii \<Rightarrow> map low_byte (go_units g s)
     | Utf16le \<Rightarrow> concat (map unit_bytes (go_units g s))
     | Utf8 \<Rightarrow> g s)"

definition encode :: "codec \<Rightarrow> bytes \<Rightarrow> jstr" where
  "encode c b = (case c of
       Hex \<Rightarrow> hex_text b
     | Base64 \<Rightarrow> map of_nat (b64_text False b)
     | Base64url \<Rightarrow> map of_nat (b64_text True b)
     | Latin1 \<Rightarrow> map wide_byte b
     | Ascii \<Rightarrow> map (\<lambda>x. of_nat (unat x mod 128)) b
     | Utf16le \<Rightarrow> scalar (byte_units b)
     | Utf8 \<Rightarrow> concat (map units (runes b)))"

end
