(* ===== verification/Buffer_Text_Spec.thy ===== *)
theory Buffer_Text_Spec
  imports Buffer_Text
begin

text \<open>
  The codecs of Buffer lose nothing: bytes written as text and read back are the same bytes, and text turned to bytes and back is the
  same text, each for what the codec can hold.
\<close>

section \<open>The interface of a codec\<close>

locale text_codec =
  fixes enc :: "bytes \<Rightarrow> jstr"
    and dec :: "(jstr \<Rightarrow> bytes) \<Rightarrow> jstr \<Rightarrow> bytes"
    and ok :: "bytes \<Rightarrow> bool"
  assumes decoded: "engine_utf8 g \<Longrightarrow> ok b \<Longrightarrow> dec g (enc b) = b"
begin

lemma enc_inj: "ok b \<Longrightarrow> ok c \<Longrightarrow> enc b = enc c \<Longrightarrow> b = c"
  using decoded [OF engine_go_utf8] by metis

lemma enc_dec_enc: "engine_utf8 g \<Longrightarrow> ok b \<Longrightarrow> enc (dec g (enc b)) = enc b"
  by (simp add: decoded)

end

section \<open>Strings of Go\<close>

lemma go_runes: "engine_utf8 g \<Longrightarrow> codepoints s = Some cs \<Longrightarrow> runes (g s) = cs"
  using codepoints_units [of s cs] by (auto simp: engine_utf8_def runes_utf8)

lemma go_units_id: "engine_utf8 g \<Longrightarrow> well_formed s \<Longrightarrow> go_units g s = s"
  using codepoints_units [of s] by (auto simp: go_units_def go_runes well_formed_def)

lemma low_points: "list_all (\<lambda>u. unat u < 0xD800) s \<Longrightarrow> codepoints s = Some (map unat s)"
proof (induction s)
  case (Cons u s)
  then have "\<not> is_high u" "\<not> is_low u"
    by (auto simp: is_high_def is_low_def)
  then show ?case
    using Cons by (simp add: codepoints_Cons_plain)
qed simp

lemma small_points: "list_all (\<lambda>u. unat u < 256) s \<Longrightarrow> codepoints s = Some (map unat s)"
  by (rule low_points) (auto simp: list_all_iff)

lemma unat_half: "h < 0x400 \<Longrightarrow> unat (of_nat (k + h) :: 16 word) = k + h" if "k \<le> 0xDC00"
  by (rule unat_unit) (use that in simp)

lemma codepoints_of_units:
  "list_all scalar_value cs \<Longrightarrow> codepoints (concat (map units cs)) = Some cs"
proof (induction cs)
  case (Cons c cs)
  let ?s = "concat (map units cs)"
  show ?case
  proof (cases "c < 0x10000")
    case True
    then have "units c = [of_nat c]" "\<not> is_high (of_nat c)" "\<not> is_low (of_nat c)"
      using Cons.prems by (auto simp: units_def is_high_def is_low_def scalar_value_def)
    then show ?thesis
      using Cons True by (simp add: codepoints_Cons_plain)
  next
    case False
    define h l where "h = (c - 0x10000) div 0x400" and "l = (c - 0x10000) mod 0x400"
    have "c < 0x110000"
      using Cons.prems False by (auto simp: scalar_value_def)
    then have hl: "h < 0x400" "l < 0x400"
      unfolding h_def l_def by simp_all
    have "h * 0x400 + l = c - 0x10000"
      unfolding h_def l_def by simp
    then have c: "0x10000 + h * 0x400 + l = c"
      using False by linarith
    let ?u = "of_nat (0xD800 + h) :: 16 word" and ?v = "of_nat (0xDC00 + l) :: 16 word"
    have v: "unat ?u = 0xD800 + h" "unat ?v = 0xDC00 + l"
      by (rule unat_half; use hl in simp)+
    then have "is_high ?u" "is_low ?v" "pair_point ?u ?v = c"
      unfolding is_high_def is_low_def pair_point_def v using hl c by simp_all
    moreover have "units c = [?u, ?v]"
      using False by (simp only: units_def h_def l_def if_False)
    ultimately show ?thesis
      using Cons by simp
  qed
qed simp

lemma unat_bound8: "unat (x :: byte) < 256"
  using unsigned_less [of x] by simp

section \<open>Hex\<close>

lemma hex_char_range: "n < 16 \<Longrightarrow> 48 \<le> unat (hex_char n) \<and> unat (hex_char n) \<le> 102"
  by (auto simp: hex_char_def simp del: of_nat_add)

lemma hex_char_value: "n < 16 \<Longrightarrow> hex_value (low_byte (hex_char n)) = Some n"
  using hex_char_range [of n]
  by (auto simp: hex_value_def Let_def) (auto simp: hex_char_def simp del: of_nat_add split: if_splits)

lemma hex_text_ascii: "list_all (\<lambda>u. unat u < 128) (hex_text b)"
proof -
  have "unat (hex_char n) < 128" if "n < 16" for n
    using hex_char_range [OF that] by simp
  moreover have "unat x div 16 < 16" for x :: byte
    using unat_bound8 [of x] by simp
  ultimately show ?thesis
    by (auto simp: hex_text_def list_all_iff)
qed

lemma hex_bytes_text: "hex_bytes (map low_byte (hex_text b)) = b"
proof (induction b)
  case (Cons x b)
  have "unat x div 16 < 16"
    using unat_bound8 [of x] by simp
  then show ?case
    using Cons by (simp add: hex_text_def hex_char_value)
qed (simp add: hex_text_def)

interpretation hex: text_codec "encode Hex" "\<lambda>g. decode g Hex" "\<lambda>b. True"
  by unfold_locales (simp add: encode_def decode_def go_string_ascii hex_text_ascii hex_bytes_text)

section \<open>Base64\<close>

fun b64_digits :: "bytes \<Rightarrow> nat list" where
  "b64_digits (x # y # z # s) =
     [unat x div 4, unat x mod 4 * 16 + unat y div 16, unat y mod 16 * 4 + unat z div 64, unat z mod 64] @ b64_digits s"
| "b64_digits [x, y] = [unat x div 4, unat x mod 4 * 16 + unat y div 16, unat y mod 16 * 4]"
| "b64_digits [x] = [unat x div 4, unat x mod 4 * 16]"
| "b64_digits [] = []"

lemma byte_parts: "unat x div 4 < 64" "unat x div 16 < 16" "unat x div 64 < 4" for x :: byte
  using unat_bound8 [of x] by simp_all

lemma sixteen: "m < 4 \<Longrightarrow> n < 16 \<Longrightarrow> m * 16 + n < (64::nat)" "m < 16 \<Longrightarrow> n < 4 \<Longrightarrow> m * 4 + n < (64::nat)"
  by simp_all

lemma b64_digits_less: "list_all (\<lambda>v. v < 64) (b64_digits b)"
  by (induction b rule: b64_digits.induct) (simp_all add: byte_parts sixteen)

lemma b64_text_digits: "\<exists>k. b64_text url b = map (b64_char url) (b64_digits b) @ replicate k 61"
proof (induction url b rule: b64_text.induct)
  case (2 url x y)
  then show ?case by (intro exI [of _ "if url then 0 else 1"]) simp
next
  case (3 url x)
  then show ?case by (intro exI [of _ "if url then 0 else 2"]) (simp add: numeral_2_eq_2)
next
  case (1 url x y z s)
  then show ?case by auto
qed auto

lemma b64_char_value: "v < 64 \<Longrightarrow> b64_value (b64_char False v) = Some v"
  by (auto simp: b64_value_def b64_char_def)

lemma b64_char_range: "v < 64 \<Longrightarrow> b64_char url v < 128 \<and> b64_char url v \<noteq> 61"
  by (auto simp: b64_char_def)

lemma b64_char_rune: "v < 64 \<Longrightarrow> b64_rune (b64_char url v) = [b64_char False v]"
  by (auto simp: b64_rune_def b64_char_def b64_value_def)

lemma b64_rune_digits: "list_all (\<lambda>v. v < 64) vs \<Longrightarrow> concat (map b64_rune (map (b64_char url) vs)) = map (b64_char False) vs"
  by (induction vs) (simp_all add: b64_char_rune)

lemma drop_padding: "dropWhile (\<lambda>r. r = 61) (replicate k 61 @ xs) = dropWhile (\<lambda>r. r = (61::nat)) xs"
  by (induction k) simp_all

lemma trim_padding_digits:
  assumes "list_all (\<lambda>v. v < 64) vs"
  shows "trim_padding (map (b64_char False) vs @ replicate k 61) = map (b64_char False) vs"
proof -
  have "dropWhile (\<lambda>r. r = 61) (rev (map (b64_char False) vs)) = rev (map (b64_char False) vs)"
    using assms by (cases vs rule: rev_cases) (auto simp: b64_char_range)
  then show ?thesis
    by (simp add: trim_padding_def drop_padding)
qed

lemma byte_of_nat: "of_nat (unat x) = (x :: byte)"
  by simp

lemma byte_of_parts:
  "of_nat (unat x div 4 * 4 + (unat x mod 4 * 16 + unat y div 16) div 16) = x"
  "of_nat ((unat x mod 4 * 16 + unat y div 16) mod 16 * 16 + (unat y mod 16 * 4 + unat z div 64) div 4) = y"
  "of_nat ((unat y mod 16 * 4 + unat z div 64) mod 4 * 64 + unat z mod 64) = z"
  "of_nat (unat x div 4 * 4 + unat x mod 4 * 16 div 16) = x"
  "of_nat ((unat x mod 4 * 16 + unat y div 16) mod 16 * 16 + unat y mod 16 * 4 div 4) = y" for x y z :: byte
proof -
  have p: "unat y div 16 < 16" "unat z div 64 < 4"
    by (rule byte_parts)+
  then have "unat x div 4 * 4 + (unat x mod 4 * 16 + unat y div 16) div 16 = unat x"
    "(unat x mod 4 * 16 + unat y div 16) mod 16 * 16 + (unat y mod 16 * 4 + unat z div 64) div 4 = unat y"
    "(unat y mod 16 * 4 + unat z div 64) mod 4 * 64 + unat z mod 64 = unat z"
    "unat x div 4 * 4 + unat x mod 4 * 16 div 16 = unat x"
    "(unat x mod 4 * 16 + unat y div 16) mod 16 * 16 + unat y mod 16 * 4 div 4 = unat y"
    by simp_all
  then show
    "of_nat (unat x div 4 * 4 + (unat x mod 4 * 16 + unat y div 16) div 16) = x"
    "of_nat ((unat x mod 4 * 16 + unat y div 16) mod 16 * 16 + (unat y mod 16 * 4 + unat z div 64) div 4) = y"
    "of_nat ((unat y mod 16 * 4 + unat z div 64) mod 4 * 64 + unat z mod 64) = z"
    "of_nat (unat x div 4 * 4 + unat x mod 4 * 16 div 16) = x"
    "of_nat ((unat x mod 4 * 16 + unat y div 16) mod 16 * 16 + unat y mod 16 * 4 div 4) = y"
    by (simp_all only: byte_of_nat)
qed

lemma b64_groups_digits: "b64_groups (map (b64_char False) (b64_digits b)) = b"
proof (induction b rule: b64_digits.induct)
  case (1 x y z s)
  then show ?case
    by (simp add: b64_char_value byte_parts sixteen byte_of_parts del: of_nat_add of_nat_mult)
qed (simp_all add: b64_char_value byte_parts sixteen byte_of_parts del: of_nat_add of_nat_mult)

lemma b64_text_ascii: "list_all (\<lambda>r. r < 128) (b64_text url b)"
proof -
  obtain k where "b64_text url b = map (b64_char url) (b64_digits b) @ replicate k 61"
    using b64_text_digits by blast
  then show ?thesis
    using b64_digits_less [of b] b64_char_range by (auto simp: list_all_iff)
qed

lemma b64_back:
  assumes "engine_utf8 g"
  shows "b64_groups (trim_padding (concat (map b64_rune (runes (g (map of_nat (b64_text url b))))))) = b"
proof -
  have small: "unat (of_nat r :: 16 word) = r" if "r \<in> set (b64_text url b)" for r
    using that b64_text_ascii [of url b] by (auto simp: list_all_iff)
  have "list_all (\<lambda>u. unat u < 256) (map of_nat (b64_text url b) :: jstr)"
    using b64_text_ascii [of url b] small by (auto simp: list_all_iff)
  then have "codepoints (map of_nat (b64_text url b)) = Some (b64_text url b)"
    using small by (simp add: small_points map_idI)
  then have "runes (g (map of_nat (b64_text url b))) = b64_text url b"
    by (rule go_runes [OF assms])
  moreover obtain k where "b64_text url b = map (b64_char url) (b64_digits b) @ replicate k 61"
    using b64_text_digits by blast
  moreover have "concat (map b64_rune (replicate k 61)) = replicate k 61"
    by (induction k) (simp_all add: b64_rune_def b64_value_def)
  ultimately have "concat (map b64_rune (runes (g (map of_nat (b64_text url b))))) =
      map (b64_char False) (b64_digits b) @ replicate k 61"
    using b64_rune_digits [OF b64_digits_less, of url b] by simp
  then show ?thesis
    by (simp add: trim_padding_digits b64_digits_less b64_groups_digits)
qed

interpretation base64: text_codec "encode Base64" "\<lambda>g. decode g Base64" "\<lambda>b. True"
  by unfold_locales (simp add: encode_def decode_def b64_back)

interpretation base64url: text_codec "encode Base64url" "\<lambda>g. decode g Base64url" "\<lambda>b. True"
  by unfold_locales (simp add: encode_def decode_def b64_back)

section \<open>One byte or two for a code unit\<close>

lemma byte_eqI: "unat x = unat y \<Longrightarrow> x = (y :: byte)"
  by (metis byte_of_nat)

lemma unit_of_nat: "of_nat (unat u) = (u :: 16 word)"
  by simp

lemma unit_eqI: "unat x = unat y \<Longrightarrow> x = (y :: 16 word)"
  by (metis unit_of_nat)

lemma unat_wide [simp]: "unat (wide_byte x) = unat x"
  unfolding wide_byte_def by (rule unat_unit) (use unat_bound8 [of x] in simp)

lemma unat_two_bytes: "unat (two_bytes x y) = unat x + 256 * unat y"
  unfolding two_bytes_def by (rule unat_unit) (use unat_bound8 [of x] unat_bound8 [of y] in simp)

lemma unat_low: "unat (low_byte u) = unat u mod 256"
  unfolding low_byte_def by (simp only: unat_of_nat) simp

lemma low_byte_wide [simp]: "low_byte (wide_byte x) = x"
  by (rule byte_eqI) (use unat_bound8 [of x] in \<open>simp add: unat_low\<close>)

lemma wide_low_byte: "unat u < 256 \<Longrightarrow> wide_byte (low_byte u) = u"
  by (rule unit_eqI) (simp add: unat_low)

lemma latin1_small: "list_all (\<lambda>u. unat u < 256) (map wide_byte b)"
  using unat_bound8 by (simp add: list_all_iff)

lemma small_units: "engine_utf8 g \<Longrightarrow> list_all (\<lambda>u. unat u < 256) s \<Longrightarrow> go_units g s = s"
  by (rule go_units_id) (simp_all add: well_formed_def small_points)

interpretation latin1: text_codec "encode Latin1" "\<lambda>g. decode g Latin1" "\<lambda>b. True"
  by unfold_locales (simp add: encode_def decode_def small_units [OF _ latin1_small] comp_def)

lemma ascii_encode: "list_all (\<lambda>x. unat x < 128) b \<Longrightarrow> encode Ascii b = encode Latin1 b"
  by (simp add: encode_def list_all_iff wide_byte_def)

interpretation ascii: text_codec "encode Ascii" "\<lambda>g. decode g Ascii" "list_all (\<lambda>x. unat x < 128)"
  using latin1.decoded by unfold_locales (simp add: ascii_encode, simp add: decode_def)

lemma unit_bytes_two: "unit_bytes (two_bytes x y) = [x, y]"
proof -
  have "low_byte (two_bytes x y) = x"
    by (rule byte_eqI) (use unat_bound8 [of x] in \<open>simp add: unat_low unat_two_bytes\<close>)
  moreover have "unat (two_bytes x y) div 256 = unat y"
    using unat_bound8 [of x] by (simp add: unat_two_bytes)
  ultimately show ?thesis
    by (simp only: unit_bytes_def byte_of_nat)
qed

lemma byte_units_bytes: "even (length b) \<Longrightarrow> concat (map unit_bytes (byte_units b)) = b"
  by (induction b rule: byte_units.induct) (simp_all add: unit_bytes_two)

lemma two_bytes_unit: "two_bytes (low_byte u) (of_nat (unat u div 256)) = u"
proof (rule unit_eqI)
  have "unat (of_nat (unat u div 256) :: byte) = unat u div 256"
    by (rule unat_byte) (use unat_bound16 [of u] in simp)
  then show "unat (two_bytes (low_byte u) (of_nat (unat u div 256))) = unat u"
    by (simp add: unat_two_bytes unat_low)
qed

lemma unit_bytes_units: "byte_units (concat (map unit_bytes s)) = s"
  by (induction s) (simp_all add: unit_bytes_def two_bytes_unit)

interpretation utf16: text_codec "encode Utf16le" "\<lambda>g. decode g Utf16le" "\<lambda>b. even (length b) \<and> well_formed (byte_units b)"
  by unfold_locales (simp add: encode_def decode_def scalar_well_formed go_units_id byte_units_bytes)

definition utf8_text :: "bytes \<Rightarrow> bool" where
  "utf8_text b \<longleftrightarrow> concat (map utf8 (runes b)) = b \<and> list_all scalar_value (runes b)"

interpretation utf8_codec: text_codec "encode Utf8" "\<lambda>g. decode g Utf8" utf8_text
  by unfold_locales (simp add: encode_def decode_def engine_utf8_def utf8_text_def codepoints_of_units)

section \<open>Properties\<close>

text \<open>The bytes a codec can hold: all for hex, base64, base64url and latin1, an even number of bytes without lone
  surrogates for UTF-16, and the encoding of some text for UTF-8.\<close>

definition codec_bytes :: "codec \<Rightarrow> bytes \<Rightarrow> bool" where
  "codec_bytes c b = (case c of
       Utf8 \<Rightarrow> utf8_text b
     | Ascii \<Rightarrow> list_all (\<lambda>x. unat x < 128) b
     | Utf16le \<Rightarrow> even (length b) \<and> well_formed (byte_units b)
     | _ \<Rightarrow> True)"

definition codec_text :: "codec \<Rightarrow> jstr \<Rightarrow> bool" where
  "codec_text c s = (case c of
       Latin1 \<Rightarrow> list_all (\<lambda>u. unat u < 256) s
     | Ascii \<Rightarrow> list_all (\<lambda>u. unat u < 128) s
     | Utf8 \<Rightarrow> well_formed s
     | Utf16le \<Rightarrow> well_formed s
     | _ \<Rightarrow> False)"

lemma text_back:
  assumes "engine_utf8 g" and "codec_text c s"
  shows "encode c (decode g c s) = s"
proof (cases c)
  case Utf8
  then obtain cs where "codepoints s = Some cs"
    using assms(2) by (auto simp: codec_text_def well_formed_def)
  then show ?thesis
    using Utf8 go_runes [OF assms(1)] codepoints_units by (simp add: encode_def decode_def)
next
  case Utf16le
  then show ?thesis
    using assms by (simp add: encode_def decode_def codec_text_def go_units_id unit_bytes_units scalar_well_formed)
next
  case Latin1
  then show ?thesis
    using assms small_units [OF assms(1), of s]
    by (auto simp: encode_def decode_def codec_text_def list_all_iff wide_low_byte intro!: map_idI)
next
  case Ascii
  then have s: "list_all (\<lambda>u. unat u < 256) s" "list_all (\<lambda>x. unat x < 128) (map low_byte s)"
    using assms(2) by (auto simp: codec_text_def list_all_iff unat_low)
  have "encode Ascii (map low_byte s) = map (wide_byte \<circ> low_byte) s"
    by (simp only: ascii_encode [OF s(2)]) (simp add: encode_def)
  then show ?thesis
    using Ascii s(1) small_units [OF assms(1) s(1)]
    by (simp add: decode_def list_all_iff wide_low_byte map_idI)
qed (use assms(2) in \<open>simp_all add: codec_text_def\<close>)

lemma codec_roundtrip_bytes: "engine_utf8 g \<Longrightarrow> codec_bytes c b \<Longrightarrow> decode g c (encode c b) = b"
  using hex.decoded base64.decoded base64url.decoded latin1.decoded ascii.decoded utf16.decoded utf8_codec.decoded
  by (cases c) (simp_all add: codec_bytes_def)

text \<open>C29: No codec of Buffer loses anything. Bytes that are written as text and read back are the same bytes, for all bytes in
  hex, base64, base64url and latin1 and for what ASCII, UTF-16 and UTF-8 can hold; and text that is turned to bytes and back is the same text,
  for every text without lone surrogates in UTF-8 and UTF-16, and every text of small code units in latin1 and ASCII.\<close>

theorem codec_roundtrip:
  assumes "engine_utf8 g"
  shows "(codec_bytes c b \<longrightarrow> decode g c (encode c b) = b) \<and> (codec_text c s \<longrightarrow> encode c (decode g c s) = s)"
  using codec_roundtrip_bytes [OF assms] text_back [OF assms] by blast

theorem codec_roundtrip_witness:
  "decode go_utf8 Base64 (encode Base64 [0, 255, 7, 62]) = [0, 255, 7, 62] \<and>
   encode Utf16le (decode go_utf8 Utf16le [0x901A, 0xD83D, 0xDE00]) = [0x901A, 0xD83D, 0xDE00]"
  using codec_roundtrip [OF engine_go_utf8, of Base64 "[0, 255, 7, 62]" "[]"]
    codec_roundtrip [OF engine_go_utf8, of Utf16le "[]" "[0x901A, 0xD83D, 0xDE00]"]
  by (simp add: codec_bytes_def codec_text_def well_formed_def text_eval)

end
