(* ===== verification/Buffer_Memory.thy ===== *)
theory Buffer_Memory
  imports Buffer_Text_Spec Buffers_Spec
begin

text \<open>
  Buffers in memory: \<open>buffer/buffer.js\<close> builds every Buffer on an \<open>ArrayBuffer\<close>, and several Buffers may show parts of one. The store holds the
  arrays, and a Buffer is the number of its array, where it starts and how long it is. Here are the constructor, \<open>from\<close>, \<open>alloc\<close>,
  \<open>slice\<close>, \<open>toString\<close>, \<open>toJSON\<close> and \<open>copy\<close>; a method of \<open>Buffers\<close> works on a Buffer through its window (\<open>through\<close>).
\<close>

record buffer =
  b_array :: nat
  b_start :: nat
  b_length :: nat

record store =
  arrays :: "nat \<Rightarrow> bytes"
  next_array :: nat

definition contents :: "store \<Rightarrow> buffer \<Rightarrow> bytes" where
  "contents S b = window (b_start b) (b_length b) (arrays S (b_array b))"

definition set_contents :: "buffer \<Rightarrow> bytes \<Rightarrow> store \<Rightarrow> store" where
  "set_contents b bs S = S\<lparr>arrays := (arrays S)(b_array b := put (b_start b) bs (arrays S (b_array b)))\<rparr>"

text \<open>A Buffer lies inside an array that exists.\<close>

definition buffer_ok :: "store \<Rightarrow> buffer \<Rightarrow> bool" where
  "buffer_ok S b \<longleftrightarrow> b_array b < next_array S \<and> b_start b + b_length b \<le> length (arrays S (b_array b))"

definition through :: "(bytes \<Rightarrow> ('a \<times> bytes) res) \<Rightarrow> buffer \<Rightarrow> store \<Rightarrow> ('a \<times> store) res" where
  "through f b S = (case f (contents S b) of Inl e \<Rightarrow> Inl e | Inr (r, bs) \<Rightarrow> Inr (r, set_contents b bs S))"

section \<open>Making buffers\<close>

definition new_array :: "bytes \<Rightarrow> store \<Rightarrow> buffer \<times> store" where
  "new_array bs S = (\<lparr>b_array = next_array S, b_start = 0, b_length = length bs\<rparr>,
     S\<lparr>arrays := (arrays S)(next_array S := bs), next_array := Suc (next_array S)\<rparr>)"

text \<open>The constructor of typed arrays on an \<open>ArrayBuffer\<close>: start and length are indices; without a length it reaches to the end.\<close>

definition to_index :: "jsnum \<Rightarrow> nat option" where
  "to_index x = (case x of Fin k \<Rightarrow> if k < 0 then None else Some (nat k) | NaN \<Rightarrow> Some 0 | _ \<Rightarrow> None)"

definition view_array :: "nat \<Rightarrow> jsnum option \<Rightarrow> jsnum option \<Rightarrow> store \<Rightarrow> buffer res" where
  "view_array m start len S = (case to_index (case start of None \<Rightarrow> Fin 0 | Some x \<Rightarrow> x) of
       None \<Rightarrow> Inl RangeError
     | Some i \<Rightarrow> (case len of
         None \<Rightarrow> if length (arrays S m) < i then Inl RangeError
           else Inr \<lparr>b_array = m, b_start = i, b_length = length (arrays S m) - i\<rparr>
       | Some x \<Rightarrow> (case to_index x of
           None \<Rightarrow> Inl RangeError
         | Some n \<Rightarrow> if length (arrays S m) < i + n then Inl RangeError else Inr \<lparr>b_array = m, b_start = i, b_length = n\<rparr>)))"

text \<open>What \<open>from\<close> is given: \<open>FromJson\<close> is an object with the type \<open>Buffer\<close> and an array as its data; \<open>FromItems\<close> has a length, elements or an
  iterator, and its \<open>valueOf\<close>, if any, returns itself; \<open>FromValue\<close> is the result of a \<open>valueOf\<close> that returns something else.\<close>

datatype from_value =
    FromNumber
  | FromNil
  | FromText jstr
  | FromArray nat
  | FromBuffer buffer
  | FromItems "jsnum list"
  | FromJson "jsnum list"
  | FromValue from_value
  | FromOther

definition to_byte :: "jsnum \<Rightarrow> byte" where
  "to_byte x = (case x of Fin k \<Rightarrow> word_of_int k | _ \<Rightarrow> 0)"

definition string_bytes :: "(jstr \<Rightarrow> bytes) \<Rightarrow> jstr option \<Rightarrow> jstr \<Rightarrow> bytes res" where
  "string_bytes g e s = (case text_encoding e of
       Inl x \<Rightarrow> Inl x
     | Inr n \<Rightarrow> Inr (decode g (case codecName n of Some c \<Rightarrow> c | None \<Rightarrow> Utf8) s))"

definition new_string :: "(jstr \<Rightarrow> bytes) \<Rightarrow> jstr option \<Rightarrow> jstr \<Rightarrow> store \<Rightarrow> (buffer \<times> store) res" where
  "new_string g e s S = map_sum id (\<lambda>bs. new_array bs S) (string_bytes g e s)"

text \<open>\<open>Buffer.from(a, b, c)\<close>: \<open>e\<close> is \<open>b\<close> as the name of an encoding, \<open>start\<close> and \<open>len\<close> are \<open>b\<close> and \<open>c\<close> as numbers.\<close>

primrec buffer_from :: "(jstr \<Rightarrow> bytes) \<Rightarrow> jstr option \<Rightarrow> jsnum option \<Rightarrow> jsnum option \<Rightarrow> from_value \<Rightarrow> store \<Rightarrow> (buffer \<times> store) res" where
  "buffer_from g e start len FromNumber S = Inl buffer_error.TypeError"
| "buffer_from g e start len FromNil S = Inl buffer_error.TypeError"
| "buffer_from g e start len (FromText s) S = new_string g e s S"
| "buffer_from g e start len (FromArray m) S = map_sum id (\<lambda>b. (b, S)) (view_array m start len S)"
| "buffer_from g e start len (FromBuffer b) S = Inr (new_array (contents S b) S)"
| "buffer_from g e start len (FromItems xs) S = Inr (new_array (map to_byte xs) S)"
| "buffer_from g e start len (FromJson xs) S = Inr (new_array (map to_byte xs) S)"
| "buffer_from g e start len (FromValue v) S = buffer_from g e start len v S"
| "buffer_from g e start len FromOther S = Inl buffer_error.TypeError"

definition buffer_alloc :: "jsnum \<Rightarrow> fill_value option \<Rightarrow> store \<Rightarrow> (buffer \<times> store) res" where
  "buffer_alloc n v S = (case buffer_size n of
       Inl e \<Rightarrow> Inl e
     | Inr k \<Rightarrow> (case new_array (replicate k 0) S of (b, S1) \<Rightarrow> (case v of
         None \<Rightarrow> Inr (b, S1)
       | Some x \<Rightarrow> map_sum id (\<lambda>(_, S2). (b, S2))
           (through (\<lambda>bs. map_sum id (Pair ()) (fill x (Some (Fin 0)) (Some (Fin (int k))) bs)) b S1))))"

definition allocUnsafe :: "jsnum \<Rightarrow> store \<Rightarrow> (buffer \<times> store) res" where
  "allocUnsafe n S = map_sum id (\<lambda>k. new_array (replicate k 0) S) (buffer_size n)"

definition allocUnsafeSlow :: "jsnum \<Rightarrow> store \<Rightarrow> (buffer \<times> store) res" where
  "allocUnsafeSlow n S = allocUnsafe n S"

section \<open>Parts\<close>

text \<open>\<open>subarray\<close> of typed arrays: negative positions count from the end, and what lies outside is cut off.\<close>

definition relative :: "nat \<Rightarrow> jsnum \<Rightarrow> nat" where
  "relative n x = (case x of
       Fin k \<Rightarrow> if k < 0 then nat (max 0 (int n + k)) else min (nat k) n
     | PInf \<Rightarrow> n | _ \<Rightarrow> 0)"

definition subarray :: "jsnum option \<Rightarrow> jsnum option \<Rightarrow> buffer \<Rightarrow> buffer" where
  "subarray s e b =
     (let i = (case s of None \<Rightarrow> 0 | Some x \<Rightarrow> relative (b_length b) x);
          j = (case e of None \<Rightarrow> b_length b | Some x \<Rightarrow> relative (b_length b) x)
      in b\<lparr>b_start := b_start b + i, b_length := j - i\<rparr>)"

definition slice :: "jsnum option \<Rightarrow> jsnum option \<Rightarrow> buffer \<Rightarrow> buffer" where
  "slice s e b = subarray s e b"

definition compare_parts :: "buffer \<Rightarrow> jsnum option \<Rightarrow> jsnum option \<Rightarrow> jsnum option \<Rightarrow> jsnum option \<Rightarrow> buffer \<Rightarrow> store \<Rightarrow> int" where
  "compare_parts b ts te ss se this S = compare (contents S (subarray ss se this)) (contents S (subarray ts te b))"

text \<open>\<open>toString(e, start, end)\<close>: \<open>Math.max\<close> and \<open>Math.min\<close> of NaN are NaN, which \<open>subarray\<close> takes for 0.\<close>

definition num_max :: "jsnum \<Rightarrow> jsnum \<Rightarrow> jsnum" where
  "num_max x y = (if x = NaN \<or> y = NaN then NaN else if num_less x y then y else x)"

definition num_min :: "jsnum \<Rightarrow> jsnum \<Rightarrow> jsnum" where
  "num_min x y = (if x = NaN \<or> y = NaN then NaN else if num_less y x then y else x)"

definition text_part :: "jsnum option \<Rightarrow> jsnum option \<Rightarrow> buffer \<Rightarrow> buffer" where
  "text_part s0 e0 b =
     (let n = Fin (int (b_length b)); s = num_max (Fin 0) (case s0 of None \<Rightarrow> Fin 0 | Some x \<Rightarrow> x);
          e = num_min n (case e0 of None \<Rightarrow> n | Some x \<Rightarrow> x)
      in subarray (Some s) (Some (num_max s e)) b)"

definition buffer_toString :: "jstr option \<Rightarrow> jsnum option \<Rightarrow> jsnum option \<Rightarrow> buffer \<Rightarrow> store \<Rightarrow> jstr res" where
  "buffer_toString e s0 e0 b S = (case text_encoding e of
       Inl x \<Rightarrow> Inl x
     | Inr n \<Rightarrow> Inr (encode (case codecName n of Some c \<Rightarrow> c | None \<Rightarrow> Utf8) (contents S (text_part s0 e0 b))))"

definition toLocaleString :: "buffer \<Rightarrow> store \<Rightarrow> jstr res" where
  "toLocaleString b S = buffer_toString None None None b S"

definition buffer_toJSON :: "buffer \<Rightarrow> store \<Rightarrow> from_value" where
  "buffer_toJSON b S = FromJson (map (\<lambda>x. Fin (uint x)) (contents S b))"

definition byteLength :: "(jstr \<Rightarrow> bytes) \<Rightarrow> jstr option \<Rightarrow> jstr \<Rightarrow> nat res" where
  "byteLength g e s = (case text_encoding e of
       Inl x \<Rightarrow> Inl x
     | Inr n \<Rightarrow> if n = lit ''hex'' then Inr (length s div 2)
         else Inr (length (decode g (case codecName n of Some c \<Rightarrow> c | None \<Rightarrow> Utf8) s)))"

text \<open>\<open>copy(target, ts, ss, se)\<close> between Buffers of one array or of two: the native \<open>set\<close> reads its source before it writes.\<close>

definition copy_length :: "int option \<Rightarrow> int option \<Rightarrow> int option \<Rightarrow> nat \<Rightarrow> nat \<Rightarrow> nat res" where
  "copy_length ts0 ss0 se0 this_length target_length =
     (let ts = (case ts0 of None \<Rightarrow> 0 | Some x \<Rightarrow> x); ss = (case ss0 of None \<Rightarrow> 0 | Some x \<Rightarrow> x);
          se = (case se0 of None \<Rightarrow> int this_length | Some x \<Rightarrow> x)
      in if ts < 0 \<or> ss < 0 \<or> se < 0 then Inl RangeError
         else Inr (nat (max 0 (min (se - ss) (min (int this_length - ss) (int target_length - ts))))))"

definition buffer_copy :: "buffer \<Rightarrow> int option \<Rightarrow> int option \<Rightarrow> int option \<Rightarrow> buffer \<Rightarrow> store \<Rightarrow> (nat \<times> store) res" where
  "buffer_copy target ts0 ss0 se0 this S = (case copy_length ts0 ss0 se0 (b_length this) (b_length target) of
       Inl e \<Rightarrow> Inl e
     | Inr n \<Rightarrow>
         let ts = (case ts0 of None \<Rightarrow> 0 | Some x \<Rightarrow> nat x); ss = (case ss0 of None \<Rightarrow> 0 | Some x \<Rightarrow> x);
             part = subarray (Some (Fin ss)) (Some (Fin (ss + int n))) this
         in Inr (n, if 0 < n then set_contents (target\<lparr>b_start := b_start target + ts\<rparr>) (contents S part) S else S))"

text \<open>\<open>fill\<close> with a Buffer as its pattern, which may show a part of the same array: the loop reads each byte of the pattern when it
  needs it, after the ones before it were written.\<close>

fun live_loop :: "buffer \<Rightarrow> buffer \<Rightarrow> nat \<Rightarrow> nat \<Rightarrow> nat \<Rightarrow> store \<Rightarrow> store" where
  "live_loop p b start i 0 S = S"
| "live_loop p b start i (Suc k) S =
     live_loop p b start (Suc i) k (set_contents b ((contents S b)[i := contents S p ! ((i - start) mod b_length p)]) S)"

definition fill_buffer :: "buffer \<Rightarrow> jsnum option \<Rightarrow> jsnum option \<Rightarrow> buffer \<Rightarrow> store \<Rightarrow> store res" where
  "fill_buffer p start0 end0 b S =
     (let start = (case start0 of None \<Rightarrow> Fin 0 | Some x \<Rightarrow> x); fin = (case end0 of None \<Rightarrow> Fin (int (b_length b)) | Some x \<Rightarrow> x);
          len = fill_length start fin; i = nat (int_of start)
      in if \<not> bounds (contents S b) start len then Inl RangeError
         else if b_length p = 0 then Inl buffer_error.TypeError
         else Inr (live_loop p b i i (nat (int_of len)) S))"

end
