(* ===== verification/Buffer_Memory_Spec.thy ===== *)
theory Buffer_Memory_Spec
  imports Buffer_Memory
begin

text \<open>
  What is shared between Buffers and what is not. An operation that changes bytes and keeps their number (the locale \<open>window_op\<close>)
  changes exactly the part of the array that its Buffer shows, and every Buffer that overlaps it sees the change; \<open>from\<close> makes a copy.
\<close>

section \<open>Operations on a window\<close>

lemma length_contents: "buffer_ok S b \<Longrightarrow> length (contents S b) = b_length b"
  by (auto simp: buffer_ok_def contents_def length_window)

lemma contents_nth: "buffer_ok S b \<Longrightarrow> i < b_length b \<Longrightarrow> contents S b ! i = arrays S (b_array b) ! (b_start b + i)"
  by (simp add: contents_def window_def buffer_ok_def)

lemma put_inside: "i + length new \<le> length b \<Longrightarrow> i \<le> j \<Longrightarrow> j < i + length new \<Longrightarrow> put i new b ! j = new ! (j - i)"
  by (auto simp: put_def nth_append)

lemma set_contents_ok:
  assumes "buffer_ok S a" and "length bs = b_length a"
  shows "buffer_ok (set_contents a bs S) b = buffer_ok S b"
  using assms by (auto simp: buffer_ok_def set_contents_def length_put)

lemma set_contents_same: "buffer_ok S a \<Longrightarrow> length bs = b_length a \<Longrightarrow> contents (set_contents a bs S) a = bs"
  using window_put [of "b_start a" bs "arrays S (b_array a)"] by (simp add: contents_def set_contents_def buffer_ok_def)

lemma set_contents_nth:
  assumes "buffer_ok S a" and "buffer_ok S b" and "length bs = b_length a" and "i < b_length b"
  shows "contents (set_contents a bs S) b ! i =
    (if b_array b = b_array a \<and> b_start a \<le> b_start b + i \<and> b_start b + i < b_start a + b_length a
     then bs ! (b_start b + i - b_start a) else contents S b ! i)"
proof -
  have fit: "b_start a + length bs \<le> length (arrays S (b_array a))"
    using assms(1,3) by (simp add: buffer_ok_def)
  have "contents (set_contents a bs S) b ! i = arrays (set_contents a bs S) (b_array b) ! (b_start b + i)"
    using assms by (intro contents_nth) (simp_all add: set_contents_ok)
  also have "\<dots> = (if b_array b = b_array a then put (b_start a) bs (arrays S (b_array a)) ! (b_start b + i)
      else arrays S (b_array b) ! (b_start b + i))"
    by (simp add: set_contents_def)
  finally show ?thesis
    using put_inside [OF fit] put_other [OF fit] assms by (auto simp: contents_nth)
qed

lemma set_contents_other: "b_array b \<noteq> b_array a \<Longrightarrow> contents (set_contents a bs S) b = contents S b"
  by (simp add: contents_def set_contents_def)

locale window_op =
  fixes run :: "bytes \<Rightarrow> ('a \<times> bytes) res"
  assumes keeps_length: "run bs = Inr (r, bs') \<Longrightarrow> length bs' = length bs"
begin

lemma through_result:
  assumes "through run a S = Inr (r, S')" and "buffer_ok S a"
  obtains bs where "run (contents S a) = Inr (r, bs)" "length bs = b_length a" "S' = set_contents a bs S"
proof (cases "run (contents S a)")
  case (Inl e)
  then show ?thesis
    using assms(1) by (simp add: through_def)
next
  case (Inr p)
  then obtain r' bs where p: "run (contents S a) = Inr (r', bs)"
    by (cases p) simp
  then show ?thesis
    using that [of bs] assms keeps_length [OF p] length_contents by (auto simp: through_def)
qed

lemma through_ok: "through run a S = Inr (r, S') \<Longrightarrow> buffer_ok S a \<Longrightarrow> buffer_ok S' b = buffer_ok S b"
  using through_result set_contents_ok by metis

lemma through_shared:
  assumes "through run a S = Inr (r, S')" and "buffer_ok S a" and "buffer_ok S b"
  shows "\<exists>bs. run (contents S a) = Inr (r, bs) \<and> contents S' a = bs \<and> length bs = b_length a \<and>
    (\<forall>i < b_length b. contents S' b ! i =
      (if b_array b = b_array a \<and> b_start a \<le> b_start b + i \<and> b_start b + i < b_start a + b_length a
       then bs ! (b_start b + i - b_start a) else contents S b ! i))"
  using through_result [OF assms(1,2)] set_contents_same set_contents_nth assms(2,3) by metis

lemma through_apart:
  "through run a S = Inr (r, S') \<Longrightarrow> buffer_ok S a \<Longrightarrow> b_array b \<noteq> b_array a \<Longrightarrow> contents S' b = contents S b"
  using through_result set_contents_other by metis

end

lemma map_sum_Inr: "map_sum f h x = Inr y \<longleftrightarrow> (\<exists>z. x = Inr z \<and> y = h z)"
  by (cases x) auto

section \<open>The methods that change a Buffer\<close>

datatype buffer_op =
    WriteFixed bool bool nat js_value jsnum
  | WriteInt bool bool js_value jsnum jsnum
  | WriteString bool bytes "jsnum option" "jsnum option"
  | Fill fill_value "jsnum option" "jsnum option"
  | Swap nat

primrec run_op :: "buffer_op \<Rightarrow> bytes \<Rightarrow> (int \<times> bytes) res" where
  "run_op (WriteFixed little sgnd n v i) b = write_fixed little sgnd n v i b"
| "run_op (WriteInt little sgnd v i n) b = write_int little sgnd v i n b"
| "run_op (WriteString utf s i n) b = map_sum id (\<lambda>(k, c). (int k, c)) (write_string utf s i n b)"
| "run_op (Fill v s e) b = map_sum id (Pair 0) (fill v s e b)"
| "run_op (Swap n) b = map_sum id (Pair 0) (swap_bytes n b)"

lemma length_dv_set: "i + n \<le> length b \<Longrightarrow> length (dv_set little n i v b) = length b"
  by (simp add: dv_set_def Let_def length_put)

lemma nat_fits: "0 \<le> k \<Longrightarrow> k + int n \<le> int m \<Longrightarrow> nat k + n \<le> m"
  by linarith

lemma length_write_loop [simp]: "length (write_loop little i n k v b) = length b"
  by (induction k arbitrary: v b) (simp_all add: Let_def)

lemma length_fill_loop [simp]: "length (fill_loop s p i k b) = length b"
  by (induction k arbitrary: i b) simp_all

lemma length_native_fill [simp]: "length (native_fill x s e b) = length b"
  by (auto simp: native_fill_def Let_def length_put split: jsnum.split)

lemma length_swap_group [simp]: "length (swap_group n i k b) = length b"
  by (induction k arbitrary: b) (simp_all add: Let_def)

lemma length_swap_loop [simp]: "length (swap_loop n i k b) = length b"
  by (induction k arbitrary: i b) simp_all

lemma length_fill: "fill v s e b = Inr c \<Longrightarrow> length c = length b"
  by (auto simp: fill_def Let_def split: if_splits fill_value.splits)

lemma write_count_le: "write_count utf n s \<le> n"
proof -
  have "back_up s k \<le> k" for k
    by (induction k) auto
  then show ?thesis
    by (auto simp: write_count_def Let_def intro: order_trans)
qed

lemma length_write_string: "write_string utf s i n b = Inr (k, c) \<Longrightarrow> length c = length b"
proof -
  assume a: "write_string utf s i n b = Inr (k, c)"
  define x where "x = (case i of None \<Rightarrow> Fin 0 | Some y \<Rightarrow> y)"
  define y where "y = (case n of None \<Rightarrow> num_sub (Fin (int (length b))) x | Some z \<Rightarrow> z)"
  let ?t = "take (write_count utf (nat (int_of y)) s) s"
  have "bounds b x y" "c = put (nat (int_of x)) ?t b"
    unfolding y_def x_def using a by (auto simp: write_string_def Let_def split: if_splits)
  moreover have "length ?t \<le> nat (int_of y)"
    using write_count_le [of utf "nat (int_of y)" s] by simp
  ultimately show ?thesis
    by (auto simp: bounds_def intro!: length_put)
qed

interpretation buffer_ops: window_op "run_op x" for x
proof unfold_locales
  fix bs r bs'
  assume "run_op x bs = Inr (r, bs')"
  then show "length bs' = length bs"
    by (cases x) (auto simp: map_sum_Inr write_fixed_def write_int_def bounds_def int_of_def [of "Fin _"] swap_bytes_def Let_def
        intro!: length_dv_set nat_fits dest: length_fill length_write_string split: if_splits sum.splits option.splits js_value.splits)
qed

section \<open>Parts and copies\<close>

lemma subarray_inside:
  "b_array (subarray s e b) = b_array b \<and> b_start b \<le> b_start (subarray s e b) \<and>
   b_start (subarray s e b) + b_length (subarray s e b) \<le> b_start b + b_length b"
proof -
  have le: "relative n x \<le> n" for n x
    by (cases x) (auto simp: relative_def)
  define i j where "i = (case s of None \<Rightarrow> 0 | Some x \<Rightarrow> relative (b_length b) x)"
    and "j = (case e of None \<Rightarrow> b_length b | Some x \<Rightarrow> relative (b_length b) x)"
  have "i \<le> b_length b" "j \<le> b_length b"
    unfolding i_def j_def using le by (simp_all split: option.split)
  moreover have "subarray s e b = b\<lparr>b_start := b_start b + i, b_length := j - i\<rparr>"
    by (simp add: subarray_def i_def j_def Let_def)
  ultimately show ?thesis
    by simp
qed

lemma subarray_ok: "buffer_ok S b \<Longrightarrow> buffer_ok S (subarray s e b)"
  using subarray_inside [of s e b] by (auto simp: buffer_ok_def)

lemma window_window: "i + n \<le> m \<Longrightarrow> window i n (window j m b) = window (j + i) n b"
  by (simp add: window_def drop_take min_absorb1 add.commute)

lemma contents_subarray:
  "contents S (subarray s e b) = window (b_start (subarray s e b) - b_start b) (b_length (subarray s e b)) (contents S b)"
proof -
  have "b_start b \<le> b_start (subarray s e b)"
    "b_start (subarray s e b) - b_start b + b_length (subarray s e b) \<le> b_length b"
    using subarray_inside [of s e b] by linarith+
  then show ?thesis
    using subarray_inside [of s e b] by (simp add: contents_def window_window)
qed

lemma new_array_fresh:
  assumes "new_array bs S = (c, S')"
  shows "contents S' c = bs" and "buffer_ok S' c" and "b_array c = next_array S"
    and "\<And>b. buffer_ok S b \<Longrightarrow> buffer_ok S' b \<and> contents S' b = contents S b \<and> b_array b \<noteq> b_array c"
  using assms by (auto simp: new_array_def contents_def buffer_ok_def window_def)

lemma whole_text_part: "contents S (text_part None None b) = contents S b"
  by (auto simp: text_part_def subarray_def relative_def num_max_def num_min_def contents_def Let_def)

text \<open>With a pattern in other memory the live loop is the one of \<open>Buffers\<close>; with a pattern in the same memory it may read what it wrote.\<close>

lemma live_loop_apart:
  assumes "b_array p \<noteq> b_array b"
  shows "buffer_ok S p \<Longrightarrow> buffer_ok S b \<Longrightarrow>
    live_loop p b start i k S = set_contents b (fill_loop start (contents S p) i k (contents S b)) S"
proof (induction k arbitrary: i S)
  case 0
  have "put (b_start b) (contents S b) (arrays S (b_array b)) = arrays S (b_array b)"
  proof -
    have "take i xs @ take n (drop i xs) @ drop (i + n) xs = xs" for i n and xs :: bytes
      by (metis add.commute append_take_drop_id drop_drop)
    then show ?thesis unfolding put_def length_contents [OF 0(2)] by (simp add: contents_def window_def)
  qed
  then show ?case by (simp add: set_contents_def)
next
  case (Suc k)
  let ?x = "contents S p ! ((i - start) mod b_length p)"
  let ?bs = "(contents S b)[i := ?x]"
  let ?S = "set_contents b ?bs S"
  have l: "length ?bs = b_length b" "length (contents S p) = b_length p" using Suc.prems by (simp_all add: length_contents)
  have p: "contents ?S p = contents S p" "contents ?S b = ?bs"
    using set_contents_other [OF assms] set_contents_same [OF Suc.prems(2) l(1)] by auto
  have twice: "set_contents b xs ?S = set_contents b xs S" if "length xs = b_length b" for xs
    using that Suc.prems(2) l(1) by (simp add: set_contents_def put_def buffer_ok_def min_def)
  have "buffer_ok ?S p" "buffer_ok ?S b" using Suc.prems set_contents_ok [OF Suc.prems(2) l(1)] by simp_all
  then show ?case
    using Suc.IH [of ?S "Suc i"] p l twice by simp
qed

lemma fill_buffer_apart:
  assumes "b_array p \<noteq> b_array b" and "buffer_ok S p" and "buffer_ok S b"
  shows "fill_buffer p s e b S = map_sum id snd (through (\<lambda>bs. map_sum id (Pair ()) (fill (FBuf (contents S p)) s e bs)) b S)"
proof -
  have "contents S p = [] \<longleftrightarrow> b_length p = 0" using length_contents [OF assms(2)] by auto
  then show ?thesis
    using live_loop_apart [OF assms]
    unfolding fill_buffer_def through_def fill_def Let_def length_contents [OF assms(3)] by simp
qed

section \<open>Properties\<close>

text \<open>C28: A slice shares its memory. Whatever method writes to a slice, the Buffer it was cut from then holds what the
  method left in the slice at the place of the slice and its old bytes elsewhere, and no Buffer on another array changes.\<close>

theorem slices_share_memory:
  assumes "buffer_ok S b" and "through (run_op x) (slice s e b) S = Inr (r, S')"
  shows "\<exists>bs. run_op x (contents S (slice s e b)) = Inr (r, bs) \<and> contents S' (slice s e b) = bs \<and>
    contents S' b = put (b_start (slice s e b) - b_start b) bs (contents S b) \<and>
    (\<forall>c. b_array c \<noteq> b_array b \<longrightarrow> contents S' c = contents S c)"
proof -
  let ?a = "slice s e b" and ?k = "b_start (slice s e b) - b_start b"
  have a: "buffer_ok S ?a"
    using subarray_ok [OF assms(1)] by (simp add: slice_def)
  have ins: "b_array ?a = b_array b" "b_start b \<le> b_start ?a" "b_start ?a + b_length ?a \<le> b_start b + b_length b"
    using subarray_inside by (auto simp: slice_def)
  obtain bs where bs: "run_op x (contents S ?a) = Inr (r, bs)" "contents S' ?a = bs" "length bs = b_length ?a"
    "\<forall>i < b_length b. contents S' b ! i =
      (if b_start ?a \<le> b_start b + i \<and> b_start b + i < b_start ?a + b_length ?a
       then bs ! (b_start b + i - b_start ?a) else contents S b ! i)"
    using buffer_ops.through_shared [OF assms(2) a assms(1)] ins(1) by auto
  have len: "length (contents S b) = b_length b" "length (contents S' b) = b_length b"
    using buffer_ops.through_ok [OF assms(2) a] assms(1) length_contents by blast+
  have fit: "?k + length bs \<le> length (contents S b)"
    using ins len bs(3) by simp
  have "contents S' b = put ?k bs (contents S b)"
  proof (rule nth_equalityI)
    show "length (contents S' b) = length (put ?k bs (contents S b))"
      using length_put [OF fit] len by simp
    show "contents S' b ! i = put ?k bs (contents S b) ! i" if "i < length (contents S' b)" for i
    proof (cases "b_start ?a \<le> b_start b + i \<and> b_start b + i < b_start ?a + b_length ?a")
      case True
      then have "?k \<le> i" "i < ?k + length bs" "b_start b + i - b_start ?a = i - ?k"
        using bs(3) ins(2) by auto
      then show ?thesis
        using True that len(2) bs(4) put_inside [OF fit] by simp
    next
      case False
      then have "i < ?k \<or> ?k + length bs \<le> i"
        using bs(3) ins(2) by auto
      then have "put ?k bs (contents S b) ! i = contents S b ! i"
        by (rule put_other [OF fit])
      moreover have "contents S' b ! i = contents S b ! i"
        using False that len(2) bs(4) by auto
      ultimately show ?thesis
        by simp
    qed
  qed
  moreover have "contents S' c = contents S c" if "b_array c \<noteq> b_array b" for c
    using buffer_ops.through_apart [OF assms(2) a] that ins(1) by simp
  ultimately show ?thesis
    using bs(1,2) by blast
qed

definition sample_store :: store where
  "sample_store = \<lparr>arrays = (\<lambda>_. [1, 2, 3, 4, 5, 6]), next_array = 2\<rparr>"

definition sample_buffer :: buffer where
  "sample_buffer = \<lparr>b_array = 0, b_start = 1, b_length = 4\<rparr>"

theorem slices_share_memory_witness:
  "\<exists>S'. through (run_op (Swap 2)) (slice (Some (Fin 1)) (Some (Fin (-1))) sample_buffer) sample_store = Inr (0, S') \<and>
    contents S' sample_buffer = [2, 4, 3, 5]"
proof -
  let ?a = "slice (Some (Fin 1)) (Some (Fin (-1))) sample_buffer"
  have a: "?a = \<lparr>b_array = 0, b_start = 2, b_length = 2\<rparr>"
    by (simp add: slice_def subarray_def relative_def sample_buffer_def)
  have c: "contents sample_store \<lparr>b_array = 0, b_start = 2, b_length = 2\<rparr> = [3, 4]"
    "contents sample_store sample_buffer = [2, 3, 4, 5]"
    by (simp_all add: contents_def window_def sample_store_def sample_buffer_def)
  have r: "run_op (Swap 2) [3, 4] = Inr (0, [4, 3])"
    by (simp add: swap_bytes_def numeral_eq_Suc swap_two_def)
  then obtain S' where S': "through (run_op (Swap 2)) ?a sample_store = Inr (0, S')"
    by (simp add: through_def c a)
  moreover have "buffer_ok sample_store sample_buffer"
    by (simp add: buffer_ok_def sample_store_def sample_buffer_def)
  ultimately have "contents S' sample_buffer = put 1 [4, 3] [2, 3, 4, 5]"
    using slices_share_memory [of sample_store sample_buffer "Swap 2" "Some (Fin 1)" "Some (Fin (-1))" 0 S'] r S'
    unfolding a c by (simp add: sample_buffer_def)
  then show ?thesis
    using S' by (auto simp: put_def)
qed

text \<open>\<open>from\<close> copies. A Buffer made from a Buffer, or from what its \<open>toJSON\<close> returned, holds the same bytes in memory of its own:
  whatever is written to one of the two later, the other keeps its bytes.\<close>

theorem from_makes_a_copy:
  assumes "buffer_ok S b" and "v \<in> {FromBuffer b, buffer_toJSON b S}" and "buffer_from g e k n v S = Inr (c, S1)"
  shows "contents S1 c = contents S b \<and> contents S1 b = contents S b \<and>
    (through (run_op x) c S1 = Inr (r, S2) \<longrightarrow> contents S2 b = contents S b) \<and>
    (through (run_op x) b S1 = Inr (r, S2) \<longrightarrow> contents S2 c = contents S b)"
proof -
  have "map to_byte (map (\<lambda>x. Fin (uint x)) (contents S b)) = contents S b"
    by (simp add: to_byte_def comp_def)
  then have new: "new_array (contents S b) S = (c, S1)"
    using assms(2,3) by (auto simp: buffer_toJSON_def)
  note f = new_array_fresh [OF new]
  have b: "buffer_ok S1 b" "contents S1 b = contents S b" "b_array b \<noteq> b_array c"
    using f(4) [OF assms(1)] by auto
  have "contents S2 b = contents S1 b" if "through (run_op x) c S1 = Inr (r, S2)"
    using buffer_ops.through_apart [OF that f(2)] b(3) by simp
  moreover have "contents S2 c = contents S1 c" if "through (run_op x) b S1 = Inr (r, S2)"
    using buffer_ops.through_apart [OF that b(1)] b(3) by simp
  ultimately show ?thesis
    using f(1) b(2) by auto
qed

text \<open>What \<open>toString\<close> prints, \<open>from\<close> reads. For an encoding that can hold the bytes of a Buffer, the text of the Buffer in that encoding
  makes a new Buffer with the same bytes.\<close>

theorem buffer_text_roundtrip:
  assumes "engine_utf8 g" and "buffer_ok S b" and "text_encoding e = Inr n" and "codecName n = Some c" and "codec_bytes c (contents S b)"
  shows "\<exists>t d S'. buffer_toString e None None b S = Inr t \<and> buffer_from g e None None (FromText t) S = Inr (d, S') \<and>
    contents S' d = contents S b \<and> contents S' b = contents S b"
proof -
  let ?t = "encode c (contents S b)"
  obtain d S' where n: "new_array (contents S b) S = (d, S')"
    by (cases "new_array (contents S b) S")
  have "decode g c ?t = contents S b"
    using codec_roundtrip_bytes [OF assms(1,5)] .
  then have "buffer_from g e None None (FromText ?t) S = Inr (d, S')"
    using assms(3,4) n by (simp add: new_string_def string_bytes_def)
  moreover have "buffer_toString e None None b S = Inr ?t"
    using assms(3,4) by (simp add: buffer_toString_def whole_text_part)
  ultimately show ?thesis
    using new_array_fresh [OF n] assms(2) by blast
qed

text \<open>A pattern that overlaps the Buffer is not repeated: the first byte is written over the pattern before the second is read.\<close>

lemma fill_buffer_overlap:
  "map_sum id (\<lambda>S. contents S sample_buffer)
     (fill_buffer (slice None (Some (Fin 2)) sample_buffer) (Some (Fin 1)) None sample_buffer sample_store) = Inr [2, 2, 2, 2] \<and>
   map_sum id snd (map_sum id (Pair ()) (fill (FBuf [2, 3]) (Some (Fin 1)) None (contents sample_store sample_buffer))) = Inr [2, 2, 3, 2]"
  by code_simp

end
