(* ===== verification/Web_Objects.thy ===== *)
theory Web_Objects
  imports Web_Fetch Web_Abort
begin

text \<open>
  The rest of the objects of \<open>fetch/api.js\<close>: reading a Blob at once and as a stream, iteration over \<open>Headers\<close> and
  \<open>FormData\<close> while they change, \<open>AbortSignal.timeout\<close>, \<open>ProgressEvent\<close>, and the getters of requests, responses
  and bodies. A getter is looked up by its name, as a program does it.
\<close>

section \<open>Reading a Blob\<close>

definition blob_arrayBuffer :: "blob \<Rightarrow> bytes" where
  "blob_arrayBuffer b = blob_bytes b"

definition blob_uint8 :: "blob \<Rightarrow> bytes" where
  "blob_uint8 b = blob_arrayBuffer b"

definition blob_text :: "natives \<Rightarrow> blob \<Rightarrow> string" where
  "blob_text N b = nativeBodyText N (blob_bytes b)"

text \<open>\<open>stream()\<close>: the readers of one stream and its iterator share the variable \<open>consumed\<close>. A call of \<open>read\<close> or \<open>next\<close> gives the bytes,
  or \<open>None\<close> when it is done.\<close>

record blob_stream =
  bs_value :: bytes
  bs_consumed :: bool

definition blob_stream_of :: "blob \<Rightarrow> blob_stream" where
  "blob_stream_of b = \<lparr>bs_value = blob_bytes b, bs_consumed = False\<rparr>"

definition reader_read :: "blob_stream \<Rightarrow> bytes option \<times> blob_stream" where
  "reader_read s = (if bs_consumed s then (None, s) else (Some (bs_value s), s\<lparr>bs_consumed := True\<rparr>))"

definition reader_cancel :: "blob_stream \<Rightarrow> blob_stream" where
  "reader_cancel s = s\<lparr>bs_consumed := True\<rparr>"

definition iterator_next :: "blob_stream \<Rightarrow> bytes option \<times> blob_stream" where
  "iterator_next s = (if bs_consumed s then (None, s) else (Some (bs_value s), s\<lparr>bs_consumed := True\<rparr>))"

text \<open>The time stamp of a \<open>File\<close>: the option, or the clock.\<close>

definition file_lastModified :: "jsnum option \<Rightarrow> jsnum \<Rightarrow> jsnum" where
  "file_lastModified option_value now = (case option_value of Some t \<Rightarrow> t | None \<Rightarrow> now)"

section \<open>Iteration\<close>

text \<open>\<open>forEach\<close> of \<open>Headers\<close> and of \<open>FormData\<close>: a callback gets the value and the name and may change the collection (and a
  state of its own); the entries are those of the moment of the call.\<close>

definition headers_forEach :: "(string \<Rightarrow> string \<Rightarrow> headers \<times> 's \<Rightarrow> headers \<times> 's) \<Rightarrow> headers \<times> 's \<Rightarrow> headers \<times> 's" where
  "headers_forEach callback s = fold (\<lambda>(name, v). callback v name) (sortedHeaderEntries (fst s)) s"

definition form_forEach :: "(form_value \<Rightarrow> string \<Rightarrow> form_data \<times> 's \<Rightarrow> form_data \<times> 's) \<Rightarrow> form_data \<times> 's \<Rightarrow> form_data \<times> 's" where
  "form_forEach callback s = fold (\<lambda>(name, v). callback v name) (fst s) s"

definition headers_keys :: "headers \<Rightarrow> string list" where
  "headers_keys h = map fst (sortedHeaderEntries h)"

definition headers_values :: "headers \<Rightarrow> string list" where
  "headers_values h = map snd (sortedHeaderEntries h)"

definition form_keys :: "form_data \<Rightarrow> string list" where
  "form_keys form = map fst form"

definition form_values :: "form_data \<Rightarrow> form_value list" where
  "form_values form = map snd form"

section \<open>Timeouts\<close>

text \<open>\<open>AbortSignal.timeout(milliseconds)\<close>: \<open>None\<close> when it throws; otherwise the signal, the delay of the timer, and the world with
  the new signal. \<open>timeout_fires\<close> is the timer.\<close>

definition signal_timeout :: "jsnum \<Rightarrow> aworld \<Rightarrow> (nat \<times> int \<times> aworld) option" where
  "signal_timeout ms w = (case ms of
       Fin k \<Rightarrow> if k < 0 then None
         else Some (length (signals w), k, w\<lparr>signals := signals w @ [new_AbortSignal (length (signals w))]\<rparr>)
     | _ \<Rightarrow> None)"

definition timeout_reason :: reason where
  "timeout_reason = DOMException ''The operation timed out'' ''TimeoutError''"

definition timeout_fires :: "listener_code \<Rightarrow> nat \<Rightarrow> nat \<Rightarrow> unit acode" where
  "timeout_fires U n t = abortSignal U n t (Some timeout_reason)"

section \<open>Events\<close>

record progress_event = event +
  pe_lengthComputable :: bool
  pe_loaded :: jsnum
  pe_total :: jsnum

text \<open>\<open>Number(x || 0)\<close> for a number or nothing.\<close>

definition number_or_zero :: "jsnum option \<Rightarrow> jsnum" where
  "number_or_zero x = (case x of Some NaN \<Rightarrow> Fin 0 | Some n \<Rightarrow> n | None \<Rightarrow> Fin 0)"

definition new_ProgressEvent :: "string \<Rightarrow> bool \<Rightarrow> bool \<Rightarrow> bool \<Rightarrow> bool \<Rightarrow> jsnum option \<Rightarrow> jsnum option \<Rightarrow> progress_event" where
  "new_ProgressEvent t bubbles cancelable composed computable loaded tot =
     event.extend (new_Event t bubbles cancelable composed)
       \<lparr>pe_lengthComputable = computable, pe_loaded = number_or_zero loaded, pe_total = number_or_zero tot\<rparr>"

definition composedPath :: "'t option \<Rightarrow> 't list" where
  "composedPath target = (case target of None \<Rightarrow> [] | Some t \<Rightarrow> [t])"

section \<open>Getters\<close>

datatype property = PText string | PBool bool | PInt int | PNull | PHeaders headers | PSignal nat

definition request_property :: "string \<Rightarrow> request \<Rightarrow> property option" where
  "request_property name q = map_of [
     (''cache'', PText (q_cache q)), (''credentials'', PText (q_credentials q)), (''destination'', PText []),
     (''headers'', PHeaders (q_headers q)), (''integrity'', PText (q_integrity q)), (''keepalive'', PBool (q_keepalive q)),
     (''method'', PText (q_method q)), (''mode'', PText (q_mode q)), (''redirect'', PText (q_redirect q)),
     (''referrer'', PText (q_referrer q)), (''referrerPolicy'', PText (q_referrerPolicy q)), (''signal'', PSignal (q_signal q)),
     (''url'', PText (q_url q)), (''duplex'', PText ''half'')] name"

definition response_property :: "string \<Rightarrow> response \<Rightarrow> property option" where
  "response_property name p = map_of [
     (''headers'', PHeaders (p_headers p)), (''ok'', PBool (200 \<le> p_status p \<and> p_status p \<le> 299)),
     (''redirected'', PBool (p_redirected p)), (''status'', PInt (p_status p)), (''statusText'', PText (p_statusText p)),
     (''type'', PText (p_type p)), (''url'', PText (p_url p))] name"

definition body_property :: "string \<Rightarrow> body \<Rightarrow> property option" where
  "body_property name b = map_of [(''body'', PNull), (''bodyUsed'', PBool (bodyUsed b))] name"

section \<open>Properties\<close>

datatype stream_call = Read | Next | Cancel

primrec stream_step :: "stream_call \<Rightarrow> blob_stream \<Rightarrow> bytes option \<times> blob_stream" where
  "stream_step Read s = reader_read s"
| "stream_step Next s = iterator_next s"
| "stream_step Cancel s = (None, reader_cancel s)"

primrec stream_run :: "stream_call list \<Rightarrow> blob_stream \<Rightarrow> bytes list" where
  "stream_run [] s = []"
| "stream_run (c # cs) s = (case stream_step c s of
     (None, s') \<Rightarrow> stream_run cs s' | (Some bs, s') \<Rightarrow> bs # stream_run cs s')"

lemma stream_run_consumed: "bs_consumed s \<Longrightarrow> stream_run cs s = []"
proof (induction cs arbitrary: s)
  case (Cons c cs)
  then show ?case by (cases c) (simp_all add: reader_read_def iterator_next_def reader_cancel_def)
qed simp

text \<open>The stream of a Blob gives its bytes once. However the calls of its readers and of its iterator are mixed, the first of them gets all
  bytes of the Blob and no other gets any, unless it was cancelled before; an empty Blob gives one empty chunk.\<close>

theorem blob_stream_once:
  "stream_run cs (blob_stream_of b) = (case cs of [] \<Rightarrow> [] | Cancel # _ \<Rightarrow> [] | _ \<Rightarrow> [blob_arrayBuffer b])"
  by (cases cs)
    (auto simp: blob_stream_of_def reader_read_def iterator_next_def reader_cancel_def stream_run_consumed blob_arrayBuffer_def
      split: stream_call.split)

lemma fold_log:
  "snd (fold (\<lambda>(name, v) s. (f v name (fst s), snd s @ [(name, v)])) xs s) = snd s @ xs"
  by (induction xs arbitrary: s) (auto simp: case_prod_beta)

text \<open>\<open>forEach\<close> is not disturbed by changes. Whatever the callback does to the collection it is called for, it is called once for each
  entry that was there at the start, in order (for headers, in the order of their names).\<close>

theorem forEach_sees_snapshot:
  "snd (headers_forEach (\<lambda>v name s. (f v name (fst s), snd s @ [(name, v)])) (h, [])) = sortedHeaderEntries h \<and>
   snd (form_forEach (\<lambda>v name s. (k v name (fst s), snd s @ [(name, v)])) (form, [])) = form"
  using fold_log [of f "sortedHeaderEntries h" "(h, [])"] fold_log [of k form "(form, [])"]
  by (simp add: headers_forEach_def form_forEach_def)

text \<open>A timeout aborts its signal once. \<open>AbortSignal.timeout\<close> throws exactly for NaN, infinities and negative numbers; its signal starts
  unaborted; and when the timer fires in any later state, the signal ends up aborted, with a \<open>TimeoutError\<close> (code 23) unless it had been
  aborted before, in which case it keeps its reason.\<close>

theorem timeout_aborts_once:
  "(signal_timeout ms w = None \<longleftrightarrow> (\<forall>k. ms = Fin k \<longrightarrow> k < 0)) \<and>
   (\<forall>t d w1. signal_timeout ms w = Some (t, d, w1) \<longrightarrow> ms = Fin d \<and> t < length (signals w1) \<and> \<not> aborted (signals w1 ! t)) \<and>
   (\<forall>t w2. t < length (signals w2) \<longrightarrow> (let w3 = snd (timeout_fires U (Suc n) t w2) in
      aborted (signals w3 ! t) \<and>
      (\<not> aborted (signals w2 ! t) \<longrightarrow> abort_reason (signals w3 ! t) = Some timeout_reason \<and> dom_code timeout_reason = 23) \<and>
      (aborted (signals w2 ! t) \<longrightarrow> abort_reason (signals w3 ! t) = abort_reason (signals w2 ! t))))"
proof (intro conjI)
  show "signal_timeout ms w = None \<longleftrightarrow> (\<forall>k. ms = Fin k \<longrightarrow> k < 0)"
    by (cases ms) (auto simp: signal_timeout_def)
  show "\<forall>t d w1. signal_timeout ms w = Some (t, d, w1) \<longrightarrow> ms = Fin d \<and> t < length (signals w1) \<and> \<not> aborted (signals w1 ! t)"
    by (cases ms) (auto simp: signal_timeout_def new_AbortSignal_def split: if_splits)
  have "dom_code timeout_reason = 23"
    by (simp add: dom_code_def timeout_reason_def dom_codes_def)
  then show "\<forall>t w2. t < length (signals w2) \<longrightarrow> (let w3 = snd (timeout_fires U (Suc n) t w2) in
      aborted (signals w3 ! t) \<and>
      (\<not> aborted (signals w2 ! t) \<longrightarrow> abort_reason (signals w3 ! t) = Some timeout_reason \<and> dom_code timeout_reason = 23) \<and>
      (aborted (signals w2 ! t) \<longrightarrow> abort_reason (signals w3 ! t) = abort_reason (signals w2 ! t)))"
    using abort_done [of _ _ "Some timeout_reason" U n]
    by (auto simp: timeout_fires_def stays_aborted_def Let_def)
qed

end
