(* ===== verification/Stream_Info.thy ===== *)
theory Stream_Info
  imports Stream_Properties Stream_Async
begin

text \<open>
  What a program can ask a stream of \<open>stream/stream.js\<close>: the getters of \<open>Readable\<close> and \<open>Writable\<close>, looked up by their names, the
  methods that a bare stream and a \<open>Transform\<close> without hooks have, and the arguments and the result of \<open>finished\<close>. A \<open>Duplex\<close> has the getters of
  both; those of \<open>Writable\<close> were copied over those of \<open>Readable\<close>.
\<close>

section \<open>Getters\<close>

definition flowing_val :: "bool option \<Rightarrow> val" where
  "flowing_val f = (case f of None \<Rightarrow> VNull | Some b \<Rightarrow> VBool b)"

definition readable_property :: "string \<Rightarrow> stream \<Rightarrow> val option" where
  "readable_property name ob = (let st = rstate ob in map_of [
     (''readable'', VBool (r_readable st)), (''readableFlowing'', flowing_val (r_flowing st)), (''readableEnded'', VBool (r_endEmitted st)),
     (''readableLength'', VNum (r_length st)), (''readableHighWaterMark'', VNum (r_highWaterMark st)),
     (''readableObjectMode'', VBool (r_objectMode st)), (''readableEncoding'', r_encoding st),
     (''readableAborted'', VBool (r_destroyed st \<and> \<not> r_endEmitted st)), (''readableDidRead'', VBool (r_disturbed st)),
     (''destroyed'', VBool (r_destroyed st)), (''errored'', r_errored st)] name)"

definition writable_property :: "string \<Rightarrow> stream \<Rightarrow> val option" where
  "writable_property name ob = (let st = wstate ob in map_of [
     (''writable'', VBool (w_writable st)), (''writableEnded'', VBool (w_ended st)), (''writableFinished'', VBool (w_finished st)),
     (''writableLength'', VNum (Fin (w_length st))), (''writableHighWaterMark'', VNum (w_highWaterMark st)),
     (''writableObjectMode'', VBool (w_objectMode st)), (''writableCorked'', VNum (Fin (w_corked st))),
     (''writableNeedDrain'', VBool (w_needDrain st)), (''destroyed'', VBool (w_destroyed st)), (''errored'', w_errored st)] name)"

text \<open>The loop that copies the properties of \<open>Writable\<close> to \<open>Duplex\<close>, seen from a program: on a stream with a writable side its
  getters come first.\<close>

definition stream_property :: "string \<Rightarrow> stream \<Rightarrow> val" where
  "stream_property name ob =
     (case (if has_w ob then writable_property name ob else None) of
        Some v \<Rightarrow> v
      | None \<Rightarrow> (case (if has_r ob then readable_property name ob else None) of Some v \<Rightarrow> v | None \<Rightarrow> VUndef))"

section \<open>Arguments and result of finished\<close>

text \<open>\<open>options\<close> may be the callback. A value that is no stream fails at once: the callback is called later with the error, or a rejected
  promise is returned.\<close>

datatype 'o finished_start =
    Misuse "val option" \<comment> \<open>the callback that is scheduled with the error, or a rejected promise\<close>
  | Start 'o "val option"

definition finished_arguments :: "bool \<Rightarrow> 'o \<Rightarrow> ('o + val) option \<Rightarrow> val \<Rightarrow> 'o finished_start" where
  "finished_arguments is_stream no_options0 opts callback =
     (let cb = (case opts of Some (Inr f) \<Rightarrow> f | _ \<Rightarrow> callback); o1 = (case opts of Some (Inl x) \<Rightarrow> x | _ \<Rightarrow> no_options0);
          c = (if is_function cb then Some cb else None)
      in if \<not> is_stream then Misuse c else Start o1 c)"

text \<open>With a callback, \<open>finished\<close> returns the function that removes its listeners, and the callback is called with null or the error when the promise
  is settled; without one it returns the promise.\<close>

definition finished_callback :: "fin \<Rightarrow> val option" where
  "finished_callback f = map_option (\<lambda>e. case e of None \<Rightarrow> VNull | Some x \<Rightarrow> x) (fin_result f)"

definition removeListeners :: "fin \<Rightarrow> fin" where
  "removeListeners f = f\<lparr>fin_events := []\<rparr>"

section \<open>What the getters say\<close>

lemma stream_property_write: "has_w ob \<Longrightarrow> writable_property name ob = Some v \<Longrightarrow> stream_property name ob = v"
  by (simp add: stream_property_def)

lemma stream_property_read:
  "has_r ob \<Longrightarrow> (has_w ob \<Longrightarrow> writable_property name ob = None) \<Longrightarrow> readable_property name ob = Some v \<Longrightarrow> stream_property name ob = v"
  by (simp add: stream_property_def)

text \<open>The getters agree with each other. In every reachable world \<open>writableFinished\<close> implies \<open>writableEnded\<close>; \<open>readableEnded\<close> comes only after the source
  has ended, and then \<open>readableAborted\<close> is false; \<open>writableCorked\<close> is never negative; \<open>writableLength\<close> is the length of the writes that are not complete,
  unless the stream is destroyed; and on a Duplex, where \<open>destroyed\<close> is read from the writable side, the readable side has the same value.\<close>

theorem getters_agree:
  assumes "reachable U w" and "ob = heap w s"
  shows "(has_w ob \<longrightarrow>
      (stream_property ''writableFinished'' ob = VBool True \<longrightarrow> stream_property ''writableEnded'' ob = VBool True) \<and>
      (\<exists>n. stream_property ''writableCorked'' ob = VNum (Fin n) \<and> 0 \<le> n) \<and>
      (stream_property ''destroyed'' ob = VBool False \<longrightarrow> stream_property ''writableLength'' ob =
         VNum (Fin (items_length (w_objectMode (wstate ob)) (current_write ob @ queued ob))))) \<and>
    (has_r ob \<longrightarrow> stream_property ''readableEnded'' ob = VBool True \<longrightarrow>
      r_ended (rstate ob) \<and> stream_property ''readableAborted'' ob = VBool False) \<and>
    (has_r ob \<and> has_w ob \<longrightarrow> Some (stream_property ''destroyed'' ob) = readable_property ''destroyed'' ob)"
proof -
  have w: "writable_ok s ob" and l: "lifecycle_ok s ob"
    unfolding assms(2)
    using reachable_invariant [OF writable.stream_laws_axioms writable_ok_new(4) assms(1), of s]
      reachable_invariant [OF lifecycle.stream_laws_axioms lifecycle_ok_new(4) assms(1), of s] by auto
  note props = writable_property_def readable_property_def Let_def stream_property_def
  have "has_w ob \<longrightarrow>
      (stream_property ''writableFinished'' ob = VBool True \<longrightarrow> stream_property ''writableEnded'' ob = VBool True) \<and>
      (\<exists>n. stream_property ''writableCorked'' ob = VNum (Fin n) \<and> 0 \<le> n) \<and>
      (stream_property ''destroyed'' ob = VBool False \<longrightarrow> stream_property ''writableLength'' ob =
         VNum (Fin (items_length (w_objectMode (wstate ob)) (current_write ob @ queued ob))))"
    using w by (auto simp: writable_ok_def writable_flags_def writable_length_def props)
  moreover have "has_r ob \<longrightarrow> stream_property ''readableEnded'' ob = VBool True \<longrightarrow>
      r_ended (rstate ob) \<and> stream_property ''readableAborted'' ob = VBool False"
    using l by (auto simp: lifecycle_ok_def props split: if_splits)
  moreover have "has_r ob \<and> has_w ob \<longrightarrow> Some (stream_property ''destroyed'' ob) = readable_property ''destroyed'' ob"
    using l by (simp add: lifecycle_ok_def props)
  ultimately show ?thesis
    by blast
qed

text \<open>A callback of \<open>finished\<close> is called once. After events that a stream can emit, it has been called with a value that no later event
  changes, which is null or an error that is truthy, and it has been called when the stream has emitted \<open>close\<close>.\<close>

theorem finished_calls_back_once:
  assumes "\<not> fin_done f" and "fin_result f = None" and "EvClose \<in> set (fin_events f)"
  shows "(finished_callback (run_acts fin_act as f) \<noteq> None \<longrightarrow>
      finished_callback (run_acts fin_act (as @ bs) f) = finished_callback (run_acts fin_act as f)) \<and>
    (\<forall>v. finished_callback (run_acts fin_act as f) = Some v \<longrightarrow> v = VNull \<or> truthy v) \<and>
    finished_callback (run_acts fin_act (as @ [FEvent EvClose x ob]) f) \<noteq> None"
proof -
  define inv where "inv g \<longleftrightarrow> (fin_done g \<longleftrightarrow> fin_result g \<noteq> None) \<and> (\<forall>e. fin_result g = Some (Some e) \<longrightarrow> truthy e) \<and>
    (\<not> fin_done g \<longrightarrow> EvClose \<in> set (fin_events g))" for g :: fin
  have settled: "inv (settle e g)" if "inv g" for e g
    using that by (auto simp: inv_def settle_def)
  then have step: "inv (fin_act a g)" if "inv g" for a g
    using that by (cases a) (simp_all add: fin_event_def fin_onclose_def fin_abort_def split: evname.split)
  have run: "inv (run_acts fin_act xs g)" if "inv g" for xs g
    using that by (induction xs arbitrary: g) (simp_all add: step)
  have ok: "inv (run_acts fin_act as f)"
    using assms by (intro run) (simp add: inv_def)
  then have "finished_callback (fin_act (FEvent EvClose x ob) (run_acts fin_act as f)) \<noteq> None"
    by (auto simp: inv_def finished_callback_def fin_event_def fin_onclose_def settle_def)
  then show ?thesis
    using ok fin_done_stays [of "run_acts fin_act as f" bs]
    by (auto simp: inv_def finished_callback_def run_acts_append split: option.splits)
qed

end
