(* ===== verification/Next_Tick.thy ===== *)
theory Next_Tick
  imports JS_Prelude
begin

text \<open>
  \<open>process.nextTick\<close> and \<open>queueMicrotask\<close>: \<open>process/nexttick.js\<close>, which turns a call into a microtask with a promise, the queue of
  \<open>process/nexttick.go\<close> that it serves, and \<open>globals.js\<close>.

  The state holds the queue of ticks with its two flags, the queue of microtasks, and the promises of the scheduler. A callback is a number;
  what it does is the list of its actions \<open>A\<close>, where \<open>A w t\<close> may depend on the state. The engine runs microtasks one after the other
  when no code runs, and a turn when no microtask is left. \<open>history\<close> fields record what was asked for and what ran.
\<close>

section \<open>State\<close>

datatype microtask = Drain | Reaction nat

datatype action = NextTick nat | QueueMicrotask nat

record tick_state =
  next_ticks :: "nat list"
  tick_scheduled :: bool
  tick_draining :: bool
  microtasks :: "microtask list"
  checkpoint :: nat \<comment> \<open>the promise whose resolution is \<open>resolveCheckpoint\<close>\<close>
  promises_made :: nat
  resolved :: "nat list"
  ticks_asked :: "nat list"
  ticks_run :: "nat list"

section \<open>The scheduler\<close>

text \<open>\<open>prepare\<close>: a new promise with the reaction \<open>nativeDrain\<close>.\<close>

definition prepare :: "tick_state \<Rightarrow> tick_state" where
  "prepare w = w\<lparr>checkpoint := promises_made w, promises_made := Suc (promises_made w)\<rparr>"

text \<open>Resolving a promise with a reaction puts the reaction into the queue of microtasks.\<close>

definition resolve_checkpoint :: "nat \<Rightarrow> tick_state \<Rightarrow> tick_state" where
  "resolve_checkpoint p w = (if p \<in> set (resolved w) then w else w\<lparr>resolved := resolved w @ [p], microtasks := microtasks w @ [Drain]\<rparr>)"

definition schedule_tick :: "tick_state \<Rightarrow> tick_state" where
  "schedule_tick w = (let p = checkpoint w in resolve_checkpoint p (prepare w))"

definition start_ticks :: tick_state where
  "start_ticks = prepare \<lparr>next_ticks = [], tick_scheduled = False, tick_draining = False, microtasks = [], checkpoint = 0,
     promises_made = 0, resolved = [], ticks_asked = [], ticks_run = []\<rparr>"

section \<open>The queue\<close>

definition enqueueNextTick :: "nat \<Rightarrow> tick_state \<Rightarrow> tick_state" where
  "enqueueNextTick t w =
     (let w1 = w\<lparr>next_ticks := next_ticks w @ [t], ticks_asked := ticks_asked w @ [t]\<rparr>
      in if \<not> tick_scheduled w \<and> \<not> tick_draining w then schedule_tick (w1\<lparr>tick_scheduled := True\<rparr>) else w1)"

text \<open>\<open>queueMicrotask(callback)\<close> for a function; otherwise it throws.\<close>

definition queueMicrotask :: "nat option \<Rightarrow> tick_state \<Rightarrow> tick_state option" where
  "queueMicrotask callback w = (case callback of None \<Rightarrow> None | Some c \<Rightarrow> Some (w\<lparr>microtasks := microtasks w @ [Reaction c]\<rparr>))"

definition act :: "action \<Rightarrow> tick_state \<Rightarrow> tick_state" where
  "act a w = (case a of
       NextTick t \<Rightarrow> enqueueNextTick t w
     | QueueMicrotask c \<Rightarrow> (case queueMicrotask (Some c) w of Some w' \<Rightarrow> w' | None \<Rightarrow> w))"

definition run_callback :: "action list \<Rightarrow> tick_state \<Rightarrow> tick_state" where
  "run_callback acts w = fold act acts w"

text \<open>\<open>drainNextTicks\<close>, split where it calls a callback: its beginning, one round of its loop, and its end.\<close>

definition drain_ticks_begin :: "tick_state \<Rightarrow> tick_state" where
  "drain_ticks_begin w = w\<lparr>tick_draining := True, tick_scheduled := False\<rparr>"

definition drain_round :: "(tick_state \<Rightarrow> nat \<Rightarrow> action list) \<Rightarrow> tick_state \<Rightarrow> tick_state" where
  "drain_round A w = (case next_ticks w of
       [] \<Rightarrow> w\<lparr>tick_draining := False\<rparr>
     | t # ts \<Rightarrow> (let w1 = w\<lparr>next_ticks := ts, ticks_run := ticks_run w @ [t]\<rparr> in run_callback (A w1 t) w1))"

text \<open>\<open>RunTurn\<close> with the function \<open>run\<close> of the scheduler: the checkpoint is resolved before the job runs.\<close>

definition run_turn :: "action list \<Rightarrow> tick_state \<Rightarrow> tick_state" where
  "run_turn job w = run_callback job (schedule_tick (w\<lparr>tick_scheduled := True\<rparr>))"

text \<open>The engine.\<close>

inductive tick_step :: "(tick_state \<Rightarrow> nat \<Rightarrow> action list) \<Rightarrow> tick_state \<Rightarrow> tick_state \<Rightarrow> bool" for A where
  turn: "\<not> tick_draining w \<Longrightarrow> microtasks w = [] \<Longrightarrow> tick_step A w (run_turn job w)"
| drain: "\<not> tick_draining w \<Longrightarrow> microtasks w = Drain # ms \<Longrightarrow> tick_step A w (drain_ticks_begin (w\<lparr>microtasks := ms\<rparr>))"
| round: "tick_draining w \<Longrightarrow> tick_step A w (drain_round A w)"
| reaction: "\<not> tick_draining w \<Longrightarrow> microtasks w = Reaction c # ms \<Longrightarrow>
    tick_step A w (run_callback (A (w\<lparr>microtasks := ms\<rparr>) c) (w\<lparr>microtasks := ms\<rparr>))"

inductive tick_reachable :: "(tick_state \<Rightarrow> nat \<Rightarrow> action list) \<Rightarrow> tick_state \<Rightarrow> bool" for A where
  start: "tick_reachable A start_ticks"
| more: "tick_reachable A w \<Longrightarrow> tick_step A w w' \<Longrightarrow> tick_reachable A w'"

inductive_cases tick_stepE: "tick_step A w w'"

section \<open>The invariant\<close>

text \<open>A tick that waits will be drained: the queue is being drained or it is scheduled, and then a drain is among the microtasks. The current
  checkpoint was never resolved, and the ticks run and those that wait are the ones asked for.\<close>

definition ticks_ok :: "tick_state \<Rightarrow> bool" where
  "ticks_ok w \<longleftrightarrow> (tick_scheduled w \<longrightarrow> Drain \<in> set (microtasks w)) \<and>
     (next_ticks w \<noteq> [] \<longrightarrow> tick_scheduled w \<or> tick_draining w) \<and>
     checkpoint w < promises_made w \<and> distinct (resolved w) \<and> (\<forall>p \<in> set (resolved w). p < checkpoint w) \<and>
     ticks_run w @ next_ticks w = ticks_asked w"

definition sound :: "tick_state \<Rightarrow> bool" where
  "sound w \<longleftrightarrow> checkpoint w < promises_made w \<and> distinct (resolved w) \<and> (\<forall>p \<in> set (resolved w). p < checkpoint w)"

lemma schedule_tick_fields [simp]:
  assumes "sound w"
  shows "microtasks (schedule_tick w) = microtasks w @ [Drain]" "next_ticks (schedule_tick w) = next_ticks w"
    "tick_scheduled (schedule_tick w) = tick_scheduled w" "tick_draining (schedule_tick w) = tick_draining w"
    "ticks_asked (schedule_tick w) = ticks_asked w" "ticks_run (schedule_tick w) = ticks_run w" "sound (schedule_tick w)"
  using assms by (auto simp: schedule_tick_def resolve_checkpoint_def prepare_def sound_def Let_def)

lemma ticks_ok_sound: "ticks_ok w \<Longrightarrow> sound w"
  by (simp add: ticks_ok_def sound_def)

lemma sound_cong: "checkpoint w' = checkpoint w \<Longrightarrow> promises_made w' = promises_made w \<Longrightarrow> resolved w' = resolved w \<Longrightarrow> sound w' = sound w"
  by (simp add: sound_def)

lemma ticks_ok_alt:
  "ticks_ok w \<longleftrightarrow> (tick_scheduled w \<longrightarrow> Drain \<in> set (microtasks w)) \<and>
     (next_ticks w \<noteq> [] \<longrightarrow> tick_scheduled w \<or> tick_draining w) \<and> sound w \<and> ticks_run w @ next_ticks w = ticks_asked w"
  by (auto simp: ticks_ok_def sound_def)

lemma ticks_ok_act: "ticks_ok w \<Longrightarrow> ticks_ok (act a w) \<and> tick_draining (act a w) = tick_draining w"
proof (cases a)
  case (NextTick t)
  assume w: "ticks_ok w"
  define w1 where "w1 = w\<lparr>next_ticks := next_ticks w @ [t], ticks_asked := ticks_asked w @ [t]\<rparr>"
  have "sound (w1\<lparr>tick_scheduled := True\<rparr>)" "sound w1"
    using ticks_ok_sound [OF w] by (simp_all add: w1_def sound_def)
  then show ?thesis
    using w NextTick by (auto simp: act_def enqueueNextTick_def ticks_ok_alt Let_def w1_def [symmetric]) (auto simp: w1_def)
next
  case (QueueMicrotask c)
  assume w: "ticks_ok w"
  then show ?thesis
    using QueueMicrotask by (auto simp: act_def queueMicrotask_def ticks_ok_def)
qed

lemma ticks_ok_callback: "ticks_ok w \<Longrightarrow> ticks_ok (run_callback acts w) \<and> tick_draining (run_callback acts w) = tick_draining w"
  unfolding run_callback_def by (induction acts arbitrary: w) (simp_all add: ticks_ok_act)

lemma ticks_ok_step: "tick_step A w w' \<Longrightarrow> ticks_ok w \<Longrightarrow> ticks_ok w'"
proof (induction rule: tick_step.induct)
  case (turn w job)
  then have "ticks_ok (schedule_tick (w\<lparr>tick_scheduled := True\<rparr>))"
    using ticks_ok_sound [of w] by (simp add: ticks_ok_alt sound_def [of "w\<lparr>tick_scheduled := True\<rparr>"] sound_def [of w])
  then show ?case
    by (simp add: run_turn_def ticks_ok_callback)
next
  case (drain w ms)
  then show ?case
    by (auto simp: ticks_ok_def drain_ticks_begin_def)
next
  case (round w)
  show ?case
  proof (cases "next_ticks w")
    case (Cons t ts)
    then have "ticks_ok (w\<lparr>next_ticks := ts, ticks_run := ticks_run w @ [t]\<rparr>)"
      using round by (auto simp: ticks_ok_def)
    then show ?thesis
      using Cons by (simp add: drain_round_def Let_def ticks_ok_callback)
  qed (use round in \<open>auto simp: drain_round_def ticks_ok_def\<close>)
next
  case (reaction w c ms)
  then have "ticks_ok (w\<lparr>microtasks := ms\<rparr>)"
    by (auto simp: ticks_ok_def)
  then show ?case
    by (simp add: ticks_ok_callback)
qed

lemma reachable_ticks_ok: "tick_reachable A w \<Longrightarrow> ticks_ok w"
  by (induction rule: tick_reachable.induct)
    (simp add: ticks_ok_def start_ticks_def prepare_def, rule ticks_ok_step)

section \<open>Properties\<close>

text \<open>C27: No tick is lost. Whatever the callbacks do, ticks run in the order in which they were asked for, each once; a tick that waits is going to be
  drained, by the drain that is under way or by one among the microtasks; so when no microtask is left, every tick has run.\<close>

theorem next_ticks_never_lost:
  assumes "tick_reachable A w"
  shows "ticks_run w @ next_ticks w = ticks_asked w \<and>
    (next_ticks w \<noteq> [] \<longrightarrow> tick_draining w \<or> Drain \<in> set (microtasks w)) \<and>
    (microtasks w = [] \<and> \<not> tick_draining w \<longrightarrow> ticks_run w = ticks_asked w) \<and> distinct (resolved w)"
  using reachable_ticks_ok [OF assms] by (auto simp: ticks_ok_def)

theorem next_ticks_never_lost_witness:
  "ticks_run (drain_round (\<lambda>_ _. []) (drain_ticks_begin ((run_turn [NextTick 4] start_ticks)\<lparr>microtasks := []\<rparr>))) = [4] \<and>
   Drain \<in> set (microtasks (run_turn [NextTick 4] start_ticks))"
proof -
  let ?w = "run_turn [NextTick 4] start_ticks"
  have m: "microtasks ?w = [Drain]" "next_ticks ?w = [4]" "\<not> tick_draining ?w" "ticks_run ?w = []" "ticks_asked ?w = [4]"
    by (simp_all add: run_turn_def run_callback_def start_ticks_def schedule_tick_def resolve_checkpoint_def prepare_def act_def
        enqueueNextTick_def Let_def)
  have "tick_reachable (\<lambda>_ _. []) ?w"
    by (rule tick_reachable.more [OF tick_reachable.start turn]) (simp_all add: start_ticks_def prepare_def)
  then have "Drain \<in> set (microtasks ?w)"
    using next_ticks_never_lost [of "\<lambda>_ _. []" ?w] m by simp
  then show ?thesis
    using m by (simp add: drain_round_def drain_ticks_begin_def run_callback_def)
qed

text \<open>Ticks come before promises. A turn resolves the checkpoint before its job runs, so the drain is the first of the microtasks: the ticks that the
  job asks for run before any reaction that the job queues.\<close>

lemma callback_appends: "ticks_ok w \<Longrightarrow> \<exists>ms. microtasks (run_callback acts w) = microtasks w @ ms"
  unfolding run_callback_def
proof (induction acts arbitrary: w)
  case (Cons a acts)
  have "\<exists>ms. microtasks (act a w) = microtasks w @ ms"
  proof (cases a)
    case (NextTick t)
    have "sound (w\<lparr>next_ticks := next_ticks w @ [t], ticks_asked := ticks_asked w @ [t], tick_scheduled := True\<rparr>)"
      using ticks_ok_sound [OF Cons.prems] by (simp add: sound_def)
    then show ?thesis
      using NextTick by (simp add: act_def enqueueNextTick_def Let_def)
  qed (simp add: act_def queueMicrotask_def)
  then show ?case
    using Cons.IH [of "act a w"] ticks_ok_act [OF Cons.prems, of a] by auto
qed simp

theorem ticks_before_reactions:
  assumes "tick_reachable A w" and "\<not> tick_draining w" and "microtasks w = []"
  shows "\<exists>ms. microtasks (run_turn job w) = Drain # ms"
proof -
  have "ticks_ok (w\<lparr>tick_scheduled := True, microtasks := [Drain]\<rparr>)" and s: "sound (w\<lparr>tick_scheduled := True\<rparr>)"
    using reachable_ticks_ok [OF assms(1)] by (auto simp: ticks_ok_def sound_def)
  then have "ticks_ok (schedule_tick (w\<lparr>tick_scheduled := True\<rparr>))"
    using s by (auto simp: ticks_ok_alt)
  then show ?thesis
    using callback_appends [of "schedule_tick (w\<lparr>tick_scheduled := True\<rparr>)" job] s assms(3) by (simp add: run_turn_def)
qed

end
