(* ===== verification/Promise_Glue.thy ===== *)
theory Promise_Glue
  imports Stream_State
begin

text \<open>
  Callbacks and promises: \<open>promisify\<close> and \<open>callbackify\<close> of \<open>util/util.js\<close>, the functions of \<open>fs/promises.js\<close>, and
  \<open>EventEmitter.once\<close> of \<open>events/events.js\<close>.

  A function with a callback is known by what it does with it: it throws at once, or not; and it calls the callback, now or
  later, any number of times. A promise takes the first settlement and ignores the others.
\<close>

section \<open>Settling once\<close>

datatype promise = Pending | Fulfilled val | Rejected val

definition settle_once :: "promise \<Rightarrow> promise \<Rightarrow> promise" where
  "settle_once new p = (case p of Pending \<Rightarrow> new | _ \<Rightarrow> p)"

text \<open>A promise after the calls of its callback with these argument lists; \<open>f\<close> says what one call does. An exception in the executor
  rejects the promise, unless it was settled before.\<close>

record behaviour =
  calls_before :: "val list list" \<comment> \<open>calls of the callback before the function returns or throws\<close>
  throws :: "val option"
  calls_after :: "val list list"

definition promise_of :: "(val list \<Rightarrow> promise) \<Rightarrow> behaviour \<Rightarrow> promise" where
  "promise_of f b =
     (let p1 = fold (\<lambda>args. settle_once (f args)) (calls_before b) Pending;
          p2 = (case throws b of Some e \<Rightarrow> settle_once (Rejected e) p1 | None \<Rightarrow> p1)
      in fold (\<lambda>args. settle_once (f args)) (calls_after b) p2)"

section \<open>The functions\<close>

definition node_callback :: "val list \<Rightarrow> promise" where
  "node_callback args = (if truthy (arg 0 args) then Rejected (arg 0 args) else Fulfilled (arg 1 args))"

definition promisify :: "behaviour \<Rightarrow> promise" where
  "promisify = promise_of node_callback"

text \<open>\<open>callbackify\<close>: what the callback is called with when the promise settles, \<open>None\<close> while it is pending. The last argument has to be a
  function.\<close>

definition callbackify_result :: "promise \<Rightarrow> val list option" where
  "callbackify_result p = (case p of
       Pending \<Rightarrow> None
     | Fulfilled v \<Rightarrow> Some [VNull, v]
     | Rejected e \<Rightarrow> Some [if truthy e then e else VErr Error ''Promise rejected with falsy value''])"

definition callbackify :: "val list \<Rightarrow> (val list \<Rightarrow> promise) \<Rightarrow> val + val list option" where
  "callbackify args f =
     (if args \<noteq> [] \<and> is_function (last args) then Inr (callbackify_result (f (butlast args))) else Inl (VErr TypeError ''Callback must be a function''))"

section \<open>fs.promises\<close>

definition fs_methods :: "string list" where
  "fs_methods = [''readFile'', ''writeFile'', ''appendFile'', ''access'', ''stat'', ''lstat'', ''readdir'', ''mkdir'', ''rm'', ''unlink'', ''rmdir'',
     ''rename'', ''copyFile'', ''realpath'', ''readlink'', ''symlink'', ''truncate'', ''chmod'', ''utimes'', ''mkdtemp'', ''close'', ''fstat'', ''fsync'']"

definition fs_promise :: "behaviour \<Rightarrow> promise" where
  "fs_promise = promise_of (\<lambda>args. if truthy (arg 0 args) then Rejected (arg 0 args) else Fulfilled (arg 1 args))"

text \<open>\<open>read\<close> and \<open>write\<close> fulfil with an object of the number of bytes and the buffer, here an array of the two.\<close>

definition fs_read_promise :: "behaviour \<Rightarrow> promise" where
  "fs_read_promise = promise_of (\<lambda>args. if truthy (arg 0 args) then Rejected (arg 0 args) else Fulfilled (VArr [arg 1 args, arg 2 args]))"

definition fs_write_promise :: "behaviour \<Rightarrow> promise" where
  "fs_write_promise = promise_of (\<lambda>args. if truthy (arg 0 args) then Rejected (arg 0 args) else Fulfilled (VArr [arg 1 args, arg 2 args]))"

text \<open>The handle that \<open>open\<close> fulfils with is known by its descriptor; a call of one of its methods is a call of a function of \<open>fs.promises\<close>.\<close>

definition fs_open_promise :: "behaviour \<Rightarrow> promise" where
  "fs_open_promise = promise_of (\<lambda>args. if truthy (arg 0 args) then Rejected (arg 0 args) else Fulfilled (arg 1 args))"

definition fileHandle :: "val \<Rightarrow> string \<Rightarrow> val list \<Rightarrow> (string \<times> val list) option" where
  "fileHandle fd name args = map_of [
     (''close'', (''close'', [fd])), (''stat'', (''fstat'', [fd])), (''sync'', (''fsync'', [fd])),
     (''read'', (''read'', fd # args)), (''write'', (''write'', fd # args))] name"

section \<open>EventEmitter.once\<close>

text \<open>The events that come after the call, with their arguments: the first with the name fulfils the promise with the array of its
  arguments, the first \<open>error\<close> rejects it unless that is the name.\<close>

definition once_event :: "string \<Rightarrow> string \<times> val list \<Rightarrow> promise \<Rightarrow> promise" where
  "once_event name e p =
     (if fst e = name then settle_once (Fulfilled (VArr (snd e))) p
      else if fst e = ''error'' then settle_once (Rejected (arg 0 (snd e))) p else p)"

definition once_promise :: "string \<Rightarrow> (string \<times> val list) list \<Rightarrow> promise" where
  "once_promise name events = fold (once_event name) events Pending"

section \<open>Properties\<close>

lemma fold_settled: "p \<noteq> Pending \<Longrightarrow> fold (\<lambda>args. settle_once (f args)) xs p = p"
  by (induction xs; cases p) (simp_all add: settle_once_def)

lemma fold_pending: "(\<And>args. f args \<noteq> Pending) \<Longrightarrow>
    fold (\<lambda>args. settle_once (f args)) xs Pending = (case xs of [] \<Rightarrow> Pending | args # _ \<Rightarrow> f args)"
  by (cases xs) (simp_all add: settle_once_def fold_settled)

lemma promise_of_first:
  assumes "\<And>args. f args \<noteq> Pending"
  shows "promise_of f b = (case calls_before b of
      args # _ \<Rightarrow> f args
    | [] \<Rightarrow> (case throws b of Some e \<Rightarrow> Rejected e | None \<Rightarrow> (case calls_after b of args # _ \<Rightarrow> f args | [] \<Rightarrow> Pending)))"
  using assms
  by (auto simp: promise_of_def Let_def fold_pending fold_settled settle_once_def split: list.split option.split promise.split)

lemma node_callback_settles: "node_callback args \<noteq> Pending"
  by (simp add: node_callback_def)

text \<open>\<open>callbackify\<close> undoes \<open>promisify\<close>. If a function calls its callback first with an error and a value, then \<open>promisify\<close> and \<open>callbackify\<close> together
  call the given callback once, with null and the value if the error is falsy, and with the error alone otherwise, whatever calls come later; an
  exception instead of the first call arrives as an error.\<close>

theorem callbackify_promisify:
  assumes "calls_before b = [e, v] # rest \<or> calls_before b = [] \<and> throws b = None \<and> calls_after b = [e, v] # rest"
  shows "callbackify_result (promisify b) = Some (if truthy e then [e] else [VNull, v])"
  using assms node_callback_settles
  by (auto simp: promisify_def promise_of_first node_callback_def callbackify_result_def arg_def)

theorem callbackify_promisify_throws:
  assumes "calls_before b = []" and "throws b = Some e"
  shows "callbackify_result (promisify b) = Some [if truthy e then e else VErr Error ''Promise rejected with falsy value'']"
  using assms node_callback_settles by (simp add: promisify_def promise_of_first callbackify_result_def)

text \<open>\<open>once\<close> takes the first event that concerns it: the events before it do not matter, nor do those that follow.\<close>

theorem once_takes_first:
  assumes "list_all (\<lambda>e. fst e \<noteq> name \<and> fst e \<noteq> ''error'') before"
  shows "once_promise name (before @ [(name, args)] @ later) = Fulfilled (VArr args) \<and>
    (name \<noteq> ''error'' \<longrightarrow> once_promise name (before @ [(''error'', args)] @ later) = Rejected (arg 0 args)) \<and>
    once_promise name before = Pending"
proof -
  have b: "fold (once_event name) before p = p" for p
    using assms by (induction before) (auto simp: once_event_def)
  have l: "fold (once_event name) later p = p" if "p \<noteq> Pending" for p
    using that by (induction later) (auto simp: once_event_def settle_once_def split: promise.split)
  show ?thesis
    by (auto simp: once_promise_def b l once_event_def settle_once_def)
qed

end
