(* ===== verification/Util_Text.thy ===== *)
theory Util_Text
  imports Url_Text
begin

text \<open>
  \<open>inspect\<close> and \<open>format\<close> of \<open>util/util.js\<close>. Objects live in a heap, since they may refer to each other in circles: an array is the list of its elements,
  any other object the list of its own enumerable names with their values, and an error its text. The texts that the language itself makes of numbers,
  functions and other values are the parameter \<open>js_text\<close>.
\<close>

section \<open>inspect\<close>

datatype jvalue =
    Text jstr
  | BigInt int
  | Object nat
  | Primitive nat \<comment> \<open>undefined, null, booleans, numbers, symbols and functions\<close>

datatype object = Array "jvalue list" | Record "(jstr \<times> jvalue) list" | Failure jstr

definition quote :: "jstr \<Rightarrow> jstr" where
  "quote s = [0x27] @ s @ [0x27]"

text \<open>The replacement of quotes in the code has the text of a quote as its result, so it changes nothing.\<close>

definition quote_string :: "jstr \<Rightarrow> jstr" where
  "quote_string s = quote (replace_all [0x27] [0x27] s)"

definition bigint_text :: "(jvalue \<Rightarrow> jstr) \<Rightarrow> int \<Rightarrow> jstr" where
  "bigint_text js_text n = js_text (BigInt n) @ lit ''n''"

text \<open>\<open>/^[a-zA-Z_$][a-zA-Z0-9_$]*$/\<close>.\<close>

definition name_start :: "16 word \<Rightarrow> bool" where
  "name_start u \<longleftrightarrow> (let n = unat u in 65 \<le> n \<and> n \<le> 90 \<or> 97 \<le> n \<and> n \<le> 122 \<or> n = 95 \<or> n = 36)"

definition plain_name :: "jstr \<Rightarrow> bool" where
  "plain_name k \<longleftrightarrow> (case k of [] \<Rightarrow> False
     | u # s \<Rightarrow> name_start u \<and> list_all (\<lambda>x. name_start x \<or> 48 \<le> unat x \<and> unat x \<le> 57) s)"

fun join_texts :: "jstr \<Rightarrow> jstr list \<Rightarrow> jstr" where
  "join_texts sep [] = []"
| "join_texts sep [s] = s"
| "join_texts sep (s # t # ss) = s @ sep @ join_texts sep (t # ss)"

text \<open>\<open>show(x, d)\<close>: the argument is \<open>d + 1\<close>, so 0 is a negative depth; \<open>seen\<close> are the objects around the value. Names of fields are strings, which
  are shown without regard to the depth.\<close>

primrec show_value :: "(nat \<Rightarrow> object) \<Rightarrow> (jvalue \<Rightarrow> jstr) \<Rightarrow> nat \<Rightarrow> nat list \<Rightarrow> jvalue \<Rightarrow> jstr" where
  "show_value h js_text 0 seen x = (case x of
       Text s \<Rightarrow> quote_string s
     | BigInt n \<Rightarrow> bigint_text js_text n
     | Primitive _ \<Rightarrow> js_text x
     | Object r \<Rightarrow> (case h r of
         Failure t \<Rightarrow> t
       | Array _ \<Rightarrow> if r \<in> set seen then lit ''[Circular]'' else lit ''[Array]''
       | Record _ \<Rightarrow> if r \<in> set seen then lit ''[Circular]'' else lit ''[Object]''))"
| "show_value h js_text (Suc d) seen x = (case x of
       Text s \<Rightarrow> quote_string s
     | BigInt n \<Rightarrow> bigint_text js_text n
     | Primitive _ \<Rightarrow> js_text x
     | Object r \<Rightarrow> (case h r of
         Failure t \<Rightarrow> t
       | Array xs \<Rightarrow> if r \<in> set seen then lit ''[Circular]''
           else lit ''[ '' @ join_texts (lit '', '') (map (show_value h js_text d (r # seen)) xs) @ lit '' ]''
       | Record fs \<Rightarrow> if r \<in> set seen then lit ''[Circular]''
           else lit ''{ '' @ join_texts (lit '', '') (map (\<lambda>(k, v).
             (if plain_name k then k else quote_string k) @ lit '': '' @ show_value h js_text d (r # seen) v) fs) @ lit '' }''))"

text \<open>\<open>inspect(v, opts)\<close> for a depth that is an integer; without one it is 2.\<close>

definition inspect :: "(nat \<Rightarrow> object) \<Rightarrow> (jvalue \<Rightarrow> jstr) \<Rightarrow> int option \<Rightarrow> jvalue \<Rightarrow> jstr" where
  "inspect h js_text depth v = show_value h js_text (nat (1 + (case depth of None \<Rightarrow> 2 | Some d \<Rightarrow> d))) [] v"

definition text_of :: "(nat \<Rightarrow> object) \<Rightarrow> (jvalue \<Rightarrow> jstr) \<Rightarrow> jvalue \<Rightarrow> jstr" where
  "text_of h js_text v = (case v of
       Object _ \<Rightarrow> inspect h js_text None v
     | Text s \<Rightarrow> s
     | _ \<Rightarrow> js_text v)"

section \<open>format\<close>

text \<open>The conversions of the language that a code stands for: numbers with \<open>Number\<close>, \<open>parseInt\<close> and \<open>parseFloat\<close>, JSON (\<open>None\<close> when it throws),
  and \<open>String\<close>.\<close>

record conversions =
  to_string :: "jvalue \<Rightarrow> jstr"
  to_number :: "jvalue \<Rightarrow> jstr"
  to_integer :: "jvalue \<Rightarrow> jstr"
  to_float :: "jvalue \<Rightarrow> jstr"
  to_json :: "jvalue \<Rightarrow> jstr option"

definition convert :: "(nat \<Rightarrow> object) \<Rightarrow> conversions \<Rightarrow> 16 word \<Rightarrow> jvalue \<Rightarrow> jstr" where
  "convert h C code v =
     (if code = 0x73 then to_string C v
      else if code = 0x64 then (case v of BigInt n \<Rightarrow> bigint_text (to_string C) n | _ \<Rightarrow> to_number C v)
      else if code = 0x69 then to_integer C v
      else if code = 0x66 then to_float C v
      else if code = 0x6A then (case to_json C v of Some t \<Rightarrow> t | None \<Rightarrow> lit ''[Circular]'')
      else if code = 0x6F \<or> code = 0x4F then inspect h (to_string C) None v
      else [])"

definition is_code :: "16 word \<Rightarrow> bool" where
  "is_code u \<longleftrightarrow> u \<in> set (lit ''sdifjoOc'')"

text \<open>The replacement of the codes from left to right: the text and the arguments that are left.\<close>

fun format_loop :: "(nat \<Rightarrow> object) \<Rightarrow> conversions \<Rightarrow> jstr \<Rightarrow> jvalue list \<Rightarrow> jstr \<times> jvalue list" where
  "format_loop h C (p # c # s) args =
     (if p = 0x25 \<and> c = 0x25 then (case format_loop h C s args of (t, rest) \<Rightarrow> (0x25 # t, rest))
      else if p = 0x25 \<and> is_code c then (case args of
          [] \<Rightarrow> (case format_loop h C s [] of (t, rest) \<Rightarrow> (p # c # t, rest))
        | v # vs \<Rightarrow> (case format_loop h C s vs of (t, rest) \<Rightarrow> (convert h C c v @ t, rest)))
      else (case format_loop h C (c # s) args of (t, rest) \<Rightarrow> (p # t, rest)))"
| "format_loop h C s args = (s, args)"

definition format_text :: "(nat \<Rightarrow> object) \<Rightarrow> conversions \<Rightarrow> jvalue list \<Rightarrow> jstr" where
  "format_text h C args = (case args of
       [] \<Rightarrow> []
     | Text first # vs \<Rightarrow> (case format_loop h C first vs of (t, rest) \<Rightarrow>
         t @ (if rest \<noteq> [] then lit '' '' @ join_texts (lit '' '') (map (text_of h (to_string C)) rest) else []))
     | _ \<Rightarrow> join_texts (lit '' '') (map (text_of h (to_string C)) args))"

section \<open>Properties\<close>

fun codes_in :: "jstr \<Rightarrow> nat" where
  "codes_in (p # c # s) = (if p = 0x25 \<and> c = 0x25 then codes_in s
     else if p = 0x25 \<and> is_code c then Suc (codes_in s) else codes_in (c # s))"
| "codes_in s = 0"

text \<open>\<open>format\<close> uses every argument once. Each code but \<open>%%\<close> takes the next argument; what is left when the text ends is what the codes did
  not take, and is added behind it.\<close>

theorem format_takes_arguments: "snd (format_loop h C s args) = drop (codes_in s) args"
proof (induction h C s args rule: format_loop.induct)
  case (1 h C p c s args)
  consider "p = 0x25 \<and> c = 0x25" | "p = 0x25 \<and> is_code c" "c \<noteq> 0x25" | "p \<noteq> 0x25 \<or> c \<noteq> 0x25 \<and> \<not> is_code c"
    by blast
  then show ?case
  proof cases
    case 1
    then show ?thesis using "1.IH"(1) by (simp add: case_prod_beta)
  next
    case 2
    then show ?thesis using "1.IH"(2,3) by (cases args) (simp_all add: case_prod_beta)
  next
    case 3
    then show ?thesis using "1.IH"(4) by (auto simp: case_prod_beta)
  qed
qed auto

lemma replace_quote: "replace_all [q] [q] s = s"
  by (induction s) simp_all

text \<open>Quotes are not escaped. The text that \<open>inspect\<close> makes of a string does not tell where it ends: an array of one string and an array of two
  can look the same.\<close>

theorem inspect_is_ambiguous:
  assumes "h 0 = Array [Text (lit ''a'' @ [0x27] @ lit '', '' @ [0x27] @ lit ''b'')]" and "h 1 = Array [Text (lit ''a''), Text (lit ''b'')]"
  shows "inspect h js_text None (Object 0) = inspect h js_text None (Object 1)"
  using assms by (simp add: inspect_def numeral_3_eq_3 quote_string_def quote_def replace_quote)

text \<open>Circles end: an array that contains itself is shown as circular at the second meeting.\<close>

theorem inspect_circular:
  assumes "h r = Array [Object r]"
  shows "show_value h js_text (Suc (Suc d)) [] (Object r) = lit ''[ [Circular] ]''"
  using assms by (simp add: lit_def)

end
