(* ===== verification/Protocol_Check.thy ===== *)
theory Protocol_Check
  imports Web_Headers
begin

text \<open>
  The scripts that guard the protocol submodule and the release notes: \<open>scripts/ci/check-protocol.cjs\<close>, \<open>scripts/bump-proto.cjs\<close> and
  \<open>.github/scripts/release-notes-body.cjs\<close>.

  An assertion that fails throws: it is \<open>Inl\<close> with its message. What the scripts read (files, the output of git and of the go command)
  is the record \<open>checkout\<close>; a command that fails, or a file that is not there or is not JSON, is \<open>None\<close>. JSON is given as records of
  the fields that are read. The commands of \<open>bump\<close> change the world through a function that is a parameter.
\<close>

section \<open>Assertions and text\<close>

definition assert_that :: "bool \<Rightarrow> string \<Rightarrow> (string + 'a) \<Rightarrow> string + 'a" where
  "assert_that ok m rest = (if ok then rest else Inl m)"

definition with_value :: "'b option \<Rightarrow> ('b \<Rightarrow> string + 'a) \<Rightarrow> string + 'a" where
  "with_value v f = (case v of None \<Rightarrow> Inl ''command or file failed'' | Some x \<Rightarrow> f x)"

abbreviation MODULE :: string where
  "MODULE \<equiv> ''github.com/r11234567/komari-proto''"

abbreviation SUBMODULE :: string where
  "SUBMODULE \<equiv> ''third_party/komari-proto''"

abbreviation PACKAGE :: string where
  "PACKAGE \<equiv> ''@komari/proto''"

text \<open>\<open>\s\<close> among the characters with a code below 256, and \<open>[a-f0-9]\<close>.\<close>

definition is_space :: "char \<Rightarrow> bool" where
  "is_space c \<longleftrightarrow> (let n = char_code c in 9 \<le> n \<and> n \<le> 13 \<or> n = 32 \<or> n = 160)"

definition is_hex :: "char \<Rightarrow> bool" where
  "is_hex c \<longleftrightarrow> (let n = char_code c in 48 \<le> n \<and> n \<le> 57 \<or> 97 \<le> n \<and> n \<le> 102)"

definition commit_id :: "string \<Rightarrow> bool" where
  "commit_id s \<longleftrightarrow> length s = 40 \<and> list_all is_hex s"

definition newline :: "char \<Rightarrow> bool" where
  "newline c \<longleftrightarrow> char_code c \<in> {10, 13}"

fun split_lines :: "string \<Rightarrow> string list" where
  "split_lines [] = [[]]"
| "split_lines (c # s) = (if newline c then [] # split_lines s
     else case split_lines s of l # ls \<Rightarrow> (c # l) # ls | [] \<Rightarrow> [[c]])"

definition trim_left :: "string \<Rightarrow> string" where
  "trim_left s = dropWhile is_space s"

definition begins_with :: "string \<Rightarrow> string \<Rightarrow> bool" where
  "begins_with p s \<longleftrightarrow> take (length p) s = p"

text \<open>The multi-line patterns: a line that is a text followed by blanks, with blanks before it or without, and a line that begins with a text.\<close>

definition line_is :: "bool \<Rightarrow> string \<Rightarrow> string \<Rightarrow> bool" where
  "line_is indent p s \<longleftrightarrow> list_ex (\<lambda>l. let t = (if indent then trim_left l else l) in
     begins_with p t \<and> list_all is_space (drop (length p) t)) (split_lines s)"

definition line_begins :: "string \<Rightarrow> string \<Rightarrow> bool" where
  "line_begins p s \<longleftrightarrow> list_ex (begins_with p) (split_lines s)"

text \<open>The entry of the index that \<open>git ls-files --stage\<close> prints for a submodule without conflicts: the commit it records.\<close>

definition gitlink :: "string \<Rightarrow> string option" where
  "gitlink s = (let i = drop 7 s; id = take 40 i in
     if begins_with ''160000 '' s \<and> commit_id id \<and> drop 40 i = '' 0'' @ [CHR 0x09] @ SUBMODULE then Some id else None)"

section \<open>The Go binding\<close>

record go_module =
  module_path :: string
  module_version :: string \<comment> \<open>empty when it is missing\<close>

record requirement =
  need_path :: string
  need_version :: string
  need_indirect :: bool

record replacement =
  old_module :: go_module
  new_module :: go_module

record go_mod =
  require_list :: "requirement list"
  replace_list :: "replacement list"

record resolved_module =
  resolved_path :: string
  resolved_version :: string
  resolved_replace :: "go_module option"

definition verifyGoBinding :: "go_mod \<Rightarrow> resolved_module \<Rightarrow> string + unit" where
  "verifyGoBinding d r =
     (case find (\<lambda>e. need_path e = MODULE) (require_list d) of
        None \<Rightarrow> Inl ''use a neutral Go requirement; the gitlink pins the protocol revision''
      | Some q \<Rightarrow>
        assert_that (need_version q = ''v0.0.0'') ''use a neutral Go requirement; the gitlink pins the protocol revision''
        (assert_that (\<not> need_indirect q) ''protocol must be a direct Go requirement''
        (case filter (\<lambda>e. module_path (old_module e) = MODULE) (replace_list d) of
           [p] \<Rightarrow>
             assert_that (module_version (old_module p) = []) ''protocol replace must apply to every version''
             (assert_that (module_path (new_module p) = ''./'' @ SUBMODULE) ''Go must use the protocol submodule''
             (assert_that (module_version (new_module p) = []) ''local protocol replace must not carry a module version''
             (assert_that (resolved_path r = MODULE) ''not equal''
             (assert_that (resolved_version r = ''v0.0.0'') ''not equal''
             (assert_that (map_option module_path (resolved_replace r) = Some (''./'' @ SUBMODULE)) ''Go resolved a different protocol source''
             (Inr ()))))))
         | _ \<Rightarrow> Inl ''protocol needs exactly one local Go replace'')))"

section \<open>The check of a checkout\<close>

record package_json =
  package_name :: "string option"
  package_version :: "string option"
  package_dependencies :: "(string \<times> string) list"
  package_peers :: "(string \<times> string) list option"
  package_link :: bool
  package_resolved :: "string option"

text \<open>\<open>git_out\<close> takes the directory and the arguments; \<open>lock_packages\<close> is the field \<open>packages\<close> of the lockfile.\<close>

record checkout =
  file_exists :: "string \<Rightarrow> bool"
  real_path :: "string \<Rightarrow> string"
  git_out :: "string \<Rightarrow> string list \<Rightarrow> string option"
  file_text :: "string \<Rightarrow> string option"
  package_file :: "string \<Rightarrow> package_json option"
  lock_packages :: "string \<Rightarrow> (string \<times> package_json) list option"
  go_edit :: "go_mod option"
  go_list :: "resolved_module option"

definition path_in :: "string \<Rightarrow> string \<Rightarrow> string" where
  "path_in root p = root @ ''/'' @ p"

text \<open>\<open>deepEqual\<close> of two objects of strings, whose keys are distinct.\<close>

definition same_object :: "(string \<times> string) list option \<Rightarrow> (string \<times> string) list option \<Rightarrow> bool" where
  "same_object a b \<longleftrightarrow> (case (a, b) of (None, None) \<Rightarrow> True | (Some x, Some y) \<Rightarrow> set x = set y | _ \<Rightarrow> False)"

definition check_go :: "checkout \<Rightarrow> string \<Rightarrow> bool \<Rightarrow> string + unit" where
  "check_go E root resolveGo =
     (if \<not> file_exists E (path_in root ''go.mod'') then Inr ()
      else with_value (file_text E (path_in root ''go.mod'')) (\<lambda>manifest.
        assert_that (line_is True (MODULE @ '' v0.0.0'') manifest) ''Go protocol requirement must use the neutral v0.0.0 placeholder''
        (assert_that (line_is False (''replace '' @ MODULE @ '' => ./'' @ SUBMODULE) manifest) ''Go protocol replace must point at the submodule''
        (with_value (file_text E (path_in root ''go.sum'')) (\<lambda>sums.
          assert_that (\<not> line_begins (MODULE @ '' '') sums) ''remove obsolete remote protocol checksums''
          (if resolveGo then with_value (go_edit E) (\<lambda>d. with_value (go_list E) (verifyGoBinding d)) else Inr ()))))))"

definition check_npm :: "checkout \<Rightarrow> string \<Rightarrow> package_json \<Rightarrow> string + unit" where
  "check_npm E root protocol =
     (if \<not> file_exists E (path_in root ''package.json'') then Inr ()
      else with_value (package_file E (path_in root ''package.json'')) (\<lambda>declared.
        with_value (lock_packages E (path_in root ''package-lock.json'')) (\<lambda>lock.
          let top = map_of lock ''''; link = map_of lock (''node_modules/'' @ PACKAGE); local_package = map_of lock SUBMODULE
          in assert_that (map_of (package_dependencies declared) PACKAGE = Some (''file:'' @ SUBMODULE)) ''npm must use the local protocol package''
            (assert_that (Option.bind top (\<lambda>p. map_of (package_dependencies p) PACKAGE) = Some (''file:'' @ SUBMODULE))
               ''npm lockfile still uses a remote protocol dependency''
            (assert_that (map_option package_link link = Some True) ''npm protocol dependency must be a local link''
            (assert_that (Option.bind link package_resolved = Some SUBMODULE) ''not equal''
            (assert_that (Option.bind local_package package_version = package_version protocol) ''refresh local npm metadata after bumping the submodule''
            (assert_that (same_object (Option.bind local_package package_peers) (package_peers protocol)) ''refresh protocol peer dependency metadata''
            (Inr ())))))))))"

definition checkProtocol :: "checkout \<Rightarrow> string \<Rightarrow> bool \<Rightarrow> string + string" where
  "checkProtocol E root resolveGo = (let sub = path_in root SUBMODULE in
     assert_that (file_exists E (path_in sub ''.git'')) ''protocol submodule is missing; run git submodule update --init --recursive''
     (with_value (git_out E sub [''rev-parse'', ''--show-toplevel'']) (\<lambda>top_dir.
     assert_that (real_path E top_dir = real_path E sub) ''protocol directory is not its own Git repository''
     (with_value (git_out E root [''ls-files'', ''--stage'', ''--'', SUBMODULE]) (\<lambda>entry.
     case gitlink entry of None \<Rightarrow> Inl ''protocol must be an unconflicted Git submodule in the index'' | Some indexed \<Rightarrow>
     with_value (git_out E root [''config'', ''-f'', ''.gitmodules'', ''--get'', ''submodule.'' @ SUBMODULE @ ''.url'']) (\<lambda>url.
     assert_that (url = ''https://'' @ MODULE @ ''.git'') ''unexpected protocol repository''
     (with_value (git_out E sub [''rev-parse'', ''HEAD'']) (\<lambda>actual.
     assert_that (actual = indexed) ''protocol checkout differs from the gitlink; run git submodule update --init --recursive''
     (with_value (git_out E sub [''status'', ''--porcelain'', ''--untracked-files=no'']) (\<lambda>changes.
     assert_that (changes = []) ''protocol has uncommitted tracked changes''
     (with_value (file_text E (path_in sub ''go.mod'')) (\<lambda>manifest.
     assert_that (line_is False (''module '' @ MODULE) manifest) ''no match''
     (with_value (package_file E (path_in sub ''package.json'')) (\<lambda>protocol.
     assert_that (package_name protocol = Some PACKAGE) ''not equal''
     (case check_go E root resolveGo of Inl e \<Rightarrow> Inl e | Inr _ \<Rightarrow>
      case check_npm E root protocol of Inl e \<Rightarrow> Inl e | Inr _ \<Rightarrow> Inr actual)))))))))))))))"

section \<open>Bumping the submodule\<close>

record command =
  cmd_dir :: string
  cmd_words :: "string list"

text \<open>A run of the script: the result, the commands it ran so far and the world. \<open>view\<close> is what the check sees of the world, \<open>exec\<close> runs
  a command (\<open>None\<close> when it fails), \<open>npm\<close> is the command for npm on this system.\<close>

record 'w bump_tools =
  view :: "'w \<Rightarrow> checkout"
  exec :: "command \<Rightarrow> 'w \<Rightarrow> 'w option"
  npm :: string

type_synonym 'w bump_run = "(string + string) \<times> command list \<times> 'w"

primrec run_commands :: "'w bump_tools \<Rightarrow> command list \<Rightarrow> command list \<Rightarrow> 'w \<Rightarrow> (command list \<Rightarrow> 'w \<Rightarrow> 'w bump_run) \<Rightarrow> 'w bump_run" where
  "run_commands T [] past w k = k past w"
| "run_commands T (c # cs) past w k = (case exec T c w of
     None \<Rightarrow> (Inl ''command failed'', past @ [c], w)
   | Some w' \<Rightarrow> run_commands T cs (past @ [c]) w' k)"

definition checked :: "'w bump_tools \<Rightarrow> string \<Rightarrow> command list \<Rightarrow> 'w \<Rightarrow> (string \<Rightarrow> 'w bump_run) \<Rightarrow> 'w bump_run" where
  "checked T root past w k = (case checkProtocol (view T w) root False of Inl e \<Rightarrow> (Inl e, past, w) | Inr sha \<Rightarrow> k sha)"

definition fetch_commands :: "string \<Rightarrow> string \<Rightarrow> command list" where
  "fetch_commands root sha = (let sub = path_in root SUBMODULE in
     [\<lparr>cmd_dir = sub, cmd_words = [''git'', ''fetch'', ''--depth=1'', ''origin'', sha]\<rparr>,
      \<lparr>cmd_dir = sub, cmd_words = [''git'', ''checkout'', ''--detach'', sha]\<rparr>])"

definition npm_commands :: "'w bump_tools \<Rightarrow> string \<Rightarrow> bool \<Rightarrow> command list" where
  "npm_commands T root has_package = (if has_package
     then [\<lparr>cmd_dir = root, cmd_words = [npm T, ''install'', ''--package-lock-only'', ''--ignore-scripts'', ''--no-audit'', ''--no-fund'']\<rparr>]
     else [])"

definition staged_files :: "bool \<Rightarrow> string list" where
  "staged_files has_package = SUBMODULE # (if has_package then [''package-lock.json''] else [])"

definition add_command :: "string \<Rightarrow> bool \<Rightarrow> command" where
  "add_command root has_package = \<lparr>cmd_dir = root, cmd_words = [''git'', ''add'', ''--''] @ staged_files has_package\<rparr>"

definition diff_command :: "string \<Rightarrow> bool \<Rightarrow> command" where
  "diff_command root has_package = \<lparr>cmd_dir = root, cmd_words = [''git'', ''diff'', ''--cached'', ''--stat'', ''--''] @ staged_files has_package\<rparr>"

text \<open>\<open>bump(root, sha)\<close>; the result is the previous revision, which it prints.\<close>

definition bump :: "'w bump_tools \<Rightarrow> string \<Rightarrow> string \<Rightarrow> 'w \<Rightarrow> 'w bump_run" where
  "bump T root sha w =
     (if \<not> commit_id sha then (Inl ''Usage: node scripts/bump-proto.cjs <reviewed-full-commit-sha>'', [], w)
      else checked T root [] w (\<lambda>previous.
        run_commands T (fetch_commands root sha) [] w (\<lambda>past w1.
          let has_package = file_exists (view T w1) (path_in root ''package.json'')
          in run_commands T (npm_commands T root has_package @ [add_command root has_package]) past w1 (\<lambda>past2 w2.
            checked T root past2 w2 (\<lambda>_.
              run_commands T [diff_command root has_package] past2 w2 (\<lambda>past3 w3. (Inr previous, past3, w3)))))))"

section \<open>Release notes\<close>

definition manual_marker :: string where
  "manual_marker = ''<!-- komari-release-notes: manual -->''"

definition is_alnum :: "char \<Rightarrow> bool" where
  "is_alnum c \<longleftrightarrow> (let n = char_code c in 48 \<le> n \<and> n \<le> 57 \<or> 65 \<le> n \<and> n \<le> 90 \<or> 97 \<le> n \<and> n \<le> 122)"

text \<open>The rest of a text behind a marker with a version hash, if one begins it.\<close>

definition after_text :: "string \<Rightarrow> string \<Rightarrow> string option" where
  "after_text p s = (if to_lower (take (length p) s) = p then Some (drop (length p) s) else None)"

definition after_marker :: "string \<Rightarrow> string option" where
  "after_marker s =
     Option.bind (after_text ''<!--'' s) (\<lambda>s1.
     Option.bind (after_text ''komari-version-hash:'' (trim_left s1)) (\<lambda>s2.
     let s3 = trim_left s2 in
     if length (take 7 s3) = 7 \<and> list_all is_alnum (take 7 s3) then after_text ''-->'' (trim_left (drop 7 s3)) else None))"

lemma after_text_shorter: "after_text p s = Some t \<Longrightarrow> length t \<le> length s"
  by (auto simp: after_text_def split: if_splits)

lemma trim_left_shorter: "length (trim_left s) \<le> length s"
  by (simp add: trim_left_def length_dropWhile_le)

lemma after_marker_shorter: "after_marker s = Some t \<Longrightarrow> length t < length s"
proof -
  assume "after_marker s = Some t"
  then obtain s1 s2 where s: "after_text ''<!--'' s = Some s1" "after_text ''komari-version-hash:'' (trim_left s1) = Some s2"
    "after_text ''-->'' (trim_left (drop 7 (trim_left s2))) = Some t" "length (take 7 (trim_left s2)) = 7"
    by (auto simp: after_marker_def Let_def bind_eq_Some_conv split: if_splits)
  have "length t \<le> length (drop 7 (trim_left s2))"
    using after_text_shorter [OF s(3)] trim_left_shorter by (rule order_trans)
  also have "\<dots> < length (trim_left s2)"
    using s(4) by auto
  also have "\<dots> \<le> length s1"
    using after_text_shorter [OF s(2)] trim_left_shorter [of s1] trim_left_shorter [of s2] by linarith
  finally show ?thesis
    using after_text_shorter [OF s(1)] by simp
qed

function remove_markers :: "string \<Rightarrow> string" where
  "remove_markers [] = []"
| "remove_markers (c # s) = (case after_marker (c # s) of Some t \<Rightarrow> remove_markers t | None \<Rightarrow> c # remove_markers s)"
  by pat_completeness auto
termination
  by (relation "measure length") (auto dest: after_marker_shorter)

definition shouldPreserveReleaseBody :: "string option \<Rightarrow> bool \<Rightarrow> bool" where
  "shouldPreserveReleaseBody body overwriteExisting = (let text = (case body of None \<Rightarrow> [] | Some s \<Rightarrow> s) in
     list_ex (begins_with manual_marker) (map (\<lambda>i. drop i text) [0..<Suc (length text)]) \<or>
     \<not> overwriteExisting \<and> \<not> list_all is_space (remove_markers text))"

section \<open>What a check establishes\<close>

lemma assert_that_Inr: "assert_that c m x = Inr r \<longleftrightarrow> c \<and> x = Inr r"
  by (simp add: assert_that_def)

lemma with_value_Inr: "with_value v f = Inr r \<longleftrightarrow> (\<exists>x. v = Some x \<and> f x = Inr r)"
  by (auto simp: with_value_def split: option.split)

lemma passed_Inr: "(case x of Inl e \<Rightarrow> Inl e | Inr (u :: unit) \<Rightarrow> y) = Inr r \<longleftrightarrow> x = Inr () \<and> y = Inr r"
  by (cases x) simp_all

lemma found_Inr: "(case v of None \<Rightarrow> Inl m | Some x \<Rightarrow> f x) = Inr r \<longleftrightarrow> (\<exists>x. v = Some x \<and> f x = Inr r)"
  by (cases v) simp_all

lemmas check_simps = assert_that_Inr with_value_Inr passed_Inr found_Inr

lemma gitlink_commit: "gitlink s = Some k \<Longrightarrow> commit_id k"
  by (auto simp: gitlink_def Let_def split: if_splits)

text \<open>A checkout passes only if the index, the working tree and the declared dependencies agree: the index records a commit, that
  commit is checked out without changes, and Go and npm use the submodule and nothing else.\<close>

theorem check_pins_protocol:
  assumes "checkProtocol E root resolveGo = Inr sha"
  shows "commit_id sha \<and> git_out E (path_in root SUBMODULE) [''rev-parse'', ''HEAD''] = Some sha \<and>
    Option.bind (git_out E root [''ls-files'', ''--stage'', ''--'', SUBMODULE]) gitlink = Some sha \<and>
    git_out E (path_in root SUBMODULE) [''status'', ''--porcelain'', ''--untracked-files=no''] = Some [] \<and>
    (file_exists E (path_in root ''go.mod'') \<longrightarrow>
      (\<exists>t. file_text E (path_in root ''go.mod'') = Some t \<and> line_is True (MODULE @ '' v0.0.0'') t) \<and>
      (\<exists>t. file_text E (path_in root ''go.sum'') = Some t \<and> \<not> line_begins (MODULE @ '' '') t)) \<and>
    (file_exists E (path_in root ''package.json'') \<longrightarrow>
      (\<exists>p. package_file E (path_in root ''package.json'') = Some p \<and> map_of (package_dependencies p) PACKAGE = Some (''file:'' @ SUBMODULE)))"
proof -
  let ?sub = "path_in root SUBMODULE"
  obtain top_dir entry p where c:
    "git_out E root [''ls-files'', ''--stage'', ''--'', SUBMODULE] = Some entry" "gitlink entry = Some sha"
    "git_out E ?sub [''rev-parse'', ''HEAD''] = Some sha"
    "git_out E ?sub [''status'', ''--porcelain'', ''--untracked-files=no''] = Some []"
    "check_go E root resolveGo = Inr ()" "check_npm E root p = Inr ()"
    using assms by (auto simp: checkProtocol_def Let_def check_simps)
  moreover have "file_exists E (path_in root ''go.mod'') \<longrightarrow>
      (\<exists>t. file_text E (path_in root ''go.mod'') = Some t \<and> line_is True (MODULE @ '' v0.0.0'') t) \<and>
      (\<exists>t. file_text E (path_in root ''go.sum'') = Some t \<and> \<not> line_begins (MODULE @ '' '') t)"
    using c(5) by (auto simp: check_go_def check_simps split: if_splits)
  moreover have "file_exists E (path_in root ''package.json'') \<longrightarrow>
      (\<exists>p. package_file E (path_in root ''package.json'') = Some p \<and> map_of (package_dependencies p) PACKAGE = Some (''file:'' @ SUBMODULE))"
    using c(6) by (auto simp: check_npm_def Let_def check_simps split: if_splits)
  ultimately show ?thesis
    using gitlink_commit [OF c(2)] by simp
qed

text \<open>The Go binding is unique: one requirement that is direct and neutral, and one replacement, which points at the submodule.\<close>

theorem go_binding_unique:
  assumes "verifyGoBinding d r = Inr ()"
  shows "(\<exists>q \<in> set (require_list d). need_path q = MODULE \<and> need_version q = ''v0.0.0'' \<and> \<not> need_indirect q) \<and>
    (\<exists>!e. e \<in> set (replace_list d) \<and> module_path (old_module e) = MODULE) \<and>
    (\<forall>e \<in> set (replace_list d). module_path (old_module e) = MODULE \<longrightarrow>
       module_version (old_module e) = [] \<and> new_module e = \<lparr>module_path = ''./'' @ SUBMODULE, module_version = []\<rparr>)"
proof -
  obtain q e where q: "find (\<lambda>e. need_path e = MODULE) (require_list d) = Some q" "need_version q = ''v0.0.0''" "\<not> need_indirect q"
    and e: "filter (\<lambda>e. module_path (old_module e) = MODULE) (replace_list d) = [e]"
    and v: "module_version (old_module e) = []" "module_path (new_module e) = ''./'' @ SUBMODULE" "module_version (new_module e) = []"
    using assms by (auto simp: verifyGoBinding_def check_simps split: option.splits list.splits)
  have "x \<in> set (replace_list d) \<and> module_path (old_module x) = MODULE \<longleftrightarrow> x = e" for x
    using arg_cong [OF e, of set] by auto
  moreover have "q \<in> set (require_list d) \<and> need_path q = MODULE"
    using q(1) by (auto simp: find_Some_iff)
  moreover have "new_module e = \<lparr>module_path = ''./'' @ SUBMODULE, module_version = []\<rparr>"
    using v by simp
  ultimately show ?thesis
    using q(2,3) v(1) by metis
qed

section \<open>What a bump does\<close>

lemma run_commands_result:
  assumes "run_commands T cs past w k = (r, tr, w')"
  shows "(\<exists>n e. n < length cs \<and> r = Inl e \<and> tr = past @ take (Suc n) cs) \<or>
    (\<exists>w1. k (past @ cs) w1 = (r, tr, w') \<and> fold (\<lambda>c v. Option.bind v (exec T c)) cs (Some w) = Some w1)"
  using assms
proof (induction cs arbitrary: past w)
  case (Cons c cs)
  show ?case
  proof (cases "exec T c w")
    case None
    then show ?thesis
      using Cons.prems by (intro disjI1 exI [of _ 0]) auto
  next
    case (Some w1)
    then consider n e where "n < length cs" "r = Inl e" "tr = (past @ [c]) @ take (Suc n) cs"
      | w2 where "k ((past @ [c]) @ cs) w2 = (r, tr, w')" "fold (\<lambda>c v. Option.bind v (exec T c)) cs (Some w1) = Some w2"
      using Cons.IH [of "past @ [c]" w1] Cons.prems by auto
    then show ?thesis
    proof cases
      case 1
      then show ?thesis
        by (intro disjI1 exI [of _ "Suc n"]) auto
    qed (use Some in auto)
  qed
qed auto

text \<open>A bump is guarded on both sides. It runs no command unless the revision is a full commit and the checkout passes the check; and
  it succeeds only after all its commands ran, in their order, and the checkout passed the check again behind the last one that changes anything.\<close>

theorem bump_guarded:
  assumes "bump T root sha w = (r, tr, w')"
  shows "(tr \<noteq> [] \<longrightarrow> commit_id sha \<and> (\<exists>p. checkProtocol (view T w) root False = Inr p)) \<and>
    (tr = [] \<longrightarrow> w' = w \<and> (\<exists>e. r = Inl e)) \<and>
    (\<forall>p. r = Inr p \<longrightarrow> checkProtocol (view T w) root False = Inr p \<and> (\<exists>has_package w2 q.
       tr = fetch_commands root sha @ npm_commands T root has_package @ [add_command root has_package, diff_command root has_package] \<and>
       checkProtocol (view T w2) root False = Inr q \<and> exec T (diff_command root has_package) w2 = Some w'))"
proof (cases "commit_id sha \<and> (\<exists>p. checkProtocol (view T w) root False = Inr p)")
  case False
  then show ?thesis
    using assms by (auto simp: bump_def checked_def split: if_splits sum.splits dest: sym)
next
  case True
  then obtain p where p: "commit_id sha" "checkProtocol (view T w) root False = Inr p" by blast
  define last where "last past2 w2 hp = checked T root past2 w2 (\<lambda>_. run_commands T [diff_command root hp] past2 w2 (\<lambda>past3 w3. (Inr p, past3, w3)))"
    for past2 w2 hp
  define middle where "middle past w1 = (let hp = file_exists (view T w1) (path_in root ''package.json'')
    in run_commands T (npm_commands T root hp @ [add_command root hp]) past w1 (\<lambda>past2 w2. last past2 w2 hp))" for past w1
  have run: "run_commands T (fetch_commands root sha) [] w middle = (r, tr, w')"
    using assms p by (simp add: bump_def checked_def [of T root "[]"] middle_def [abs_def] last_def Let_def)
  have last_result: "tr \<noteq> [] \<and> (\<forall>x. r = Inr x \<longrightarrow> x = p \<and> tr = d @ [diff_command root hp] \<and>
      (\<exists>q. checkProtocol (view T w2) root False = Inr q) \<and> exec T (diff_command root hp) w2 = Some w')"
    if "last d w2 hp = (r, tr, w')" "d \<noteq> []" for d w2 hp
    using that by (auto simp: last_def checked_def split: sum.splits option.splits)
  consider n e where "r = Inl e" "tr = take (Suc n) (fetch_commands root sha)"
    | w1 where "middle (fetch_commands root sha) w1 = (r, tr, w')"
    using run_commands_result [OF run] by auto
  then show ?thesis
  proof cases
    case 1
    then show ?thesis using p by (auto simp: fetch_commands_def Let_def)
  next
    case 2
    define hp where "hp = file_exists (view T w1) (path_in root ''package.json'')"
    have rest: "run_commands T (npm_commands T root hp @ [add_command root hp]) (fetch_commands root sha) w1 (\<lambda>past2 w2. last past2 w2 hp) = (r, tr, w')"
      using 2 by (simp add: middle_def hp_def Let_def)
    consider n e where "r = Inl e" "tr = fetch_commands root sha @ take (Suc n) (npm_commands T root hp @ [add_command root hp])"
      | w2 where "last (fetch_commands root sha @ npm_commands T root hp @ [add_command root hp]) w2 hp = (r, tr, w')"
      using run_commands_result [OF rest] by blast
    then show ?thesis
    proof cases
      case 1
      then show ?thesis using p by (simp add: fetch_commands_def Let_def)
    next
      case 2
      then show ?thesis
        using last_result [OF 2] p(1,2) by (cases r) auto
    qed
  qed
qed

section \<open>Release notes\<close>

definition version_marker :: "string \<Rightarrow> string \<Rightarrow> string \<Rightarrow> string \<Rightarrow> string" where
  "version_marker a b hash c = ''<!--'' @ a @ ''komari-version-hash:'' @ b @ hash @ c @ ''-->''"

lemma after_text_append: "to_lower p = p \<Longrightarrow> after_text p (p @ s) = Some s"
  by (simp add: after_text_def)

lemma trim_left_append: "list_all is_space a \<Longrightarrow> s = [] \<or> \<not> is_space (hd s) \<Longrightarrow> trim_left (a @ s) = s"
  by (induction a) (cases s; simp add: trim_left_def)+

lemma alnum_not_space: "is_alnum c \<Longrightarrow> \<not> is_space c"
  by (auto simp: is_alnum_def is_space_def Let_def)

lemma after_version_marker:
  assumes "list_all is_space a" "list_all is_space b" "list_all is_space c" "length hash = 7" "list_all is_alnum hash"
  shows "after_marker (version_marker a b hash c @ s) = Some s"
proof -
  have l: "to_lower ''<!--'' = ''<!--''" "to_lower ''komari-version-hash:'' = ''komari-version-hash:''" "to_lower ''-->'' = ''-->''"
    by (simp_all add: to_lower_def lower_char_def char_code_def)
  obtain h t where h: "hash = h # t" "is_alnum h"
    using assms(4,5) by (cases hash) auto
  have "trim_left (a @ ''komari-version-hash:'' @ b @ hash @ c @ ''-->'' @ s) = ''komari-version-hash:'' @ b @ hash @ c @ ''-->'' @ s"
    using assms(1) by (intro trim_left_append) (simp_all add: is_space_def char_code_def)
  moreover have "trim_left (b @ hash @ c @ ''-->'' @ s) = hash @ c @ ''-->'' @ s"
    using assms(2) h alnum_not_space by (intro trim_left_append) simp_all
  moreover have "trim_left (c @ ''-->'' @ s) = ''-->'' @ s"
    using assms(3) by (intro trim_left_append) (simp_all add: is_space_def char_code_def)
  ultimately show ?thesis
    using after_text_append [OF l(1)] after_text_append [OF l(2)] after_text_append [OF l(3)] assms(4,5)
    by (simp only: after_marker_def version_marker_def append_assoc bind.bind_lunit Let_def) simp
qed

text \<open>Version markers do not count as notes: a body of blanks and such markers, with any blanks in them and any letters and digits as hash, leaves
  nothing when they are removed; a body with the manual mark is always kept, and with overwriting nothing else is.\<close>

datatype piece = Blank char | Marker string string string string

primrec piece_text :: "piece \<Rightarrow> string" where
  "piece_text (Blank c) = [c]"
| "piece_text (Marker a b h c) = version_marker a b h c"

primrec piece_fine :: "piece \<Rightarrow> bool" where
  "piece_fine (Blank c) = is_space c"
| "piece_fine (Marker a b h c) = (list_all is_space a \<and> list_all is_space b \<and> list_all is_space c \<and> length h = 7 \<and> list_all is_alnum h)"

lemma blank_no_marker: "is_space c \<Longrightarrow> after_marker (c # s) = None"
proof -
  assume c: "is_space c"
  then have "lower_char c \<noteq> CHR ''<''"
    by (auto simp: is_space_def lower_char_def is_upper_def char_code_def Let_def split: if_splits)
  then show ?thesis
    by (simp add: after_marker_def after_text_def to_lower_def)
qed

theorem markers_are_not_notes:
  "(list_all piece_fine ps \<longrightarrow> list_all is_space (remove_markers (concat (map piece_text ps)))) \<and>
   (shouldPreserveReleaseBody (Some (a @ manual_marker @ b)) over) \<and>
   (shouldPreserveReleaseBody body True \<longrightarrow> shouldPreserveReleaseBody body False)"
proof (intro conjI impI)
  show "list_all is_space (remove_markers (concat (map piece_text ps)))" if "list_all piece_fine ps"
    using that
  proof (induction ps)
    case (Cons p ps)
    let ?s = "concat (map piece_text ps)"
    show ?case
    proof (cases p)
      case (Blank c)
      then show ?thesis
        using Cons by (simp add: blank_no_marker)
    next
      case (Marker x y h z)
      then have "after_marker (version_marker x y h z @ ?s) = Some ?s"
        using Cons.prems by (intro after_version_marker) simp_all
      moreover have "version_marker x y h z @ ?s = CHR ''<'' # tl (version_marker x y h z @ ?s)"
        by (simp add: version_marker_def)
      ultimately have "remove_markers (version_marker x y h z @ ?s) = remove_markers ?s"
        by (metis option.simps(5) remove_markers.simps(2))
      then show ?thesis
        using Cons Marker by simp
    qed
  qed simp
  have "begins_with manual_marker (drop (length a) (a @ manual_marker @ b))"
    by (simp add: begins_with_def)
  moreover have "length a \<in> set [0..<Suc (length (a @ manual_marker @ b))]"
    by simp
  ultimately show "shouldPreserveReleaseBody (Some (a @ manual_marker @ b)) over"
    by (auto simp: shouldPreserveReleaseBody_def list_ex_iff Let_def simp del: drop_append upt_Suc)
  show "shouldPreserveReleaseBody body True \<Longrightarrow> shouldPreserveReleaseBody body False"
    by (auto simp: shouldPreserveReleaseBody_def Let_def)
qed

end
