(* ===== verification/Spec2Isabelle.thy ===== *)
theory Spec2Isabelle
  imports Stream_Properties Xhr_Properties Web_Abort Fs_Read_Spec Fs_Write_Spec Stream_Async Buffers_Spec Login_Bridge_Spec
    Url_Spec Stream_Pipeline_Spec Http_Client Stdio Buffer_Memory_Spec Web_Objects
    Stream_Info Next_Tick Promise_Glue Util_Text Protocol_Check
begin

text \<open>
  Komari is a server monitor. Its server, in Go, runs scripts in an embedded JavaScript runtime
  (\<open>src/pkg/jsruntime\<close>), and serves web pages (\<open>src/web/public\<close>). This development models the
  JavaScript that the project itself has written: the library of the runtime (events, streams, file
  streams, fetch, XMLHttpRequest, URLs, the HTTP client, standard streams) and the login bridge that the server adds to the pages of themes.

  \<^bold>\<open>The parts and their theories.\<close>

  \<^item> \<open>JS_Prelude\<close>: numbers with NaN and infinities, values, strings, and a monad for code that changes a state, throws
    and does not return. \<open>preserves\<close> is the logic of invariants for it.
  \<^item> \<open>Events\<close> (\<open>events/events.js\<close>): the EventEmitter as a map of lists of listeners.
  \<^item> \<open>Stream_State\<close>, \<open>Stream_Base\<close>, \<open>Readable\<close>, \<open>Writable\<close>, \<open>Transform\<close>, \<open>Pipe\<close>
    (\<open>stream/stream.js\<close>): the state objects as records, the constructors, and one function for each
    method. Straight-line code is a function on the stream object (its name ends in \<open>_begin\<close>, or says what it does, such
    as \<open>push_chunk\<close>); the rest calls listeners, hooks and callbacks through \<open>rt\<close>.
  \<^item> \<open>Stream_Run\<close>: the functions the module creates, user programs that call any operation at any
    moment, and the steps of the event loop with the queue of \<open>process.nextTick\<close>.
  \<^item> \<open>Stream_Laws\<close>, \<open>Stream_Client\<close>: the interface between the code and its invariants: an invariant of one
    stream object that every straight-line function keeps (locale \<open>stream_laws\<close>) is kept by every operation and
    every step (locale \<open>stream_client\<close>). \<open>Readable_Spec\<close>, \<open>Writable_Spec\<close> and \<open>Lifecycle_Spec\<close>
    interpret it: a readable stream refines a double-ended queue, a writable stream a serial writer, and
    the life cycle of a stream is a state machine. \<open>Flow_Spec\<close> shows that the flowing loop returns.
    \<open>Stream_Eval\<close> evaluates concrete programs; \<open>Stream_Properties\<close> states the theorems.
  \<^item> \<open>Fs_Read\<close>, \<open>Fs_Write\<close> (\<open>fs/streams.js\<close>): streams over files, composed from the functions of the stream model, the
    variables of the closures and the callbacks of the native \<open>fs\<close> in any order. \<open>Fs_Read_Spec\<close> and \<open>Fs_Write_Spec\<close> relate
    the bytes of the file to the chunks of the stream, and follow the descriptor.
  \<^item> \<open>Stream_Async\<close> (\<open>stream/stream.js\<close>, \<open>events/events.js\<close>): the two async iterators, which implement one interface (locale
    \<open>value_queue\<close>), and \<open>finished\<close>.
  \<^item> \<open>Buffers\<close>, \<open>Buffers_Spec\<close> (\<open>buffer/buffer.js\<close>): integers in both byte orders, comparison, search, fill, write, copy, concatenation and
    byte swapping, on lists of 8-bit words. \<open>Buffer_Text\<close>, \<open>Buffer_Text_Spec\<close> (also \<open>buffer/buffer.go\<close>): the codecs between strings and bytes, one
    locale \<open>text_codec\<close> with an interpretation for each. \<open>Buffer_Memory\<close>, \<open>Buffer_Memory_Spec\<close>: Buffers as windows of arrays in a store; an operation of
    \<open>Buffers\<close> that keeps the number of bytes is an interpretation of the locale \<open>window_op\<close>.
  \<^item> \<open>Multimap\<close>, \<open>Web_Headers\<close>, \<open>Web_Body\<close>, \<open>Web_Fetch\<close>, \<open>Web_Events\<close>,
    \<open>Web_Abort\<close> (\<open>fetch/api.js\<close>, and \<open>set\<close> of \<open>url/url.js\<close>): the collections of names and values behind one locale,
    headers, bodies, requests and responses, event targets, and abort signals with re-entrant listeners.
    \<open>Web_Objects\<close> has the streams of Blobs, iteration, timeouts and the getters.
  \<^item> \<open>Xhr\<close>, \<open>Xhr_Spec\<close>, \<open>Xhr_Properties\<close> (\<open>xhr/api.js\<close>): XMLHttpRequest with listeners that may call it
    back, and answers, failures and timeouts in any order.
  \<^item> \<open>Login_Bridge\<close>, \<open>Login_Bridge_Spec\<close> (\<open>web/public/native_login_bridge.js\<close>): the wrapped \<open>fetch\<close> and the wrapped
    methods of XMLHttpRequest, with the listeners of the page in their order.

  \<^item> \<open>Url_Text\<close>, \<open>Url_Params\<close>, \<open>Url\<close>, \<open>Url_Spec\<close> (\<open>url/url.js\<close>, and the form decoder of \<open>url/url.go\<close>): text as 16-bit code units, its
    encoding as UTF-8 and percent signs (locale \<open>form_codec\<close>), the methods of URLSearchParams, and URL with its assignments. A program
    brings a URL to the states of \<open>url_reach\<close>; the search component and the pairs agree in all of them where the parser took the last change over.
  \<^item> \<open>Stream_Pipeline\<close>, \<open>Stream_Pipeline_Spec\<close> (\<open>stream/stream.js\<close>): \<open>Readable.from\<close>, \<open>pipeline\<close>, \<open>addAbortSignal\<close> and the static
    questions about streams, as programs of \<open>Stream_Run\<close> that call the operations of the streams the way the code does. \<open>Stream_Info\<close>: the getters
    of streams by name, which are shown to agree in all reachable worlds, and the arguments of \<open>finished\<close>.
  \<^item> \<open>Next_Tick\<close> (\<open>process/nexttick.js\<close> and \<open>.go\<close>, \<open>globals.js\<close>): the queue of \<open>process.nextTick\<close> and its promises as a step relation.
    \<open>Promise_Glue\<close> (\<open>util/util.js\<close>, \<open>fs/promises.js\<close>, \<open>events/events.js\<close>): promises of functions with callbacks.
    \<open>Util_Text\<close> (\<open>util/util.js\<close>): \<open>inspect\<close> and \<open>format\<close>.
  \<^item> \<open>Protocol_Check\<close> (\<open>scripts/ci/check-protocol.cjs\<close>, \<open>scripts/bump-proto.cjs\<close>, \<open>.github/scripts/release-notes-body.cjs\<close>): the checks of the
    protocol submodule, the guarded sequence of commands that moves it, and the test that keeps release notes.
  \<^item> \<open>Http_Client\<close> (\<open>http/client.js\<close>): a request as a record, its methods, and the promises and timers it leaves behind, which come in
    any order. \<open>Stdio\<close> (\<open>process/stdio.js\<close>, \<open>child_process/stdio.js\<close>, \<open>http/streams.js\<close>): streams whose hooks call native functions.

  \<^bold>\<open>How state and calls are modelled.\<close> A stream object is a record; the heap maps numbers to objects.
  The fields after \<open>hooks\<close> stand for variables of closures (the write in progress, whether a
  callback was called) and for \<open>history\<close>, a record of what was accepted and delivered that no operation reads. JavaScript
  code runs in the monad \<open>code\<close>: a result or an exception, or nothing if the depth of calls is
  exceeded. \<open>rt_fuel U n\<close> is the runtime for the user's code \<open>U\<close> with calls nested at most \<open>n\<close> deep; the
  invariants hold for every \<open>n\<close>, since a computation that runs out keeps the state it reached. Where a theorem says
  that code returns, it gives the depth that is enough (for the flowing loop, two levels more than chunks in the buffer; for a failing pipeline, one
  more than the writes that wait in any of its streams; for abort by listeners that make no signals, the number
  of signals not yet aborted plus one).

  \<^bold>\<open>Parameters.\<close> What is not JavaScript of the repository is a parameter: the native coder of multipart forms, the native half of fetch, of
  \<open>fs\<close> and of XMLHttpRequest (any answer at any time), the parser of URLs (\<open>parse\<close> in \<open>url/url.go\<close>, of which nothing is
  assumed), \<open>JSON.parse\<close> and the URL parser of the browser, and the
  conversion of text to bytes. Hypotheses about them are named in the theorems.

  \<^bold>\<open>What is shown.\<close> Streams: C1, C2, C3, C4, C5, C6, C34. XMLHttpRequest: C7, C8, C35. File streams: C9, C10,
  C36. Async iterators and \<open>finished\<close>: C21, C22. Buffers: C23, C24, C25, C26, C28, C29, C38. Login bridge: C11, C12,
  C13, C37. Abort signals: C30, C31. Fetch and its collections: C32, C33. URLs: C14, C15, C16. \<open>Readable.from\<close> and
  pipelines: C17, C18, C39, C40. HTTP client: C19, C20. Ticks: C27. The theorems C34, C35, C36, C37, C38, C39, C40 are defects:
  what the code does where it says or means something else.

  \<^bold>\<open>Not modelled.\<close> Floating point numbers (the readers and writers of floats in Buffer, fractions as sizes, offsets and times), since most numbers of
  the model are integers, NaN and infinities; only what the writers of integers of Buffer store is any finite Number, a rational, with the one
  sum that doubles round written out; the fields \<open>target\<close>, \<open>currentTarget\<close>, \<open>eventPhase\<close> and \<open>timeStamp\<close> of events, which nothing in the library reads;
  \<open>inherits\<close> and the type tests of \<open>util.js\<close>, which only ask the engine. The server in Go is another language, mostly SQL and I/O; the
  built front end is generated and minified; the end-to-end tests of the scripts drive a browser. Listeners of a file
  stream other than those of \<open>open\<close> do not call back into it, and the listeners of a theme only look. Where the runtime falls back to a timer because the
  call of the tick scheduler failed, and console output, are left out.
\<close>

end
